theory Spec2Isabelle
  imports Main "HOL-Library.Word"
begin

section \<open>Data model of \<^verbatim>\<open>src/main.cpp\<close>\<close>

text \<open>
  The firmware is one translation unit of global variables, Arduino library objects
  (\<^verbatim>\<open>WiFi\<close>, \<^verbatim>\<open>server\<close>, \<^verbatim>\<open>dnsServer\<close>, \<^verbatim>\<open>prefs\<close>) and the two entry points
  \<^verbatim>\<open>setup()\<close> and \<^verbatim>\<open>loop()\<close>. The embedding passes one record around that holds the
  globals, the part of the library objects the program can observe, and a chronological
  log of the calls made on the radio, the HTTP server, the DNS responder, the key-value
  store and \<^verbatim>\<open>delay\<close>.

  \<^verbatim>\<open>unsigned long\<close> and \<^verbatim>\<open>uint32_t\<close> are 32 bits wide on the ESP32 and \<^verbatim>\<open>uint8_t\<close> is 8
  bits: arithmetic on them wraps around.
\<close>

type_synonym u8 = "8 word"
type_synonym u32 = "32 word"

datatype RunState = CONNECTING | AP_SETUP | CONNECTED

datatype SetupPhase = IDLE | BLINK1_ON | BLINK1_OFF | BLINK2_ON | BLINK2_OFF | PAUSE

datatype wifi_mode = WIFI_OFF | WIFI_STA | WIFI_AP | WIFI_AP_STA

text \<open>A value stored under a key of the \<^verbatim>\<open>Preferences\<close> namespace \<^verbatim>\<open>"wifi"\<close>.\<close>

datatype nvs_value = UChar u8 | Str string

text \<open>
  The body of an HTTP response. The setup page \<^verbatim>\<open>indexPage\<close> is a constant of the program
  text; it is kept as one symbol.
\<close>

datatype payload = IndexPage | Text string

datatype http_method = HTTP_GET | HTTP_POST

record http_request =
  meth :: http_method
  path :: string
  args :: "(string \<times> string) list"

text \<open>One call observed from outside the program, in the order the calls are made.\<close>

datatype event =
    WifiDisconnect
  | WifiMode wifi_mode
  | WifiBegin string string
  | SoftAP string string
  | Delay u32
  | ServerBegin
  | ServerSend nat string payload
  | ServerStop
  | DnsStart
  | DnsStop
  | PutString string string
  | PutUChar string u8
  | PrefsClear
  | Restart

record sys =
  \<comment> \<open>globals of the program\<close>
  runState :: RunState
  currentSsid :: string
  currentPass :: string
  lastHttpActivityMs :: u32
  factoryBtnPressStartMs :: u32
  factoryBtnHeld :: bool
  connectBlinkLastMs :: u32
  connectLedState :: bool
  setupPhase :: SetupPhase
  setupPhaseStartMs :: u32
  apShutdownAt :: u32
  \<comment> \<open>devices\<close>
  clock :: u32
  prefs :: "string \<rightharpoonup> nvs_value"
  led01 :: bool
  led02 :: bool
  wifiMode :: wifi_mode
  serverRunning :: bool
  dnsRunning :: bool
  restarted :: bool
  \<comment> \<open>environment\<close>
  link :: "nat \<Rightarrow> bool"
  polls :: nat
  localIP :: string
  macAddress :: string
  scanResults :: "(string \<times> int \<times> bool) list"
  \<comment> \<open>log\<close>
  trace :: "event list"

text \<open>What \<^verbatim>\<open>loop()\<close> reads from outside in one pass: the level of \<^verbatim>\<open>PUSH_01\<close>
  (\<open>True\<close> is \<^verbatim>\<open>LOW\<close>, the button pressed) and the HTTP request waiting at the server,
  if there is one.\<close>

record tick_input =
  pressed :: bool
  request :: "http_request option"

subsection \<open>Constants\<close>

definition DUMMY_SSID :: string where "DUMMY_SSID = ''DummY''"
definition DUMMY_PASS :: string where "DUMMY_PASS = ''dummy001''"
definition MAX_RETRIES :: u8 where "MAX_RETRIES = 5"
definition CONNECT_TIMEOUT_MS :: u32 where "CONNECT_TIMEOUT_MS = 10000"
definition AP_PASS :: string where "AP_PASS = ''modulux-setup''"
definition AP_IDLE_TIMEOUT_MS :: u32 where "AP_IDLE_TIMEOUT_MS = 10601000"

subsection \<open>Library primitives\<close>

text \<open>\<^verbatim>\<open>millis()\<close> reads the clock; \<^verbatim>\<open>delay(ms)\<close> blocks for \<open>ms\<close> milliseconds. In the
  model the clock moves only while the program waits in \<^verbatim>\<open>delay\<close>.\<close>

definition millis :: "sys \<Rightarrow> u32" where
  "millis st = clock st"

definition log_event :: "event \<Rightarrow> sys \<Rightarrow> sys" where
  "log_event e st = st\<lparr>trace := trace st @ [e]\<rparr>"

definition delay :: "u32 \<Rightarrow> sys \<Rightarrow> sys" where
  "delay ms st = log_event (Delay ms) (st\<lparr>clock := clock st + ms\<rparr>)"

text \<open>\<^verbatim>\<open>WiFi.status() == WL_CONNECTED\<close>: the answer of the radio to the next poll is
  given by the environment, poll by poll.\<close>

definition WiFi_connected :: "sys \<Rightarrow> bool" where
  "WiFi_connected st = link st (polls st)"

definition WiFi_polled :: "sys \<Rightarrow> sys" where
  "WiFi_polled st = st\<lparr>polls := Suc (polls st)\<rparr>"

definition WiFi_disconnect :: "sys \<Rightarrow> sys" where
  "WiFi_disconnect st = log_event WifiDisconnect st"

definition WiFi_mode :: "wifi_mode \<Rightarrow> sys \<Rightarrow> sys" where
  "WiFi_mode m st = log_event (WifiMode m) (st\<lparr>wifiMode := m\<rparr>)"

definition WiFi_begin :: "string \<Rightarrow> string \<Rightarrow> sys \<Rightarrow> sys" where
  "WiFi_begin ssid pass st = log_event (WifiBegin ssid pass) st"

subsection \<open>Connection attempts\<close>

text \<open>The polling loop shared by both connect functions:
  \<^verbatim>\<open>while (millis() - start < timeoutMs) { if (WiFi.status() == WL_CONNECTED) return true; delay(100); }\<close>.
  The result is \<open>None\<close> when the loop never ends.\<close>

partial_function (option) poll_status :: "u32 \<Rightarrow> u32 \<Rightarrow> sys \<Rightarrow> (bool \<times> sys) option" where
  "poll_status start timeoutMs st =
     (if millis st - start < timeoutMs then
        (if WiFi_connected st then Some (True, WiFi_polled st)
         else poll_status start timeoutMs (delay 100 (WiFi_polled st)))
      else Some (False, st))"

definition backoff_ms :: "u8 \<Rightarrow> u32" where
  "backoff_ms attempt =
     (let backoff = push_bit (unat (min attempt 3)) (1000 :: u32)
      in if backoff > 8000 then 8000 else backoff)"

function station_loop ::
  "string \<Rightarrow> string \<Rightarrow> u8 \<Rightarrow> u32 \<Rightarrow> u8 \<Rightarrow> sys \<Rightarrow> (bool \<times> sys) option" where
  "station_loop ssid pass maxRetries timeoutMs attempt st =
     (if attempt < maxRetries then
        (let st1 = WiFi_disconnect st;
             st2 = delay 50 st1;
             st3 = WiFi_mode WIFI_STA st2;
             st4 = WiFi_begin ssid pass st3
         in case poll_status (millis st4) timeoutMs st4 of
              None \<Rightarrow> None
            | Some (True, st5) \<Rightarrow> Some (True, st5)
            | Some (False, st5) \<Rightarrow>
                station_loop ssid pass maxRetries timeoutMs (attempt + 1)
                  (delay (backoff_ms attempt) st5))
      else Some (False, st))"
  by pat_completeness auto
termination
proof -
  have suc: "unat (attempt + 1) = Suc (unat attempt)"
    if "attempt < maxRetries" for attempt maxRetries :: u8
  proof -
    have "attempt + 1 \<noteq> 0"
    proof
      assume "attempt + 1 = 0"
      then have "attempt = - 1" by (simp add: eq_neg_iff_add_eq_0)
      with that show False by simp
    qed
    then show ?thesis using unatSuc [of attempt] by (simp add: add.commute)
  qed
  show ?thesis
    by (relation "measure (\<lambda>(ssid, pass, maxRetries, timeoutMs, attempt, st).
          unat maxRetries - unat attempt)")
       (auto simp: suc word_less_nat_alt)
qed

definition tryConnectStation ::
  "string \<Rightarrow> string \<Rightarrow> u8 \<Rightarrow> u32 \<Rightarrow> sys \<Rightarrow> (bool \<times> sys) option" where
  "tryConnectStation ssid pass maxRetries timeoutMs st =
     station_loop ssid pass maxRetries timeoutMs 0 st"

definition tryConnectWhileAp ::
  "string \<Rightarrow> string \<Rightarrow> u8 \<Rightarrow> u32 \<Rightarrow> sys \<Rightarrow> (bool \<times> sys) option" where
  "tryConnectWhileAp ssid pass maxRetries timeoutMs st =
     (let st1 = WiFi_mode WIFI_AP_STA st;
          st2 = WiFi_begin ssid pass st1
      in poll_status (millis st2) timeoutMs st2)"

subsection \<open>Credential store\<close>

definition getUChar :: "string \<Rightarrow> u8 \<Rightarrow> sys \<Rightarrow> u8" where
  "getUChar key dflt st = (case prefs st key of Some (UChar v) \<Rightarrow> v | _ \<Rightarrow> dflt)"

definition getString :: "string \<Rightarrow> string \<Rightarrow> sys \<Rightarrow> string" where
  "getString key dflt st = (case prefs st key of Some (Str v) \<Rightarrow> v | _ \<Rightarrow> dflt)"

definition putString :: "string \<Rightarrow> string \<Rightarrow> sys \<Rightarrow> sys" where
  "putString key v st = log_event (PutString key v) (st\<lparr>prefs := (prefs st)(key \<mapsto> Str v)\<rparr>)"

definition putUChar :: "string \<Rightarrow> u8 \<Rightarrow> sys \<Rightarrow> sys" where
  "putUChar key v st = log_event (PutUChar key v) (st\<lparr>prefs := (prefs st)(key \<mapsto> UChar v)\<rparr>)"

definition prefs_clear :: "sys \<Rightarrow> sys" where
  "prefs_clear st = log_event PrefsClear (st\<lparr>prefs := Map.empty\<rparr>)"

definition loadCredentialsFromNVS :: "sys \<Rightarrow> sys" where
  "loadCredentialsFromNVS st =
     (let provisioned = (getUChar ''prov'' 0 st \<noteq> 0)
      in if provisioned then
           st\<lparr>currentSsid := getString ''ssid'' [] st, currentPass := getString ''pass'' [] st\<rparr>
         else st\<lparr>currentSsid := DUMMY_SSID, currentPass := DUMMY_PASS\<rparr>)"

definition saveCredentialsToNVS :: "string \<Rightarrow> string \<Rightarrow> sys \<Rightarrow> sys" where
  "saveCredentialsToNVS ssid pass st =
     putUChar ''prov'' 1 (putString ''pass'' pass (putString ''ssid'' ssid st))"

subsection \<open>LED patterns\<close>

definition showConnected :: "sys \<Rightarrow> sys" where
  "showConnected st = st\<lparr>led01 := True, led02 := False\<rparr>"

definition showConnectingPattern :: "sys \<Rightarrow> sys" where
  "showConnectingPattern st =
     (let now = millis st
      in if now - connectBlinkLastMs st \<ge> 200 then
           st\<lparr>connectBlinkLastMs := now, connectLedState := \<not> connectLedState st,
              led01 := \<not> connectLedState st, led02 := False\<rparr>
         else st)"

definition showSetupPattern :: "sys \<Rightarrow> sys" where
  "showSetupPattern st =
     (let now = millis st
      in case setupPhase st of
           BLINK1_ON \<Rightarrow>
             (let st1 = st\<lparr>led01 := True, led02 := False\<rparr>
              in if now - setupPhaseStartMs st1 \<ge> 200 then
                   st1\<lparr>setupPhase := BLINK1_OFF, setupPhaseStartMs := now, led01 := False\<rparr>
                 else st1)
         | BLINK1_OFF \<Rightarrow>
             (if now - setupPhaseStartMs st \<ge> 200 then
                st\<lparr>setupPhase := BLINK2_ON, setupPhaseStartMs := now, led01 := True, led02 := True\<rparr>
              else st)
         | BLINK2_ON \<Rightarrow>
             (if now - setupPhaseStartMs st \<ge> 200 then
                st\<lparr>setupPhase := BLINK2_OFF, setupPhaseStartMs := now, led01 := False, led02 := False\<rparr>
              else st)
         | BLINK2_OFF \<Rightarrow>
             (if now - setupPhaseStartMs st \<ge> 200 then
                st\<lparr>setupPhase := PAUSE, setupPhaseStartMs := now\<rparr>
              else st)
         | PAUSE \<Rightarrow>
             (if now - setupPhaseStartMs st \<ge> 1200 then
                st\<lparr>setupPhase := BLINK1_ON, setupPhaseStartMs := now\<rparr>
              else st)
         | IDLE \<Rightarrow> st\<lparr>setupPhase := PAUSE, setupPhaseStartMs := now\<rparr>)"

subsection \<open>Captive setup service\<close>

definition to_upper :: "char \<Rightarrow> char" where
  "to_upper c =
     (if of_char c \<ge> (97 :: nat) \<and> of_char c \<le> (122 :: nat)
      then char_of (of_char c - (32 :: nat)) else c)"

definition last4MacHex :: "sys \<Rightarrow> string" where
  "last4MacHex st =
     (let mac = map to_upper (filter (\<lambda>c. c \<noteq> CHR '':'') (macAddress st))
      in if length mac \<ge> 4 then drop (length mac - 4) mac else mac)"

definition startCaptiveAP :: "sys \<Rightarrow> sys" where
  "startCaptiveAP st =
     (let apSsid = ''ModuLux-Setup-'' @ last4MacHex st;
          st1 = WiFi_mode WIFI_AP st;
          st2 = log_event (SoftAP apSsid AP_PASS) st1;
          st3 = log_event DnsStart (st2\<lparr>dnsRunning := True\<rparr>);
          st4 = log_event ServerBegin (st3\<lparr>serverRunning := True\<rparr>);
          st5 = st4\<lparr>lastHttpActivityMs := millis st4\<rparr>;
          st6 = st5\<lparr>setupPhase := BLINK1_ON\<rparr>;
          st7 = st6\<lparr>setupPhaseStartMs := millis st6\<rparr>
      in st7\<lparr>runState := AP_SETUP\<rparr>)"

definition stopCaptiveAP :: "sys \<Rightarrow> sys" where
  "stopCaptiveAP st =
     (let st1 = log_event ServerStop (st\<lparr>serverRunning := False\<rparr>)
      in log_event DnsStop (st1\<lparr>dnsRunning := False\<rparr>))"

definition server_send :: "nat \<Rightarrow> string \<Rightarrow> payload \<Rightarrow> sys \<Rightarrow> sys" where
  "server_send code ctype body st = log_event (ServerSend code ctype body) st"

definition server_arg :: "http_request \<Rightarrow> string \<Rightarrow> string" where
  "server_arg req name = (case map_of (args req) name of Some v \<Rightarrow> v | None \<Rightarrow> [])"

definition handleRoot :: "sys \<Rightarrow> sys" where
  "handleRoot st =
     (let st1 = server_send 200 ''text/html'' IndexPage st
      in st1\<lparr>lastHttpActivityMs := millis st1\<rparr>)"

text \<open>\<^verbatim>\<open>String(int)\<close>: the decimal digits of an integer.\<close>

fun dec_nat :: "nat \<Rightarrow> string" where
  "dec_nat n =
     (if n < 10 then [char_of (48 + n)] else dec_nat (n div 10) @ [char_of (48 + n mod 10)])"

definition dec_int :: "int \<Rightarrow> string" where
  "dec_int i = (if i < 0 then CHR ''-'' # dec_nat (nat (- i)) else dec_nat (nat i))"

definition quoted :: "string \<Rightarrow> string" where
  "quoted s = [CHR 0x22] @ s @ [CHR 0x22]"

fun scan_json :: "(string \<times> int \<times> bool) list \<Rightarrow> string" where
  "scan_json [] = []"
| "scan_json ((ssid, rssi, is_open) # rest) =
     ''{'' @ quoted ''ssid'' @ '':'' @ quoted ssid @ '',''
     @ quoted ''rssi'' @ '':'' @ dec_int rssi @ '',''
     @ quoted ''enc'' @ '':'' @ quoted (if is_open then ''OPEN'' else ''WPA2'')
     @ ''}'' @ (if rest \<noteq> [] then '','' else []) @ scan_json rest"

definition handleScan :: "sys \<Rightarrow> sys" where
  "handleScan st =
     (let json = ''['' @ scan_json (scanResults st) @ '']'';
          st1 = server_send 200 ''application/json'' (Text json) st
      in st1\<lparr>lastHttpActivityMs := millis st1\<rparr>)"

definition handleStatus :: "sys \<Rightarrow> sys" where
  "handleStatus st =
     (let s = ''{'' @
            (if runState st = AP_SETUP then quoted ''state'' @ '':'' @ quoted ''AP_ACTIVE''
             else if runState st = CONNECTING then quoted ''state'' @ '':'' @ quoted ''CONNECTING''
             else quoted ''state'' @ '':'' @ quoted ''CONNECTED''
                  @ '','' @ quoted ''ip'' @ '':'' @ quoted (localIP st))
            @ ''}'';
          st1 = server_send 200 ''application/json'' (Text s) st
      in st1\<lparr>lastHttpActivityMs := millis st1\<rparr>)"

definition handleSave :: "http_request \<Rightarrow> sys \<Rightarrow> sys option" where
  "handleSave req st =
     (let ssid = server_arg req ''ssid'';
          pass = server_arg req ''pass''
      in if length ssid = 0 \<or> length pass < 8 then
           (let st1 = server_send 400 ''text/plain''
                        (Text ''Invalid SSID or password (min 8 chars)'') st
            in Some (st1\<lparr>lastHttpActivityMs := millis st1\<rparr>))
         else
           (let st1 = saveCredentialsToNVS ssid pass st;
                st2 = st1\<lparr>currentSsid := ssid\<rparr>;
                st3 = st2\<lparr>currentPass := pass\<rparr>
            in case tryConnectWhileAp ssid pass MAX_RETRIES CONNECT_TIMEOUT_MS st3 of
                 None \<Rightarrow> None
               | Some (True, st4) \<Rightarrow>
                   (let ip = localIP st4;
                        st5 = server_send 200 ''text/html''
                                (Text (''Connected to '' @ ssid @ '' IP: '' @ ip @ [CHR 0x0A])) st4;
                        st6 = st5\<lparr>lastHttpActivityMs := millis st5\<rparr>;
                        st7 = st6\<lparr>apShutdownAt := millis st6 + 40000\<rparr>;
                        st8 = st7\<lparr>runState := CONNECTED\<rparr>
                    in Some (showConnected st8))
               | Some (False, st4) \<Rightarrow>
                   (let st5 = server_send 500 ''text/plain''
                                (Text ''Failed to connect, please check credentials and try again.'') st4;
                        st6 = st5\<lparr>lastHttpActivityMs := millis st5\<rparr>
                    in Some (st6\<lparr>runState := AP_SETUP\<rparr>))))"

text \<open>The handlers registered with \<^verbatim>\<open>server.on\<close> in \<^verbatim>\<open>startCaptiveAP\<close>, and the
  \<^verbatim>\<open>onNotFound\<close> handler for every other request.\<close>

definition serve_page :: "sys \<Rightarrow> sys" where
  "serve_page st =
     (let st1 = server_send 200 ''text/html'' IndexPage st
      in st1\<lparr>lastHttpActivityMs := millis st1\<rparr>)"

definition serve_ncsi :: "sys \<Rightarrow> sys" where
  "serve_ncsi st =
     (let st1 = server_send 200 ''text/plain'' (Text ''Microsoft NCSI'') st
      in st1\<lparr>lastHttpActivityMs := millis st1\<rparr>)"

definition dispatch :: "http_request \<Rightarrow> sys \<Rightarrow> sys option" where
  "dispatch req st =
     (if path req = ''/'' \<and> meth req = HTTP_GET then Some (handleRoot st)
      else if path req = ''/scan'' \<and> meth req = HTTP_GET then Some (handleScan st)
      else if path req = ''/save'' \<and> meth req = HTTP_POST then handleSave req st
      else if path req = ''/status'' \<and> meth req = HTTP_GET then Some (handleStatus st)
      else if path req = ''/generate_204'' \<and> meth req = HTTP_GET then Some (serve_page st)
      else if path req = ''/hotspot-detect.html'' \<and> meth req = HTTP_GET then Some (serve_page st)
      else if path req = ''/ncsi.txt'' \<and> meth req = HTTP_GET then Some (serve_ncsi st)
      else Some (serve_page st))"

text \<open>\<^verbatim>\<open>server.handleClient()\<close>: a running server passes the waiting request, if any,
  to its handler.\<close>

definition handleClient :: "http_request option \<Rightarrow> sys \<Rightarrow> sys option" where
  "handleClient r st =
     (case r of
        None \<Rightarrow> Some st
      | Some req \<Rightarrow> if serverRunning st then dispatch req st else Some st)"

subsection \<open>Factory reset\<close>

definition ESP_restart :: "sys \<Rightarrow> sys" where
  "ESP_restart st = log_event Restart (st\<lparr>restarted := True\<rparr>)"

fun rapid_blink :: "nat \<Rightarrow> sys \<Rightarrow> sys" where
  "rapid_blink 0 st = st"
| "rapid_blink (Suc n) st =
     rapid_blink n (delay 100 ((delay 100 (st\<lparr>led01 := True\<rparr>))\<lparr>led01 := False\<rparr>))"

definition performFactoryReset :: "sys \<Rightarrow> sys" where
  "performFactoryReset st =
     (let st1 = prefs_clear st;
          st2 = putUChar ''prov'' 0 st1;
          st3 = rapid_blink 8 st2;
          st4 = delay 200 st3
      in ESP_restart st4)"

definition factoryResetCheck :: "bool \<Rightarrow> sys \<Rightarrow> sys" where
  "factoryResetCheck v_low st =
     (if v_low then
        (if \<not> factoryBtnHeld st then
           (let st1 = st\<lparr>factoryBtnHeld := True\<rparr>
            in st1\<lparr>factoryBtnPressStartMs := millis st1\<rparr>)
         else if millis st - factoryBtnPressStartMs st \<ge> 10000 then performFactoryReset st
         else st)
      else st\<lparr>factoryBtnHeld := False\<rparr>)"

subsection \<open>Entry points\<close>

text \<open>The state of the program when \<^verbatim>\<open>setup()\<close> is entered after power-on or after
  \<^verbatim>\<open>ESP.restart()\<close>: every global has its initialiser, the clock starts again, the
  servers are down; the key-value store, the environment and the log carry over.\<close>

definition boot :: "sys \<Rightarrow> sys" where
  "boot e =
     e\<lparr>runState := CONNECTING, currentSsid := [], currentPass := [],
       lastHttpActivityMs := 0, factoryBtnPressStartMs := 0, factoryBtnHeld := False,
       connectBlinkLastMs := 0, connectLedState := False,
       setupPhase := PAUSE, setupPhaseStartMs := 0, apShutdownAt := 0,
       clock := 0, led01 := False, led02 := False, wifiMode := WIFI_OFF,
       serverRunning := False, dnsRunning := False, restarted := False\<rparr>"

definition setup_main :: "sys \<Rightarrow> sys option" where
  "setup_main st0 =
     (let st1 = delay 10 st0;
          st2 = st1\<lparr>led01 := False\<rparr>;
          st3 = st2\<lparr>led02 := False\<rparr>;
          st4 = loadCredentialsFromNVS st3;
          st5 = st4\<lparr>runState := CONNECTING\<rparr>;
          st6 = showConnectingPattern st5
      in case tryConnectStation (currentSsid st6) (currentPass st6) MAX_RETRIES CONNECT_TIMEOUT_MS st6 of
           None \<Rightarrow> None
         | Some (True, st7) \<Rightarrow> Some (showConnected (st7\<lparr>runState := CONNECTED\<rparr>))
         | Some (False, st7) \<Rightarrow> Some ((startCaptiveAP st7)\<lparr>runState := AP_SETUP\<rparr>))"

text \<open>The three parts of \<^verbatim>\<open>loop()\<close> before \<^verbatim>\<open>factoryResetCheck()\<close>, in the order of
  the source: the LED update, the service of the access point with its idle retry, and
  the scheduled shutdown.\<close>

definition loop_leds :: "sys \<Rightarrow> sys" where
  "loop_leds st =
     (if runState st = AP_SETUP then showSetupPattern st
      else if runState st = CONNECTING then showConnectingPattern st
      else if runState st = CONNECTED then showConnected st
      else st)"

definition idle_retry :: "sys \<Rightarrow> sys option" where
  "idle_retry st =
     (if millis st - lastHttpActivityMs st > AP_IDLE_TIMEOUT_MS then
        (let st1 = st\<lparr>lastHttpActivityMs := millis st\<rparr>
         in case tryConnectWhileAp (currentSsid st1) (currentPass st1) 1 CONNECT_TIMEOUT_MS st1 of
              None \<Rightarrow> None
            | Some (True, st2) \<Rightarrow>
                (let st3 = showConnected (st2\<lparr>runState := CONNECTED\<rparr>)
                 in Some (st3\<lparr>apShutdownAt := millis st3 + 40000\<rparr>))
            | Some (False, st2) \<Rightarrow> Some st2)
      else Some st)"

definition loop_ap :: "http_request option \<Rightarrow> sys \<Rightarrow> sys option" where
  "loop_ap r st =
     (if runState st = AP_SETUP then
        (case handleClient r st of
           None \<Rightarrow> None
         | Some st1 \<Rightarrow> idle_retry st1)
      else Some st)"

definition loop_shutdown :: "sys \<Rightarrow> sys" where
  "loop_shutdown st =
     (if runState st = CONNECTED \<and> apShutdownAt st \<noteq> 0 \<and> millis st \<ge> apShutdownAt st then
        (stopCaptiveAP st)\<lparr>apShutdownAt := 0\<rparr>
      else st)"

definition loop :: "tick_input \<Rightarrow> sys \<Rightarrow> sys option" where
  "loop inp st =
     (case loop_ap (request inp) (loop_leds st) of
        None \<Rightarrow> None
      | Some st1 \<Rightarrow>
          (let st2 = loop_shutdown st1;
               st3 = factoryResetCheck (pressed inp) st2
           in Some (if restarted st3 then st3 else delay 20 st3)))"

definition polled :: "nat \<Rightarrow> sys \<Rightarrow> sys" where
  "polled k st =
     st\<lparr>clock := clock st + 100 * of_nat k, polls := polls st + k,
        trace := trace st @ replicate k (Delay 100)\<rparr>"

subsection \<open>Observations on the log\<close>

fun is_begin :: "event \<Rightarrow> bool" where
  "is_begin (WifiBegin ssid pass) = True"
| "is_begin e = False"

fun wait_ms :: "event \<Rightarrow> nat" where
  "wait_ms (Delay ms) = unat ms"
| "wait_ms e = 0"

fun is_backoff :: "event \<Rightarrow> bool" where
  "is_backoff (Delay ms) = (1000 \<le> ms)"
| "is_backoff e = False"

definition attempts :: "event list \<Rightarrow> nat" where
  "attempts tr = length (filter is_begin tr)"

definition backoffs :: "event list \<Rightarrow> event list" where
  "backoffs tr = filter is_backoff tr"

definition blocking_ms :: "event list \<Rightarrow> nat" where
  "blocking_ms tr = sum_list (map wait_ms tr)"

definition attempt_events :: "string \<Rightarrow> string \<Rightarrow> event list" where
  "attempt_events ssid pass =
     [WifiDisconnect, Delay 50, WifiMode WIFI_STA, WifiBegin ssid pass] @ replicate 100 (Delay 100)"

definition timed_out_attempt :: "string \<Rightarrow> string \<Rightarrow> sys \<Rightarrow> sys" where
  "timed_out_attempt ssid pass st =
     st\<lparr>clock := clock st + 10050, wifiMode := WIFI_STA, polls := polls st + 100,
        trace := trace st @ attempt_events ssid pass\<rparr>"

definition five_attempts :: "string \<Rightarrow> string \<Rightarrow> event list" where
  "five_attempts ssid pass =
     attempt_events ssid pass @ [Delay 1000] @
     attempt_events ssid pass @ [Delay 2000] @
     attempt_events ssid pass @ [Delay 4000] @
     attempt_events ssid pass @ [Delay 8000] @
     attempt_events ssid pass"

definition run_log :: "(bool \<times> sys) option \<Rightarrow> event list" where
  "run_log r = (case r of None \<Rightarrow> [] | Some (ok, st) \<Rightarrow> trace st)"

definition fresh :: sys where
  "fresh =
     \<lparr>runState = CONNECTING, currentSsid = [], currentPass = [],
      lastHttpActivityMs = 0, factoryBtnPressStartMs = 0, factoryBtnHeld = False,
      connectBlinkLastMs = 0, connectLedState = False,
      setupPhase = PAUSE, setupPhaseStartMs = 0, apShutdownAt = 0,
      clock = 0, prefs = Map.empty, led01 = False, led02 = False, wifiMode = WIFI_OFF,
      serverRunning = False, dnsRunning = False, restarted = False,
      link = (\<lambda>n. 500 \<le> n), polls = 0, localIP = ''192.168.1.23'',
      macAddress = ''24:6f:28:ab:cd:ef'', scanResults = [], trace = []\<rparr>"

definition coexist_attempt :: "string \<Rightarrow> string \<Rightarrow> nat \<Rightarrow> bool \<Rightarrow> sys \<Rightarrow> sys" where
  "coexist_attempt ssid pass k b st =
     st\<lparr>wifiMode := WIFI_AP_STA, clock := clock st + 100 * of_nat k,
        polls := polls st + k + (if b then 1 else 0),
        trace := trace st @ [WifiMode WIFI_AP_STA, WifiBegin ssid pass] @ replicate k (Delay 100)\<rparr>"

definition persisted :: "string \<Rightarrow> string \<Rightarrow> sys \<Rightarrow> sys" where
  "persisted ssid pass st =
     (saveCredentialsToNVS ssid pass st)\<lparr>currentSsid := ssid, currentPass := pass\<rparr>"

definition valid_save :: "http_request \<Rightarrow> bool" where
  "valid_save req = (length (server_arg req ''ssid'') \<noteq> 0 \<and> 8 \<le> length (server_arg req ''pass''))"

definition reply_connected :: "string \<Rightarrow> string \<Rightarrow> event" where
  "reply_connected ssid ip =
     ServerSend 200 ''text/html'' (Text (''Connected to '' @ ssid @ '' IP: '' @ ip @ [CHR 0x0A]))"

definition reply_failed :: event where
  "reply_failed =
     ServerSend 500 ''text/plain''
       (Text ''Failed to connect, please check credentials and try again.'')"

definition reply_invalid :: event where
  "reply_invalid = ServerSend 400 ''text/plain'' (Text ''Invalid SSID or password (min 8 chars)'')"

fun begin_args :: "event \<Rightarrow> (string \<times> string) list" where
  "begin_args (WifiBegin ssid pass) = [(ssid, pass)]"
| "begin_args e = []"

definition begun :: "event list \<Rightarrow> (string \<times> string) list" where
  "begun tr = concat (map begin_args tr)"

definition setup_loaded :: "sys \<Rightarrow> sys" where
  "setup_loaded st0 =
     showConnectingPattern
       ((loadCredentialsFromNVS ((delay 10 st0)\<lparr>led01 := False, led02 := False\<rparr>))
          \<lparr>runState := CONNECTING\<rparr>)"

definition provisioned :: sys where
  "provisioned =
     fresh\<lparr>prefs := [''prov'' \<mapsto> UChar 1, ''ssid'' \<mapsto> Str ''home'', ''pass'' \<mapsto> Str ''secret123'']\<rparr>"

definition good_save :: http_request where
  "good_save = \<lparr>meth = HTTP_POST, path = ''/save'',
                 args = [(''ssid'', ''home''), (''pass'', ''secret123'')]\<rparr>"

definition short_save :: http_request where
  "short_save = \<lparr>meth = HTTP_POST, path = ''/save'',
                  args = [(''ssid'', ''home''), (''pass'', ''secret1'')]\<rparr>"



definition loop_rest :: "bool \<Rightarrow> sys \<Rightarrow> sys" where
  "loop_rest v_low st1 =
     (let st2 = loop_shutdown st1;
          st3 = factoryResetCheck v_low st2
      in if restarted st3 then st3 else delay 20 st3)"

definition idle_elapsed :: "sys \<Rightarrow> bool" where
  "idle_elapsed st = (millis st - lastHttpActivityMs st > AP_IDLE_TIMEOUT_MS)"

definition consistent :: "sys \<Rightarrow> bool" where
  "consistent st =
     ((apShutdownAt st \<noteq> 0 \<longrightarrow> runState st = CONNECTED) \<and>
      (led02 st \<longrightarrow> setupPhase st = BLINK2_ON \<and> runState st = AP_SETUP))"

inductive reachable :: "sys \<Rightarrow> bool" where
  start: "setup_main (boot e) = Some s \<Longrightarrow> reachable s"
| tick: "reachable s \<Longrightarrow> \<not> restarted s \<Longrightarrow> loop inp s = Some s' \<Longrightarrow> reachable s'"
| elapse: "reachable s \<Longrightarrow> reachable (s\<lparr>clock := clock s + d\<rparr>)"

definition portal :: sys where
  "portal = the (setup_main (boot fresh))"

definition idle_tick :: tick_input where
  "idle_tick = \<lparr>pressed = False, request = None\<rparr>"

definition save_tick :: tick_input where
  "save_tick = \<lparr>pressed = False, request = Some good_save\<rparr>"

definition lingering :: sys where
  "lingering = the (loop save_tick portal)"

definition expired :: sys where
  "expired = lingering\<lparr>clock := clock lingering + 40000\<rparr>"

definition last_logged :: "sys option \<Rightarrow> event option" where
  "last_logged r = (case r of None \<Rightarrow> None | Some st \<Rightarrow> Some (last (trace st)))"



definition late :: sys where
  "late = fresh\<lparr>link := (\<lambda>n. 100 \<le> n)\<rparr>"



definition idle_portal :: sys where
  "idle_portal = portal\<lparr>clock := 10674261, link := (\<lambda>n. False)\<rparr>"

text \<open>The cycle of the setup pattern as the comment of \<^verbatim>\<open>showSetupPattern\<close> gives it: the
  time a phase lasts, and the phase that follows it.\<close>

fun phase_ms :: "SetupPhase \<Rightarrow> u32" where
  "phase_ms BLINK1_ON = 200"
| "phase_ms BLINK1_OFF = 200"
| "phase_ms BLINK2_ON = 200"
| "phase_ms BLINK2_OFF = 200"
| "phase_ms PAUSE = 1200"
| "phase_ms IDLE = 0"

fun next_phase :: "SetupPhase \<Rightarrow> SetupPhase" where
  "next_phase BLINK1_ON = BLINK1_OFF"
| "next_phase BLINK1_OFF = BLINK2_ON"
| "next_phase BLINK2_ON = BLINK2_OFF"
| "next_phase BLINK2_OFF = PAUSE"
| "next_phase PAUSE = BLINK1_ON"
| "next_phase IDLE = PAUSE"

definition first_blink :: sys where
  "first_blink = the (loop idle_tick (portal\<lparr>clock := clock portal + 200\<rparr>))"

definition second_blink :: sys where
  "second_blink = the (loop idle_tick (first_blink\<lparr>clock := clock first_blink + 200\<rparr>))"

text \<open>The button as \<^verbatim>\<open>loop()\<close> samples it: each pass calls \<^verbatim>\<open>factoryResetCheck()\<close> once. A
  sample is the time that has passed since the previous sample and the level read
  (\<open>True\<close> is \<^verbatim>\<open>LOW\<close>, pressed). Nothing is sampled after \<^verbatim>\<open>ESP.restart()\<close>.\<close>

fun button_samples :: "(u32 \<times> bool) list \<Rightarrow> sys \<Rightarrow> sys" where
  "button_samples [] st = st"
| "button_samples ((d, v_low) # xs) st =
     (if restarted st then st
      else button_samples xs (factoryResetCheck v_low (st\<lparr>clock := clock st + d\<rparr>)))"

definition held_ms :: "(u32 \<times> bool) list \<Rightarrow> nat" where
  "held_ms xs = sum_list (map (\<lambda>x. unat (fst x)) xs)"

text \<open>A device that never sees a network, its portal, and the portal two passes later, in
  \<^verbatim>\<open>BLINK2_ON\<close>; \<open>blocked\<close> is that state after one more pass, whose \<^verbatim>\<open>/save\<close> request
  times out.\<close>

definition offline :: sys where
  "offline = fresh\<lparr>link := (\<lambda>n. False)\<rparr>"

definition offline_portal :: sys where
  "offline_portal = the (setup_main (boot offline))"

definition offline_first :: sys where
  "offline_first = the (loop idle_tick (offline_portal\<lparr>clock := clock offline_portal + 200\<rparr>))"

definition offline_second :: sys where
  "offline_second = the (loop idle_tick (offline_first\<lparr>clock := clock offline_first + 200\<rparr>))"

definition blocked :: sys where
  "blocked = the (loop save_tick offline_second)"

text \<open>Passes of \<^verbatim>\<open>loop()\<close> one after another. An entry gives the time that passes before the
  pass begins and what the pass reads. Nothing runs after \<^verbatim>\<open>ESP.restart()\<close>.\<close>

fun passes :: "(u32 \<times> tick_input) list \<Rightarrow> sys \<Rightarrow> sys option" where
  "passes [] st = Some st"
| "passes ((d, inp) # xs) st =
     (if restarted st then Some st
      else case loop inp (st\<lparr>clock := clock st + d\<rparr>) of
             None \<Rightarrow> None
           | Some st' \<Rightarrow> passes xs st')"

text \<open>The time from now to the beginning of the last pass of a schedule, when every pass
  takes the 20 ms of its closing \<^verbatim>\<open>delay(20)\<close>.\<close>

definition last_begin_ms :: "(u32 \<times> tick_input) list \<Rightarrow> nat" where
  "last_begin_ms xs = sum_list (map (\<lambda>x. unat (fst x) + 20) xs) - 20"

text \<open>While the portal is up or a shutdown is scheduled, both servers are started.\<close>

definition serving :: "sys \<Rightarrow> bool" where
  "serving st =
     (runState st = AP_SETUP \<or> apShutdownAt st \<noteq> 0 \<longrightarrow> serverRunning st \<and> dnsRunning st)"

definition status_tick :: tick_input where
  "status_tick =
     \<lparr>pressed = False, request = Some \<lparr>meth = HTTP_GET, path = ''/status'', args = []\<rparr>\<rparr>"

declare station_loop.simps [simp del]

declare dec_nat.simps [simp del]

lemma polled_0: "polled 0 st = st"
  by (simp add: polled_def)

lemma polled_Suc: "polled k (delay 100 (WiFi_polled st)) = polled (Suc k) st"
  by (simp add: polled_def delay_def WiFi_polled_def log_event_def algebra_simps
      replicate_append_same)

lemma poll_status_result_aux:
  assumes "poll_status start timeoutMs st = Some y"
  shows "\<exists>k. (\<forall>j<k. \<not> link st (polls st + j)) \<and>
             (fst y \<longrightarrow> link st (polls st + k) \<and> snd y = WiFi_polled (polled k st)) \<and>
             (\<not> fst y \<longrightarrow> snd y = polled k st)"
proof (rule poll_status.raw_induct [OF _ assms], goal_cases)
  case (1 f start timeoutMs st y)
  show ?case
  proof (cases "millis st - start < timeoutMs")
    case False
    with 1(2) have "y = (False, st)" by auto
    then show ?thesis by (auto intro!: exI [of _ 0] simp: polled_0)
  next
    case True
    show ?thesis
    proof (cases "WiFi_connected st")
      case c: True
      with True 1(2) have "y = (True, WiFi_polled st)" by auto
      with c show ?thesis
        by (auto intro!: exI [of _ 0] simp: polled_0 WiFi_connected_def)
    next
      case c: False
      with True 1(2)
      have rec: "f start timeoutMs (delay 100 (WiFi_polled st)) = Some y" by simp
      have env: "link (delay 100 (WiFi_polled st)) = link st"
        "polls (delay 100 (WiFi_polled st)) = Suc (polls st)"
        by (simp_all add: delay_def WiFi_polled_def log_event_def)
      from 1(1) [OF rec] obtain k where
        k: "\<forall>j<k. \<not> link st (Suc (polls st + j))"
           "fst y \<longrightarrow> link st (Suc (polls st + k)) \<and> snd y = WiFi_polled (polled (Suc k) st)"
           "\<not> fst y \<longrightarrow> snd y = polled (Suc k) st"
        unfolding env polled_Suc by auto
      have "\<forall>j<Suc k. \<not> link st (polls st + j)"
      proof (intro allI impI)
        fix j assume "j < Suc k"
        then show "\<not> link st (polls st + j)"
          using c k(1) by (cases j) (auto simp: WiFi_connected_def)
      qed
      with k(2,3) show ?thesis
        by (intro exI [of _ "Suc k"]) auto
    qed
  qed
qed

lemma poll_status_result:
  assumes "poll_status start timeoutMs st = Some (b, st')"
  shows "\<exists>k. (\<forall>j<k. \<not> link st (polls st + j)) \<and>
             (b \<longrightarrow> link st (polls st + k) \<and> st' = WiFi_polled (polled k st)) \<and>
             (\<not> b \<longrightarrow> st' = polled k st)"
  using poll_status_result_aux [OF assms] by simp

lemma unat_of_nat_u32: "n < 4294967296 \<Longrightarrow> unat (of_nat n :: u32) = n"
  by (simp add: unat_of_nat)

lemma elapsed_lt:
  assumes "j < 100"
  shows "(100 * of_nat j :: u32) < 10000"
  using assms unat_of_nat_u32 [of "100 * j"] by (simp add: word_less_nat_alt)

lemma elapsed_step:
  "clock st - start = 100 * of_nat j \<Longrightarrow>
   clock (delay 100 (WiFi_polled st)) - start = 100 * of_nat (Suc j)"
  by (simp add: delay_def WiFi_polled_def log_event_def algebra_simps)

lemma poll_status_never:
  assumes "\<forall>n<100 - j. \<not> link st (polls st + n)" "clock st - start = 100 * of_nat j" "j \<le> 100"
  shows "poll_status start 10000 st = Some (False, polled (100 - j) st)"
  using assms
proof (induction "100 - j" arbitrary: j st)
  case 0
  then have "j = 100" by simp
  with 0 show ?case
    by (subst poll_status.simps) (simp add: millis_def polled_0)
next
  case (Suc n)
  then have j: "j < 100" by simp
  let ?st = "delay 100 (WiFi_polled st)"
  have env: "link ?st = link st" "polls ?st = Suc (polls st)"
    by (simp_all add: delay_def WiFi_polled_def log_event_def)
  have "poll_status start 10000 ?st = Some (False, polled (100 - Suc j) ?st)"
  proof (rule Suc(1))
    show "n = 100 - Suc j" using Suc(2) by simp
    show "\<forall>n<100 - Suc j. \<not> link ?st (polls ?st + n)"
    proof (intro allI impI)
      fix m assume "m < 100 - Suc j"
      then have "Suc m < 100 - j" by arith
      with Suc(3) have "\<not> link st (polls st + Suc m)" by blast
      then show "\<not> link ?st (polls ?st + m)" by (simp add: env)
    qed
    show "clock ?st - start = 100 * of_nat (Suc j)" by (rule elapsed_step) (rule Suc(4))
    show "Suc j \<le> 100" using j by simp
  qed
  moreover have "polled (100 - Suc j) ?st = polled (100 - j) st"
  proof -
    have "100 - j = Suc (100 - Suc j)" using j by arith
    then show ?thesis by (simp only: polled_Suc)
  qed
  moreover have "millis st - start < 10000"
    using elapsed_lt [OF j] Suc(4) by (simp add: millis_def)
  moreover have "\<not> WiFi_connected st"
    using Suc(3) j by (simp add: WiFi_connected_def) (metis add_0_right zero_less_diff)
  ultimately show ?case
    by (subst poll_status.simps) simp
qed

lemma poll_status_total_aux:
  assumes "clock st - start = 100 * of_nat j" "j \<le> 100"
  shows "\<exists>y. poll_status start 10000 st = Some y"
  using assms
proof (induction "100 - j" arbitrary: j st)
  case 0
  then have "j = 100" by simp
  with 0 have "poll_status start 10000 st = Some (False, st)"
    by (subst poll_status.simps) (simp add: millis_def)
  then show ?case by blast
next
  case (Suc n)
  then have j: "j < 100" by simp
  let ?st = "delay 100 (WiFi_polled st)"
  have "\<exists>y. poll_status start 10000 ?st = Some y"
  proof (rule Suc(1))
    show "n = 100 - Suc j" using Suc(2) by simp
    show "clock ?st - start = 100 * of_nat (Suc j)" by (rule elapsed_step) (rule Suc(3))
    show "Suc j \<le> 100" using j by simp
  qed
  then obtain y where y: "poll_status start 10000 ?st = Some y" by blast
  have "poll_status start 10000 st =
          (if WiFi_connected st then Some (True, WiFi_polled st) else Some y)"
    using elapsed_lt [OF j] Suc(3) y by (subst poll_status.simps) (simp add: millis_def)
  then show ?case by (cases "WiFi_connected st") auto
qed

lemma poll_status_total: "\<exists>y. poll_status (millis st) CONNECT_TIMEOUT_MS st = Some y"
  using poll_status_total_aux [of st "clock st" 0]
  by (simp add: millis_def CONNECT_TIMEOUT_MS_def)

lemma backoff_values:
  "backoff_ms 0 = 1000" "backoff_ms 1 = 2000" "backoff_ms 2 = 4000"
  "backoff_ms 3 = 8000" "backoff_ms 4 = 8000"
  by (simp_all add: backoff_ms_def)

lemma station_loop_timeout:
  assumes "\<forall>n<100. \<not> link st (polls st + n)" "attempt < maxRetries"
  shows "station_loop ssid pass maxRetries 10000 attempt st =
         station_loop ssid pass maxRetries 10000 (attempt + 1)
           (delay (backoff_ms attempt) (timed_out_attempt ssid pass st))"
proof -
  let ?st4 = "WiFi_begin ssid pass (WiFi_mode WIFI_STA (delay 50 (WiFi_disconnect st)))"
  have env: "link ?st4 = link st" "polls ?st4 = polls st"
    by (simp_all add: WiFi_begin_def WiFi_mode_def delay_def WiFi_disconnect_def log_event_def)
  have "poll_status (millis ?st4) 10000 ?st4 = Some (False, polled (100 - 0) ?st4)"
    by (rule poll_status_never) (use assms(1) in \<open>simp_all add: env millis_def\<close>)
  moreover have "polled 100 ?st4 = timed_out_attempt ssid pass st"
    by (simp add: polled_def timed_out_attempt_def attempt_events_def WiFi_begin_def WiFi_mode_def
        delay_def WiFi_disconnect_def log_event_def)
  ultimately show ?thesis
    using assms(2) by (subst station_loop.simps) (simp add: Let_def)
qed

lemma timed_out_env:
  "link (delay b (timed_out_attempt ssid pass st)) = link st"
  "polls (delay b (timed_out_attempt ssid pass st)) = polls st + 100"
  by (simp_all add: delay_def timed_out_attempt_def log_event_def)

lemma station_loop_done: "station_loop ssid pass 5 timeoutMs 5 st = Some (False, st)"
  by (subst station_loop.simps) simp

lemma station_five_timeouts:
  assumes "\<forall>n<500. \<not> link st (polls st + n)"
  shows "station_loop ssid pass 5 10000 0 st =
         Some (False,
           delay 8000 (timed_out_attempt ssid pass
          (delay 8000 (timed_out_attempt ssid pass
          (delay 4000 (timed_out_attempt ssid pass
          (delay 2000 (timed_out_attempt ssid pass
          (delay 1000 (timed_out_attempt ssid pass st))))))))))"
proof -
  have l: "\<not> link st (polls st + (k + n))" if "n < 100" "k \<le> 400" for k n
    using assms that by simp
  have "station_loop ssid pass 5 10000 0 st = station_loop ssid pass 5 10000 5
          (delay 8000 (timed_out_attempt ssid pass
          (delay 8000 (timed_out_attempt ssid pass
          (delay 4000 (timed_out_attempt ssid pass
          (delay 2000 (timed_out_attempt ssid pass
          (delay 1000 (timed_out_attempt ssid pass st))))))))))"
    apply (subst station_loop_timeout)
    using l [of _ 0] apply simp
     apply simp
    apply (subst station_loop_timeout)
    using l [of _ 100] apply (simp add: timed_out_env add.assoc)
     apply simp
    apply (subst station_loop_timeout)
    using l [of _ 200] apply (simp add: timed_out_env add.assoc)
     apply simp
    apply (subst station_loop_timeout)
    using l [of _ 300] apply (simp add: timed_out_env add.assoc)
     apply simp
    apply (subst station_loop_timeout)
    using l [of _ 400] apply (simp add: timed_out_env add.assoc)
     apply simp
    apply (simp add: backoff_values)
    done
  then show ?thesis by (simp add: station_loop_done)
qed

lemma attempt_events_obs:
  "attempts (attempt_events ssid pass) = 1"
  "backoffs (attempt_events ssid pass) = []"
  "blocking_ms (attempt_events ssid pass) = 10050"
  by (simp_all add: attempts_def backoffs_def blocking_ms_def attempt_events_def sum_list_replicate)

lemma obs_append:
  "attempts (xs @ ys) = attempts xs + attempts ys"
  "backoffs (xs @ ys) = backoffs xs @ backoffs ys"
  "blocking_ms (xs @ ys) = blocking_ms xs + blocking_ms ys"
  by (simp_all add: attempts_def backoffs_def blocking_ms_def)

lemma obs_delay:
  "attempts (Delay ms # xs) = attempts xs"
  "backoffs (Delay ms # xs) = (if 1000 \<le> ms then Delay ms # backoffs xs else backoffs xs)"
  "blocking_ms (Delay ms # xs) = unat ms + blocking_ms xs"
  "attempts [] = 0" "backoffs [] = []" "blocking_ms [] = 0"
  by (simp_all add: attempts_def backoffs_def blocking_ms_def)

lemma five_attempts_obs:
  "attempts (five_attempts ssid pass) = 5"
  "backoffs (five_attempts ssid pass) = [Delay 1000, Delay 2000, Delay 4000, Delay 8000]"
  "blocking_ms (five_attempts ssid pass) = 5 * 10050 + (1000 + 2000 + 4000 + 8000)"
  by (simp_all add: five_attempts_def obs_append obs_delay attempt_events_obs)

text \<open>
  Claim C1, as the code has it. When none of the 500 status polls of a call of
  \<^verbatim>\<open>tryConnectStation\<close> with \<^verbatim>\<open>maxRetries = 5\<close> and the 10 s timeout answers connected, the
  call returns \<open>False\<close> after exactly five attempts. Each attempt is a disconnect, a 50 ms
  wait, \<^verbatim>\<open>WiFi.begin\<close> and 100 polls 100 ms apart; the waits between consecutive attempts
  are 1 s, 2 s, 4 s and 8 s. Up to the time-out of the fifth attempt the call has blocked
  for 5 * 10.05 s + 15 s. What the call does after the fifth time-out is left open here,
  except that it starts no further attempt.
\<close>

theorem station_retry_schedule:
  assumes "\<forall>n<500. \<not> link st (polls st + n)"
  shows "\<exists>st' rest.
           tryConnectStation ssid pass 5 CONNECT_TIMEOUT_MS st = Some (False, st') \<and>
           trace st' = trace st @ five_attempts ssid pass @ rest \<and>
           attempts rest = 0 \<and>
           attempts (five_attempts ssid pass) = 5 \<and>
           backoffs (five_attempts ssid pass) = [Delay 1000, Delay 2000, Delay 4000, Delay 8000] \<and>
           blocking_ms (five_attempts ssid pass) = 5 * 10050 + (1000 + 2000 + 4000 + 8000)"
proof -
  let ?st' = "delay 8000 (timed_out_attempt ssid pass
          (delay 8000 (timed_out_attempt ssid pass
          (delay 4000 (timed_out_attempt ssid pass
          (delay 2000 (timed_out_attempt ssid pass
          (delay 1000 (timed_out_attempt ssid pass st)))))))))"
  have "tryConnectStation ssid pass 5 CONNECT_TIMEOUT_MS st = Some (False, ?st')"
    using station_five_timeouts [OF assms]
    by (simp add: tryConnectStation_def CONNECT_TIMEOUT_MS_def)
  moreover have "trace ?st' = trace st @ five_attempts ssid pass @ [Delay 8000]"
    by (simp add: delay_def timed_out_attempt_def log_event_def five_attempts_def)
  ultimately show ?thesis
    by (intro exI [of _ ?st'] exI [of _ "[Delay 8000]"]) (simp add: five_attempts_obs obs_delay)
qed

theorem station_retry_schedule_witness:
  "\<exists>st' rest.
      tryConnectStation ''home'' ''secret123'' 5 CONNECT_TIMEOUT_MS fresh = Some (False, st') \<and>
      trace st' = trace fresh @ five_attempts ''home'' ''secret123'' @ rest \<and>
      attempts rest = 0 \<and>
      attempts (five_attempts ''home'' ''secret123'') = 5 \<and>
      backoffs (five_attempts ''home'' ''secret123'') =
        [Delay 1000, Delay 2000, Delay 4000, Delay 8000] \<and>
      blocking_ms (five_attempts ''home'' ''secret123'') = 5 * 10050 + (1000 + 2000 + 4000 + 8000)"
proof -
  have h: "\<forall>n<500. \<not> link fresh (polls fresh + n)" by (simp add: fresh_def)
  from station_retry_schedule [OF h, of "''home''" "''secret123''"] show ?thesis .
qed

text \<open>
  On a device that sees no network, the log of the call holds five waits of a second or
  more, the last of them after the fifth attempt, and the call blocks for 73.25 s.
\<close>

theorem station_backoff_after_last_attempt:
  "map_option fst (tryConnectStation ''home'' ''secret123'' 5 CONNECT_TIMEOUT_MS fresh) = Some False \<and>
   attempts (run_log (tryConnectStation ''home'' ''secret123'' 5 CONNECT_TIMEOUT_MS fresh)) = 5 \<and>
   backoffs (run_log (tryConnectStation ''home'' ''secret123'' 5 CONNECT_TIMEOUT_MS fresh)) =
     [Delay 1000, Delay 2000, Delay 4000, Delay 8000, Delay 8000] \<and>
   last (run_log (tryConnectStation ''home'' ''secret123'' 5 CONNECT_TIMEOUT_MS fresh)) = Delay 8000 \<and>
   blocking_ms (run_log (tryConnectStation ''home'' ''secret123'' 5 CONNECT_TIMEOUT_MS fresh)) = 73250"
proof -
  have h: "\<forall>n<500. \<not> link fresh (polls fresh + n)" by (simp add: fresh_def)
  have t: "trace fresh = []" by (simp add: fresh_def)
  show ?thesis
    unfolding tryConnectStation_def CONNECT_TIMEOUT_MS_def station_five_timeouts [OF h]
    by (simp add: run_log_def delay_def timed_out_attempt_def log_event_def t
        obs_append obs_delay attempt_events_obs)
qed

lemma tryConnectWhileAp_result:
  "\<exists>b k. tryConnectWhileAp ssid pass maxRetries CONNECT_TIMEOUT_MS st =
            Some (b, coexist_attempt ssid pass k b st) \<and>
          (\<forall>j<k. \<not> link st (polls st + j)) \<and> (b \<longrightarrow> link st (polls st + k))"
proof -
  let ?st2 = "WiFi_begin ssid pass (WiFi_mode WIFI_AP_STA st)"
  have env: "link ?st2 = link st" "polls ?st2 = polls st"
    by (simp_all add: WiFi_begin_def WiFi_mode_def log_event_def)
  obtain b st' where r: "poll_status (millis ?st2) CONNECT_TIMEOUT_MS ?st2 = Some (b, st')"
    using poll_status_total [of ?st2] by auto
  from poll_status_result [OF r] obtain k where
    k: "\<forall>j<k. \<not> link st (polls st + j)"
       "b \<longrightarrow> link st (polls st + k) \<and> st' = WiFi_polled (polled k ?st2)"
       "\<not> b \<longrightarrow> st' = polled k ?st2"
    unfolding env by blast
  have "st' = coexist_attempt ssid pass k b st"
    using k(2,3)
    by (cases b)
       (simp_all add: coexist_attempt_def polled_def WiFi_polled_def WiFi_begin_def WiFi_mode_def
          log_event_def)
  with r have "tryConnectWhileAp ssid pass maxRetries CONNECT_TIMEOUT_MS st =
                 Some (b, coexist_attempt ssid pass k b st)"
    by (simp add: tryConnectWhileAp_def Let_def)
  with k(1,2) show ?thesis
    by (intro exI [of _ b] exI [of _ k]) simp
qed

lemma persisted_fields:
  "prefs (persisted ssid pass st) =
     (prefs st)(''ssid'' \<mapsto> Str ssid, ''pass'' \<mapsto> Str pass, ''prov'' \<mapsto> UChar 1)"
  "currentSsid (persisted ssid pass st) = ssid"
  "currentPass (persisted ssid pass st) = pass"
  "trace (persisted ssid pass st) =
     trace st @ [PutString ''ssid'' ssid, PutString ''pass'' pass, PutUChar ''prov'' 1]"
  by (simp_all add: persisted_def saveCredentialsToNVS_def putString_def putUChar_def log_event_def)

lemma handleSave_invalid:
  assumes "\<not> valid_save req"
  shows "handleSave req st =
         Some (st\<lparr>trace := trace st @ [reply_invalid], lastHttpActivityMs := clock st\<rparr>)"
  using assms
  by (auto simp: handleSave_def valid_save_def Let_def server_send_def log_event_def millis_def
      reply_invalid_def)

lemma handleSave_valid:
  assumes "valid_save req"
  shows "\<exists>b k.
    tryConnectWhileAp (server_arg req ''ssid'') (server_arg req ''pass'') MAX_RETRIES
        CONNECT_TIMEOUT_MS (persisted (server_arg req ''ssid'') (server_arg req ''pass'') st) =
      Some (b, coexist_attempt (server_arg req ''ssid'') (server_arg req ''pass'') k b
                 (persisted (server_arg req ''ssid'') (server_arg req ''pass'') st)) \<and>
    (\<forall>j<k. \<not> link st (polls st + j)) \<and> (b \<longrightarrow> link st (polls st + k)) \<and>
    handleSave req st =
      Some (let st4 = coexist_attempt (server_arg req ''ssid'') (server_arg req ''pass'') k b
                        (persisted (server_arg req ''ssid'') (server_arg req ''pass'') st)
            in if b then
                 st4\<lparr>trace := trace st4 @ [reply_connected (server_arg req ''ssid'') (localIP st)],
                     lastHttpActivityMs := clock st4, apShutdownAt := clock st4 + 40000,
                     runState := CONNECTED, led01 := True, led02 := False\<rparr>
               else
                 st4\<lparr>trace := trace st4 @ [reply_failed], lastHttpActivityMs := clock st4,
                     runState := AP_SETUP\<rparr>)"
proof -
  let ?ssid = "server_arg req ''ssid''" and ?pass = "server_arg req ''pass''"
  let ?st3 = "persisted ?ssid ?pass st"
  have env: "link ?st3 = link st" "polls ?st3 = polls st"
    by (simp_all add: persisted_def saveCredentialsToNVS_def putString_def putUChar_def log_event_def)
  from tryConnectWhileAp_result [of ?ssid ?pass MAX_RETRIES ?st3] obtain b k where
    r: "tryConnectWhileAp ?ssid ?pass MAX_RETRIES CONNECT_TIMEOUT_MS ?st3 =
          Some (b, coexist_attempt ?ssid ?pass k b ?st3)"
    and l: "\<forall>j<k. \<not> link st (polls st + j)" "b \<longrightarrow> link st (polls st + k)"
    unfolding env by blast
  have ip: "localIP (coexist_attempt ?ssid ?pass k b ?st3) = localIP st"
    by (simp add: coexist_attempt_def persisted_def saveCredentialsToNVS_def putString_def
        putUChar_def log_event_def)
  have "handleSave req st =
      Some (let st4 = coexist_attempt ?ssid ?pass k b ?st3
            in if b then
                 st4\<lparr>trace := trace st4 @ [reply_connected ?ssid (localIP st)],
                     lastHttpActivityMs := clock st4, apShutdownAt := clock st4 + 40000,
                     runState := CONNECTED, led01 := True, led02 := False\<rparr>
               else
                 st4\<lparr>trace := trace st4 @ [reply_failed], lastHttpActivityMs := clock st4,
                     runState := AP_SETUP\<rparr>)"
    using assms r [unfolded persisted_def] ip [unfolded persisted_def]
    by (cases b)
       (simp_all add: handleSave_def valid_save_def Let_def persisted_def server_send_def
          log_event_def millis_def showConnected_def reply_connected_def reply_failed_def)
  with r l show ?thesis
    by (intro exI [of _ b] exI [of _ k]) simp
qed

lemma begun_simps:
  "begun [] = []"
  "begun (xs @ ys) = begun xs @ begun ys"
  "begun (WifiBegin ssid pass # xs) = (ssid, pass) # begun xs"
  "begun (Delay ms # xs) = begun xs"
  "begun (WifiDisconnect # xs) = begun xs"
  "begun (WifiMode m # xs) = begun xs"
  "begun (replicate k (Delay ms)) = []"
  by (simp_all add: begun_def)

lemma station_loop_log:
  assumes "station_loop ssid pass maxRetries timeoutMs attempt st = Some (b, st')"
  shows "\<exists>c p tr w. st' = st\<lparr>clock := c, polls := p, trace := trace st @ tr, wifiMode := w\<rparr> \<and>
           set (begun tr) = (if attempt < maxRetries then {(ssid, pass)} else {})"
  using assms
proof (induction ssid pass maxRetries timeoutMs attempt st rule: station_loop.induct)
  case (1 ssid pass maxRetries timeoutMs attempt st)
  show ?case
  proof (cases "attempt < maxRetries")
    case False
    with 1(2) have "st' = st" by (subst (asm) station_loop.simps) simp
    then have "st' = st\<lparr>clock := clock st, polls := polls st, trace := trace st @ [],
                 wifiMode := wifiMode st\<rparr>" by simp
    with False show ?thesis by (metis begun_simps(1) empty_set)
  next
    case True
    let ?st4 = "WiFi_begin ssid pass (WiFi_mode WIFI_STA (delay 50 (WiFi_disconnect st)))"
    have st4: "?st4 = st\<lparr>clock := clock st + 50, wifiMode := WIFI_STA,
        trace := trace st @ [WifiDisconnect, Delay 50, WifiMode WIFI_STA, WifiBegin ssid pass]\<rparr>"
      by (simp add: WiFi_begin_def WiFi_mode_def delay_def WiFi_disconnect_def log_event_def)
    from 1(2) True obtain b5 st5 where
      p: "poll_status (millis ?st4) timeoutMs ?st4 = Some (b5, st5)"
      by (subst (asm) station_loop.simps) (auto simp: Let_def split: option.splits)
    from poll_status_result [OF p] obtain k where
      k: "b5 \<longrightarrow> st5 = WiFi_polled (polled k ?st4)" "\<not> b5 \<longrightarrow> st5 = polled k ?st4"
      by blast
    show ?thesis
    proof (cases b5)
      case b5: True
      with 1(2) True p have "st' = st5"
        by (subst (asm) station_loop.simps) (simp add: Let_def)
      with k b5 have "st' = WiFi_polled (polled k
         (st\<lparr>clock := clock st + 50, wifiMode := WIFI_STA,
             trace := trace st @ [WifiDisconnect, Delay 50, WifiMode WIFI_STA, WifiBegin ssid pass]\<rparr>))"
        by (simp only: st4)
      then have "st' = st\<lparr>clock := clock st + 50 + 100 * of_nat k, polls := Suc (polls st + k),
          trace := trace st @ ([WifiDisconnect, Delay 50, WifiMode WIFI_STA, WifiBegin ssid pass]
                     @ replicate k (Delay 100)),
          wifiMode := WIFI_STA\<rparr>"
        by (simp add: polled_def WiFi_polled_def)
      moreover have "set (begun ([WifiDisconnect, Delay 50, WifiMode WIFI_STA, WifiBegin ssid pass]
                     @ replicate k (Delay 100))) = {(ssid, pass)}"
        by (simp add: begun_simps)
      ultimately show ?thesis using True by (metis (full_types))
    next
      case b5: False
      let ?st6 = "delay (backoff_ms attempt) st5"
      from 1(2) True p b5
      have rec: "station_loop ssid pass maxRetries timeoutMs (attempt + 1) ?st6 = Some (b, st')"
        by (subst (asm) station_loop.simps) (simp add: Let_def)
      from 1(1) [OF True refl refl refl refl p refl _ rec] b5
      obtain c q tr w where
        r: "st' = ?st6\<lparr>clock := c, polls := q, trace := trace ?st6 @ tr, wifiMode := w\<rparr>"
           "set (begun tr) = (if attempt + 1 < maxRetries then {(ssid, pass)} else {})"
        by auto
      from k b5 have "st5 = polled k ?st4" by simp
      then have "?st6 = delay (backoff_ms attempt) (polled k
         (st\<lparr>clock := clock st + 50, wifiMode := WIFI_STA,
             trace := trace st @ [WifiDisconnect, Delay 50, WifiMode WIFI_STA, WifiBegin ssid pass]\<rparr>))"
        by (simp only: st4)
      then have st6: "?st6 = st\<lparr>clock := clock st + 50 + 100 * of_nat k + backoff_ms attempt,
          polls := polls st + k,
          trace := trace st @ [WifiDisconnect, Delay 50, WifiMode WIFI_STA, WifiBegin ssid pass]
                     @ replicate k (Delay 100) @ [Delay (backoff_ms attempt)],
          wifiMode := WIFI_STA\<rparr>"
        by (simp add: polled_def delay_def log_event_def)
      let ?tr = "[WifiDisconnect, Delay 50, WifiMode WIFI_STA, WifiBegin ssid pass]
                     @ replicate k (Delay 100) @ [Delay (backoff_ms attempt)] @ tr"
      have "st' = st\<lparr>clock := c, polls := q, trace := trace st @ ?tr, wifiMode := w\<rparr>"
        using r(1) unfolding st6 by simp
      moreover have "set (begun ?tr) = {(ssid, pass)}"
        using r(2) by (simp add: begun_simps)
      ultimately show ?thesis using True by (metis (full_types))
    qed
  qed
qed

lemma station_loop_total:
  "\<exists>r. station_loop ssid pass maxRetries CONNECT_TIMEOUT_MS attempt st = Some r"
proof (induction ssid pass maxRetries CONNECT_TIMEOUT_MS attempt st rule: station_loop.induct)
  case (1 ssid pass maxRetries attempt st)
  show ?case
  proof (cases "attempt < maxRetries")
    case False
    then have "station_loop ssid pass maxRetries CONNECT_TIMEOUT_MS attempt st = Some (False, st)"
      by (subst station_loop.simps) simp
    then show ?thesis by blast
  next
    case True
    let ?st4 = "WiFi_begin ssid pass (WiFi_mode WIFI_STA (delay 50 (WiFi_disconnect st)))"
    obtain b5 st5 where
      p: "poll_status (millis ?st4) CONNECT_TIMEOUT_MS ?st4 = Some (b5, st5)"
      using poll_status_total [of ?st4] by auto
    show ?thesis
    proof (cases b5)
      case True
      with \<open>attempt < maxRetries\<close> p
      have "station_loop ssid pass maxRetries CONNECT_TIMEOUT_MS attempt st = Some (True, st5)"
        by (subst station_loop.simps) (simp add: Let_def)
      then show ?thesis by blast
    next
      case False
      from 1 [OF True refl refl refl refl p refl] False
      obtain r where "station_loop ssid pass maxRetries CONNECT_TIMEOUT_MS (attempt + 1)
                        (delay (backoff_ms attempt) st5) = Some r"
        by auto
      with True p False show ?thesis
        by (subst station_loop.simps) (simp add: Let_def)
    qed
  qed
qed

lemma begun_Cons: "begun (e # xs) = begin_args e @ begun xs"
  by (simp add: begun_def)

lemma setup_loaded_fields:
  "currentSsid (setup_loaded st) =
     (if getUChar ''prov'' 0 st = 0 then DUMMY_SSID else getString ''ssid'' [] st)"
  "currentPass (setup_loaded st) =
     (if getUChar ''prov'' 0 st = 0 then DUMMY_PASS else getString ''pass'' [] st)"
  "trace (setup_loaded st) = trace st @ [Delay 10]"
  "prefs (setup_loaded st) = prefs st"
  by (simp_all add: setup_loaded_def showConnectingPattern_def loadCredentialsFromNVS_def
      delay_def log_event_def getUChar_def getString_def Let_def)

lemma setup_main_result:
  "\<exists>b c p tr w.
     setup_main st =
       Some (let st7 = (setup_loaded st)\<lparr>clock := c, polls := p,
                          trace := trace (setup_loaded st) @ tr, wifiMode := w\<rparr>
             in if b then showConnected (st7\<lparr>runState := CONNECTED\<rparr>)
                else (startCaptiveAP st7)\<lparr>runState := AP_SETUP\<rparr>) \<and>
     set (begun tr) = {(currentSsid (setup_loaded st), currentPass (setup_loaded st))}"
proof -
  let ?st6 = "setup_loaded st"
  obtain b st7 where
    r: "station_loop (currentSsid ?st6) (currentPass ?st6) MAX_RETRIES CONNECT_TIMEOUT_MS 0 ?st6
          = Some (b, st7)"
    using station_loop_total [of "currentSsid ?st6" "currentPass ?st6" MAX_RETRIES 0 ?st6] by auto
  from station_loop_log [OF r] obtain c p tr w where
    f: "st7 = ?st6\<lparr>clock := c, polls := p, trace := trace ?st6 @ tr, wifiMode := w\<rparr>"
       "set (begun tr) = {(currentSsid ?st6, currentPass ?st6)}"
    by (auto simp: MAX_RETRIES_def)
  have "setup_main st =
       Some (if b then showConnected (st7\<lparr>runState := CONNECTED\<rparr>)
             else (startCaptiveAP st7)\<lparr>runState := AP_SETUP\<rparr>)"
    using r [unfolded setup_loaded_def]
    by (cases b) (simp_all add: setup_main_def tryConnectStation_def Let_def)
  with f show ?thesis
    by (intro exI [of _ b] exI [of _ c] exI [of _ p] exI [of _ tr] exI [of _ w]) (simp add: Let_def)
qed

lemma setup_main_credentials:
  "\<exists>s' tr. setup_main st = Some s' \<and> trace s' = trace st @ [Delay 10] @ tr \<and>
     currentSsid s' = currentSsid (setup_loaded st) \<and>
     currentPass s' = currentPass (setup_loaded st) \<and>
     set (begun tr) = {(currentSsid (setup_loaded st), currentPass (setup_loaded st))}"
proof -
  from setup_main_result [of st] obtain b c p tr w where
    r: "setup_main st =
       Some (let st7 = (setup_loaded st)\<lparr>clock := c, polls := p,
                          trace := trace (setup_loaded st) @ tr, wifiMode := w\<rparr>
             in if b then showConnected (st7\<lparr>runState := CONNECTED\<rparr>)
                else (startCaptiveAP st7)\<lparr>runState := AP_SETUP\<rparr>)"
    and b: "set (begun tr) = {(currentSsid (setup_loaded st), currentPass (setup_loaded st))}"
    by blast
  let ?ap = "[WifiMode WIFI_AP, SoftAP (''ModuLux-Setup-'' @ last4MacHex st) AP_PASS, DnsStart, ServerBegin]"
  have mac: "last4MacHex (x\<lparr>clock := c, polls := p, trace := t, wifiMode := w\<rparr>) = last4MacHex x"
    for x t by (simp add: last4MacHex_def)
  have mac': "last4MacHex (setup_loaded st) = last4MacHex st"
    by (simp add: last4MacHex_def setup_loaded_def showConnectingPattern_def
        loadCredentialsFromNVS_def delay_def log_event_def Let_def)
  show ?thesis
  proof (cases b)
    case True
    with r b show ?thesis
      by (intro exI [of _ "the (setup_main st)"] exI [of _ tr])
         (simp add: Let_def showConnected_def setup_loaded_fields)
  next
    case False
    with r b show ?thesis
      by (intro exI [of _ "the (setup_main st)"] exI [of _ "tr @ ?ap"])
         (simp add: Let_def startCaptiveAP_def WiFi_mode_def log_event_def setup_loaded_fields
            begun_simps begun_Cons mac mac')
  qed
qed

text \<open>
  Claim C5. \<^verbatim>\<open>setup()\<close> always returns. When the \<^verbatim>\<open>prov\<close> flag reads 0 (unset, or no such
  key) the working copy holds the placeholder pair and every \<^verbatim>\<open>WiFi.begin\<close> of the start-up
  connection gets the placeholder pair, whatever is stored under \<^verbatim>\<open>ssid\<close> and \<^verbatim>\<open>pass\<close>; when
  the flag is set, the stored pair is loaded and used instead. At least one
  \<^verbatim>\<open>WiFi.begin\<close> is made.
\<close>

theorem startup_credentials:
  "\<exists>s' tr. setup_main st = Some s' \<and> trace s' = trace st @ [Delay 10] @ tr \<and>
     (getUChar ''prov'' 0 st = 0 \<longrightarrow>
        currentSsid s' = DUMMY_SSID \<and> currentPass s' = DUMMY_PASS \<and>
        set (begun tr) = {(DUMMY_SSID, DUMMY_PASS)}) \<and>
     (getUChar ''prov'' 0 st \<noteq> 0 \<longrightarrow>
        currentSsid s' = getString ''ssid'' [] st \<and> currentPass s' = getString ''pass'' [] st \<and>
        set (begun tr) = {(getString ''ssid'' [] st, getString ''pass'' [] st)})"
proof -
  from setup_main_credentials [of st] obtain s' tr where
    "setup_main st = Some s'" "trace s' = trace st @ [Delay 10] @ tr"
    "currentSsid s' = currentSsid (setup_loaded st)"
    "currentPass s' = currentPass (setup_loaded st)"
    "set (begun tr) = {(currentSsid (setup_loaded st), currentPass (setup_loaded st))}"
    by blast
  then show ?thesis
    by (intro exI [of _ s'] exI [of _ tr]) (simp add: setup_loaded_fields)
qed

theorem startup_credentials_witness:
  "(\<exists>s' tr. setup_main fresh = Some s' \<and> trace s' = trace fresh @ [Delay 10] @ tr \<and>
      currentSsid s' = ''DummY'' \<and> currentPass s' = ''dummy001'' \<and>
      set (begun tr) = {(''DummY'', ''dummy001'')}) \<and>
   (\<exists>s' tr. setup_main provisioned = Some s' \<and> trace s' = trace provisioned @ [Delay 10] @ tr \<and>
      currentSsid s' = ''home'' \<and> currentPass s' = ''secret123'' \<and>
      set (begun tr) = {(''home'', ''secret123'')})"
proof -
  have 1: "getUChar ''prov'' 0 fresh = 0"
    by (simp add: getUChar_def fresh_def)
  have 2: "getUChar ''prov'' 0 provisioned = 1" "getString ''ssid'' [] provisioned = ''home''"
    "getString ''pass'' [] provisioned = ''secret123''"
    by (simp_all add: getUChar_def getString_def provisioned_def)
  from startup_credentials [of fresh] 1
  have a: "\<exists>s' tr. setup_main fresh = Some s' \<and> trace s' = trace fresh @ [Delay 10] @ tr \<and>
      currentSsid s' = ''DummY'' \<and> currentPass s' = ''dummy001'' \<and>
      set (begun tr) = {(''DummY'', ''dummy001'')}"
    by (simp add: DUMMY_SSID_def DUMMY_PASS_def)
  from startup_credentials [of provisioned] 2
  have b: "\<exists>s' tr. setup_main provisioned = Some s' \<and> trace s' = trace provisioned @ [Delay 10] @ tr \<and>
      currentSsid s' = ''home'' \<and> currentPass s' = ''secret123'' \<and>
      set (begun tr) = {(''home'', ''secret123'')}"
    by simp
  from a b show ?thesis by blast
qed

lemma tryConnectWhileAp_log:
  "trace (coexist_attempt ssid pass k b st) =
     trace st @ [WifiMode WIFI_AP_STA, WifiBegin ssid pass] @ replicate k (Delay 100)"
  by (simp add: coexist_attempt_def)

text \<open>
  Claim C3. A \<^verbatim>\<open>POST /save\<close> whose \<^verbatim>\<open>ssid\<close> is empty or whose \<^verbatim>\<open>pass\<close> has fewer than 8
  characters is answered with status 400 and nothing else happens: the only call logged is
  that response (no store write, no \<^verbatim>\<open>WiFi.begin\<close>), and the store and the working copy are
  as before. Every other request writes \<^verbatim>\<open>ssid\<close>, \<^verbatim>\<open>pass\<close> and \<^verbatim>\<open>prov = 1\<close> to the store and
  then starts a connection with the new pair; the handler returns.
\<close>

theorem save_validation:
  "(length (server_arg req ''ssid'') = 0 \<or> length (server_arg req ''pass'') < 8 \<longrightarrow>
      (\<exists>st'. handleSave req st = Some st' \<and>
         trace st' = trace st @
           [ServerSend 400 ''text/plain'' (Text ''Invalid SSID or password (min 8 chars)'')] \<and>
         prefs st' = prefs st \<and> currentSsid st' = currentSsid st \<and>
         currentPass st' = currentPass st)) \<and>
   (length (server_arg req ''ssid'') \<noteq> 0 \<and> 8 \<le> length (server_arg req ''pass'') \<longrightarrow>
      (\<exists>st' rest. handleSave req st = Some st' \<and>
         trace st' = trace st @
           [PutString ''ssid'' (server_arg req ''ssid''), PutString ''pass'' (server_arg req ''pass''),
            PutUChar ''prov'' 1, WifiMode WIFI_AP_STA,
            WifiBegin (server_arg req ''ssid'') (server_arg req ''pass'')] @ rest \<and>
         prefs st' = (prefs st)(''ssid'' \<mapsto> Str (server_arg req ''ssid''),
                                ''pass'' \<mapsto> Str (server_arg req ''pass''), ''prov'' \<mapsto> UChar 1)))"
proof (intro conjI impI)
  assume "length (server_arg req ''ssid'') = 0 \<or> length (server_arg req ''pass'') < 8"
  then have "\<not> valid_save req" by (auto simp: valid_save_def)
  from handleSave_invalid [OF this, of st]
  show "\<exists>st'. handleSave req st = Some st' \<and>
         trace st' = trace st @
           [ServerSend 400 ''text/plain'' (Text ''Invalid SSID or password (min 8 chars)'')] \<and>
         prefs st' = prefs st \<and> currentSsid st' = currentSsid st \<and>
         currentPass st' = currentPass st"
    by (simp add: reply_invalid_def)
next
  let ?ssid = "server_arg req ''ssid''" and ?pass = "server_arg req ''pass''"
  assume "length ?ssid \<noteq> 0 \<and> 8 \<le> length ?pass"
  then have "valid_save req" by (simp add: valid_save_def)
  from handleSave_valid [OF this, of st] obtain b k where
    r: "handleSave req st =
      Some (let st4 = coexist_attempt ?ssid ?pass k b (persisted ?ssid ?pass st)
            in if b then
                 st4\<lparr>trace := trace st4 @ [reply_connected ?ssid (localIP st)],
                     lastHttpActivityMs := clock st4, apShutdownAt := clock st4 + 40000,
                     runState := CONNECTED, led01 := True, led02 := False\<rparr>
               else
                 st4\<lparr>trace := trace st4 @ [reply_failed], lastHttpActivityMs := clock st4,
                     runState := AP_SETUP\<rparr>)"
    by blast
  let ?rest = "replicate k (Delay 100) @
                 [if b then reply_connected ?ssid (localIP st) else reply_failed]"
  from r show "\<exists>st' rest. handleSave req st = Some st' \<and>
         trace st' = trace st @
           [PutString ''ssid'' ?ssid, PutString ''pass'' ?pass,
            PutUChar ''prov'' 1, WifiMode WIFI_AP_STA, WifiBegin ?ssid ?pass] @ rest \<and>
         prefs st' = (prefs st)(''ssid'' \<mapsto> Str ?ssid, ''pass'' \<mapsto> Str ?pass, ''prov'' \<mapsto> UChar 1)"
    by (intro exI [of _ "the (handleSave req st)"] exI [of _ ?rest])
       (simp add: Let_def tryConnectWhileAp_log persisted_fields coexist_attempt_def)
qed

theorem save_validation_witness:
  "(\<exists>st'. handleSave short_save fresh = Some st' \<and>
         trace st' = trace fresh @
           [ServerSend 400 ''text/plain'' (Text ''Invalid SSID or password (min 8 chars)'')] \<and>
         prefs st' = prefs fresh \<and> currentSsid st' = currentSsid fresh \<and>
         currentPass st' = currentPass fresh) \<and>
   (\<exists>st' rest. handleSave good_save fresh = Some st' \<and>
         trace st' = trace fresh @
           [PutString ''ssid'' ''home'', PutString ''pass'' ''secret123'',
            PutUChar ''prov'' 1, WifiMode WIFI_AP_STA, WifiBegin ''home'' ''secret123''] @ rest \<and>
         prefs st' = (prefs fresh)(''ssid'' \<mapsto> Str ''home'',
                                   ''pass'' \<mapsto> Str ''secret123'', ''prov'' \<mapsto> UChar 1))"
proof -
  have a: "server_arg short_save ''ssid'' = ''home''" "server_arg short_save ''pass'' = ''secret1''"
    "server_arg good_save ''ssid'' = ''home''" "server_arg good_save ''pass'' = ''secret123''"
    by (simp_all add: server_arg_def short_save_def good_save_def)
  from save_validation [of short_save fresh] save_validation [of good_save fresh]
  show ?thesis unfolding a by simp
qed

lemma loop_alt:
  "loop inp st =
     (case loop_ap (request inp) (loop_leds st) of
        None \<Rightarrow> None
      | Some st1 \<Rightarrow> Some (loop_rest (pressed inp) st1))"
  by (simp add: loop_def loop_rest_def Let_def split: option.splits)

lemma rapid_blink_result:
  "rapid_blink n st =
     st\<lparr>led01 := (if n = 0 then led01 st else False), clock := clock st + 200 * of_nat n,
        trace := trace st @ replicate (2 * n) (Delay 100)\<rparr>"
proof (induction n arbitrary: st)
  case 0
  show ?case by simp
next
  case (Suc n)
  show ?case
    by (simp add: Suc delay_def log_event_def algebra_simps replicate_append_same)
qed

lemma performFactoryReset_result:
  "performFactoryReset st =
     st\<lparr>prefs := [''prov'' \<mapsto> UChar 0], led01 := False, clock := clock st + 1800,
        trace := trace st @ [PrefsClear, PutUChar ''prov'' 0] @ replicate 16 (Delay 100)
                   @ [Delay 200, Restart],
        restarted := True\<rparr>"
  by (simp add: performFactoryReset_def rapid_blink_result prefs_clear_def putUChar_def delay_def
      ESP_restart_def log_event_def Let_def)

lemma factoryResetCheck_frame:
  "\<exists>h ps pf l c t r. factoryResetCheck v st =
     st\<lparr>factoryBtnHeld := h, factoryBtnPressStartMs := ps, prefs := pf, led01 := l,
        clock := c, trace := t, restarted := r\<rparr>"
proof -
  have "factoryResetCheck v st =
     st\<lparr>factoryBtnHeld := factoryBtnHeld (factoryResetCheck v st),
        factoryBtnPressStartMs := factoryBtnPressStartMs (factoryResetCheck v st),
        prefs := prefs (factoryResetCheck v st), led01 := led01 (factoryResetCheck v st),
        clock := clock (factoryResetCheck v st), trace := trace (factoryResetCheck v st),
        restarted := restarted (factoryResetCheck v st)\<rparr>"
    by (simp add: factoryResetCheck_def performFactoryReset_result millis_def Let_def)
  then show ?thesis by blast
qed

lemma loop_rest_frame:
  "\<exists>h ps pf l c t r. loop_rest v st =
     (loop_shutdown st)\<lparr>factoryBtnHeld := h, factoryBtnPressStartMs := ps, prefs := pf,
        led01 := l, clock := c, trace := t, restarted := r\<rparr>"
proof -
  from factoryResetCheck_frame [of v "loop_shutdown st"] obtain h ps pf l c t r where
    f: "factoryResetCheck v (loop_shutdown st) =
     (loop_shutdown st)\<lparr>factoryBtnHeld := h, factoryBtnPressStartMs := ps, prefs := pf,
        led01 := l, clock := c, trace := t, restarted := r\<rparr>"
    by blast
  show ?thesis
  proof (cases r)
    case True
    with f have "loop_rest v st = (loop_shutdown st)\<lparr>factoryBtnHeld := h,
        factoryBtnPressStartMs := ps, prefs := pf, led01 := l, clock := c, trace := t,
        restarted := r\<rparr>"
      by (simp add: loop_rest_def Let_def)
    then show ?thesis by blast
  next
    case False
    with f have "loop_rest v st = (loop_shutdown st)\<lparr>factoryBtnHeld := h,
        factoryBtnPressStartMs := ps, prefs := pf, led01 := l, clock := c + 20,
        trace := t @ [Delay 20], restarted := r\<rparr>"
      by (simp add: loop_rest_def Let_def delay_def log_event_def)
    then show ?thesis by blast
  qed
qed

lemma simple_handlers_self:
  "handleRoot st = st\<lparr>trace := trace (handleRoot st), lastHttpActivityMs := clock st\<rparr>"
  "handleScan st = st\<lparr>trace := trace (handleScan st), lastHttpActivityMs := clock st\<rparr>"
  "handleStatus st = st\<lparr>trace := trace (handleStatus st), lastHttpActivityMs := clock st\<rparr>"
  "serve_page st = st\<lparr>trace := trace (serve_page st), lastHttpActivityMs := clock st\<rparr>"
  "serve_ncsi st = st\<lparr>trace := trace (serve_ncsi st), lastHttpActivityMs := clock st\<rparr>"
  by (simp_all add: handleRoot_def handleScan_def handleStatus_def serve_page_def serve_ncsi_def
      server_send_def log_event_def millis_def Let_def)

lemma simple_handlers:
  "\<exists>t. handleRoot st = st\<lparr>trace := t, lastHttpActivityMs := clock st\<rparr>"
  "\<exists>t. handleScan st = st\<lparr>trace := t, lastHttpActivityMs := clock st\<rparr>"
  "\<exists>t. handleStatus st = st\<lparr>trace := t, lastHttpActivityMs := clock st\<rparr>"
  "\<exists>t. serve_page st = st\<lparr>trace := t, lastHttpActivityMs := clock st\<rparr>"
  "\<exists>t. serve_ncsi st = st\<lparr>trace := t, lastHttpActivityMs := clock st\<rparr>"
  using simple_handlers_self [of st] by blast+

lemma handleSave_effect:
  "\<exists>st1. handleSave req st = Some st1 \<and>
     ((\<exists>t. st1 = st\<lparr>trace := t, lastHttpActivityMs := clock st\<rparr>) \<or>
      (\<exists>t c p pf cs cp. st1 =
         st\<lparr>trace := t, clock := c, polls := p, prefs := pf, currentSsid := cs, currentPass := cp,
            wifiMode := WIFI_AP_STA, lastHttpActivityMs := c, runState := AP_SETUP\<rparr>) \<or>
      (\<exists>t c p pf cs cp. st1 =
         st\<lparr>trace := t, clock := c, polls := p, prefs := pf, currentSsid := cs, currentPass := cp,
            wifiMode := WIFI_AP_STA, lastHttpActivityMs := c, apShutdownAt := c + 40000,
            runState := CONNECTED, led01 := True, led02 := False\<rparr>))"
proof (cases "valid_save req")
  case False
  from handleSave_invalid [OF this, of st] show ?thesis by blast
next
  case True
  let ?ssid = "server_arg req ''ssid''" and ?pass = "server_arg req ''pass''"
  from handleSave_valid [OF True, of st] obtain b k where
    r: "handleSave req st =
      Some (let st4 = coexist_attempt ?ssid ?pass k b (persisted ?ssid ?pass st)
            in if b then
                 st4\<lparr>trace := trace st4 @ [reply_connected ?ssid (localIP st)],
                     lastHttpActivityMs := clock st4, apShutdownAt := clock st4 + 40000,
                     runState := CONNECTED, led01 := True, led02 := False\<rparr>
               else
                 st4\<lparr>trace := trace st4 @ [reply_failed], lastHttpActivityMs := clock st4,
                     runState := AP_SETUP\<rparr>)"
    by blast
  obtain st1 where st1: "handleSave req st = Some st1" using r by simp
  show ?thesis
  proof (cases b)
    case True
    with r st1 have "st1 = st\<lparr>trace := trace st1, clock := clock st1, polls := polls st1,
        prefs := prefs st1, currentSsid := currentSsid st1, currentPass := currentPass st1,
        wifiMode := WIFI_AP_STA,
        lastHttpActivityMs := clock st1, apShutdownAt := clock st1 + 40000,
        runState := CONNECTED, led01 := True, led02 := False\<rparr>"
      by (simp add: Let_def coexist_attempt_def persisted_def saveCredentialsToNVS_def
          putString_def putUChar_def log_event_def)
    with st1 show ?thesis by blast
  next
    case False
    with r st1 have "st1 = st\<lparr>trace := trace st1, clock := clock st1, polls := polls st1,
        prefs := prefs st1, currentSsid := currentSsid st1, currentPass := currentPass st1,
        wifiMode := WIFI_AP_STA,
        lastHttpActivityMs := clock st1, runState := AP_SETUP\<rparr>"
      by (simp add: Let_def coexist_attempt_def persisted_def saveCredentialsToNVS_def
          putString_def putUChar_def log_event_def)
    with st1 show ?thesis by blast
  qed
qed

lemma dispatch_effect:
  "\<exists>st1. dispatch req st = Some st1 \<and>
     ((\<exists>t. st1 = st\<lparr>trace := t, lastHttpActivityMs := clock st\<rparr>) \<or>
      (\<exists>t c p pf cs cp. st1 =
         st\<lparr>trace := t, clock := c, polls := p, prefs := pf, currentSsid := cs, currentPass := cp,
            wifiMode := WIFI_AP_STA, lastHttpActivityMs := c, runState := AP_SETUP\<rparr>) \<or>
      (\<exists>t c p pf cs cp. st1 =
         st\<lparr>trace := t, clock := c, polls := p, prefs := pf, currentSsid := cs, currentPass := cp,
            wifiMode := WIFI_AP_STA, lastHttpActivityMs := c, apShutdownAt := c + 40000,
            runState := CONNECTED, led01 := True, led02 := False\<rparr>))"
proof (cases "path req = ''/save'' \<and> meth req = HTTP_POST")
  case True
  then have "dispatch req st = handleSave req st" by (simp add: dispatch_def)
  with handleSave_effect [of req st] show ?thesis by simp
next
  case False
  then have "dispatch req st = Some (handleRoot st) \<or> dispatch req st = Some (handleScan st) \<or>
     dispatch req st = Some (handleStatus st) \<or> dispatch req st = Some (serve_page st) \<or>
     dispatch req st = Some (serve_ncsi st)"
    by (auto simp: dispatch_def)
  with simple_handlers [of st] show ?thesis by auto
qed

lemma handleClient_effect:
  "\<exists>st1. handleClient r st = Some st1 \<and>
     (st1 = st \<or>
      (\<exists>t. st1 = st\<lparr>trace := t, lastHttpActivityMs := clock st\<rparr>) \<or>
      (\<exists>t c p pf cs cp. st1 =
         st\<lparr>trace := t, clock := c, polls := p, prefs := pf, currentSsid := cs, currentPass := cp,
            wifiMode := WIFI_AP_STA, lastHttpActivityMs := c, runState := AP_SETUP\<rparr>) \<or>
      (\<exists>t c p pf cs cp. st1 =
         st\<lparr>trace := t, clock := c, polls := p, prefs := pf, currentSsid := cs, currentPass := cp,
            wifiMode := WIFI_AP_STA, lastHttpActivityMs := c, apShutdownAt := c + 40000,
            runState := CONNECTED, led01 := True, led02 := False\<rparr>))"
proof (cases r)
  case None
  then show ?thesis by (simp add: handleClient_def)
next
  case (Some req)
  show ?thesis
  proof (cases "serverRunning st")
    case False
    with Some show ?thesis by (simp add: handleClient_def)
  next
    case True
    with Some have "handleClient r st = dispatch req st" by (simp add: handleClient_def)
    with dispatch_effect [of req st] show ?thesis by metis
  qed
qed

lemma idle_retry_effect:
  "\<exists>st2. idle_retry st = Some st2 \<and>
     ((\<not> idle_elapsed st \<and> st2 = st) \<or>
      (idle_elapsed st \<and>
        (\<exists>k. st2 = coexist_attempt (currentSsid st) (currentPass st) k False
                      (st\<lparr>lastHttpActivityMs := clock st\<rparr>))) \<or>
      (idle_elapsed st \<and>
        (\<exists>k. st2 = (coexist_attempt (currentSsid st) (currentPass st) k True
                      (st\<lparr>lastHttpActivityMs := clock st\<rparr>))
                    \<lparr>runState := CONNECTED, led01 := True, led02 := False,
                      apShutdownAt := clock st + 100 * of_nat k + 40000\<rparr>)))"
proof (cases "idle_elapsed st")
  case False
  then show ?thesis by (simp add: idle_retry_def idle_elapsed_def)
next
  case True
  let ?st1 = "st\<lparr>lastHttpActivityMs := clock st\<rparr>"
  from tryConnectWhileAp_result [of "currentSsid st" "currentPass st" 1 ?st1] obtain b k where
    r: "tryConnectWhileAp (currentSsid st) (currentPass st) 1 CONNECT_TIMEOUT_MS ?st1 =
          Some (b, coexist_attempt (currentSsid st) (currentPass st) k b ?st1)"
    by blast
  show ?thesis
  proof (cases b)
    case b: True
    with r True have "idle_retry st =
      Some ((coexist_attempt (currentSsid st) (currentPass st) k True ?st1)
                    \<lparr>runState := CONNECTED, led01 := True, led02 := False,
                      apShutdownAt := clock st + 100 * of_nat k + 40000\<rparr>)"
      by (simp add: idle_retry_def idle_elapsed_def Let_def millis_def showConnected_def
          coexist_attempt_def)
    with True show ?thesis by blast
  next
    case b: False
    with r True have "idle_retry st =
      Some (coexist_attempt (currentSsid st) (currentPass st) k False ?st1)"
      by (simp add: idle_retry_def idle_elapsed_def Let_def millis_def)
    with True show ?thesis by blast
  qed
qed

lemma loop_leds_consistent: "consistent st \<Longrightarrow> consistent (loop_leds st)"
  by (auto simp: consistent_def loop_leds_def showSetupPattern_def showConnectingPattern_def
      showConnected_def Let_def split: SetupPhase.splits)

lemma loop_leds_runState: "runState (loop_leds st) = runState st"
  by (auto simp: loop_leds_def showSetupPattern_def showConnectingPattern_def
      showConnected_def Let_def split: SetupPhase.splits)

lemma loop_ap_consistent:
  assumes "consistent st" "loop_ap r st = Some st2"
  shows "consistent st2"
proof (cases "runState st = AP_SETUP")
  case False
  with assms show ?thesis by (simp add: loop_ap_def)
next
  case True
  from handleClient_effect [of r st] obtain st1 where
    h: "handleClient r st = Some st1"
    and c: "st1 = st \<or>
      (\<exists>t. st1 = st\<lparr>trace := t, lastHttpActivityMs := clock st\<rparr>) \<or>
      (\<exists>t c p pf cs cp. st1 =
         st\<lparr>trace := t, clock := c, polls := p, prefs := pf, currentSsid := cs, currentPass := cp,
            wifiMode := WIFI_AP_STA, lastHttpActivityMs := c, runState := AP_SETUP\<rparr>) \<or>
      (\<exists>t c p pf cs cp. st1 =
         st\<lparr>trace := t, clock := c, polls := p, prefs := pf, currentSsid := cs, currentPass := cp,
            wifiMode := WIFI_AP_STA, lastHttpActivityMs := c, apShutdownAt := c + 40000,
            runState := CONNECTED, led01 := True, led02 := False\<rparr>)"
    by blast
  from c assms(1) True have c1: "consistent st1"
    by (auto simp: consistent_def)
  from True h assms(2) have i: "idle_retry st1 = Some st2" by (simp add: loop_ap_def)
  from idle_retry_effect [of st1] i c1 show ?thesis
    by (auto simp: consistent_def coexist_attempt_def)
qed

lemma loop_shutdown_consistent: "consistent st \<Longrightarrow> consistent (loop_shutdown st)"
  by (auto simp: consistent_def loop_shutdown_def stopCaptiveAP_def log_event_def Let_def)

lemma loop_rest_consistent:
  assumes "consistent st"
  shows "consistent (loop_rest v st)"
proof -
  from loop_rest_frame [of v st] obtain h ps pf l c t r where
    "loop_rest v st =
     (loop_shutdown st)\<lparr>factoryBtnHeld := h, factoryBtnPressStartMs := ps, prefs := pf,
        led01 := l, clock := c, trace := t, restarted := r\<rparr>"
    by blast
  with loop_shutdown_consistent [OF assms] show ?thesis by (simp add: consistent_def)
qed

lemma loop_consistent:
  assumes "consistent st" "loop inp st = Some s'"
  shows "consistent s'"
proof -
  from assms(2) obtain st1 where
    a: "loop_ap (request inp) (loop_leds st) = Some st1" and s': "s' = loop_rest (pressed inp) st1"
    by (auto simp: loop_alt split: option.splits)
  from loop_ap_consistent [OF loop_leds_consistent [OF assms(1)] a] s'
  show ?thesis by (simp add: loop_rest_consistent)
qed

lemma setup_loaded_boot:
  "apShutdownAt (setup_loaded (boot e)) = 0" "led02 (setup_loaded (boot e)) = False"
  by (simp_all add: setup_loaded_def boot_def showConnectingPattern_def loadCredentialsFromNVS_def
      delay_def log_event_def Let_def)

lemma setup_main_consistent:
  assumes "setup_main (boot e) = Some s"
  shows "consistent s"
proof -
  from setup_main_result [of "boot e"] assms obtain b c p tr w where
    "s = (let st7 = (setup_loaded (boot e))\<lparr>clock := c, polls := p,
                          trace := trace (setup_loaded (boot e)) @ tr, wifiMode := w\<rparr>
             in if b then showConnected (st7\<lparr>runState := CONNECTED\<rparr>)
                else (startCaptiveAP st7)\<lparr>runState := AP_SETUP\<rparr>)"
    by auto
  then show ?thesis
    by (cases b)
       (simp_all add: consistent_def Let_def showConnected_def startCaptiveAP_def WiFi_mode_def
          log_event_def setup_loaded_boot)
qed

lemma reachable_consistent: "reachable s \<Longrightarrow> consistent s"
proof (induction rule: reachable.induct)
  case (start e s)
  then show ?case by (rule setup_main_consistent)
next
  case (tick s inp s')
  then show ?case using loop_consistent by blast
next
  case (elapse s d)
  then show ?case by (simp add: consistent_def)
qed

lemma boot_fresh: "boot fresh = fresh"
  by (simp add: boot_def fresh_def)

lemma setup_main_alt:
  "setup_main st =
     (case tryConnectStation (currentSsid (setup_loaded st)) (currentPass (setup_loaded st))
             MAX_RETRIES CONNECT_TIMEOUT_MS (setup_loaded st) of
        None \<Rightarrow> None
      | Some (True, st7) \<Rightarrow> Some (showConnected (st7\<lparr>runState := CONNECTED\<rparr>))
      | Some (False, st7) \<Rightarrow> Some ((startCaptiveAP st7)\<lparr>runState := AP_SETUP\<rparr>))"
  by (simp add: setup_main_def setup_loaded_def Let_def)

lemma portal_explicit:
  "setup_main (boot fresh) = Some portal"
  "portal = fresh\<lparr>runState := AP_SETUP, currentSsid := DUMMY_SSID, currentPass := DUMMY_PASS,
     lastHttpActivityMs := 73260, setupPhase := BLINK1_ON, setupPhaseStartMs := 73260,
     clock := 73260, wifiMode := WIFI_AP, serverRunning := True, dnsRunning := True,
     polls := 500, trace := trace portal\<rparr>"
proof -
  let ?st6 = "setup_loaded fresh"
  have st6: "?st6 = fresh\<lparr>clock := 10, trace := [Delay 10], currentSsid := DUMMY_SSID,
     currentPass := DUMMY_PASS\<rparr>"
    by (simp add: setup_loaded_def showConnectingPattern_def loadCredentialsFromNVS_def
        getUChar_def delay_def log_event_def millis_def Let_def fresh_def)
  have cs: "currentSsid ?st6 = DUMMY_SSID" "currentPass ?st6 = DUMMY_PASS"
    by (simp_all add: st6)
  have never: "\<forall>n<500. \<not> link ?st6 (polls ?st6 + n)"
    by (simp add: st6) (simp add: fresh_def)
  have r: "setup_main fresh =
      Some ((startCaptiveAP
         (delay 8000 (timed_out_attempt DUMMY_SSID DUMMY_PASS
         (delay 8000 (timed_out_attempt DUMMY_SSID DUMMY_PASS
         (delay 4000 (timed_out_attempt DUMMY_SSID DUMMY_PASS
         (delay 2000 (timed_out_attempt DUMMY_SSID DUMMY_PASS
         (delay 1000 (timed_out_attempt DUMMY_SSID DUMMY_PASS ?st6)))))))))))
         \<lparr>runState := AP_SETUP\<rparr>)"
    using station_five_timeouts [OF never, of DUMMY_SSID DUMMY_PASS] cs
    by (simp add: setup_main_alt tryConnectStation_def MAX_RETRIES_def CONNECT_TIMEOUT_MS_def)
  then show "setup_main (boot fresh) = Some portal"
    by (simp add: portal_def boot_fresh)
  define X where "X = (startCaptiveAP
         (delay 8000 (timed_out_attempt DUMMY_SSID DUMMY_PASS
         (delay 8000 (timed_out_attempt DUMMY_SSID DUMMY_PASS
         (delay 4000 (timed_out_attempt DUMMY_SSID DUMMY_PASS
         (delay 2000 (timed_out_attempt DUMMY_SSID DUMMY_PASS
         (delay 1000 (timed_out_attempt DUMMY_SSID DUMMY_PASS ?st6)))))))))))
         \<lparr>runState := AP_SETUP\<rparr>"
  from r have p: "portal = X"
    by (simp add: portal_def boot_fresh X_def)
  have f: "polls fresh = 0" by (simp add: fresh_def)
  have "X = fresh\<lparr>runState := AP_SETUP, currentSsid := DUMMY_SSID, currentPass := DUMMY_PASS,
     lastHttpActivityMs := 73260, setupPhase := BLINK1_ON, setupPhaseStartMs := 73260,
     clock := 73260, wifiMode := WIFI_AP, serverRunning := True, dnsRunning := True,
     polls := 500, trace := trace X\<rparr>"
    unfolding X_def
    by (simp add: st6 startCaptiveAP_def WiFi_mode_def delay_def timed_out_attempt_def
        log_event_def millis_def Let_def f)
  then show "portal = fresh\<lparr>runState := AP_SETUP, currentSsid := DUMMY_SSID, currentPass := DUMMY_PASS,
     lastHttpActivityMs := 73260, setupPhase := BLINK1_ON, setupPhaseStartMs := 73260,
     clock := 73260, wifiMode := WIFI_AP, serverRunning := True, dnsRunning := True,
     polls := 500, trace := trace portal\<rparr>"
    unfolding p .
qed

lemma tryConnectWhileAp_first:
  assumes "link st (polls st)"
  shows "tryConnectWhileAp ssid pass maxRetries CONNECT_TIMEOUT_MS st =
         Some (True, coexist_attempt ssid pass 0 True st)"
  using assms
  by (simp add: tryConnectWhileAp_def Let_def CONNECT_TIMEOUT_MS_def)
     (subst poll_status.simps,
      simp add: WiFi_connected_def WiFi_polled_def WiFi_begin_def WiFi_mode_def log_event_def
        millis_def coexist_attempt_def)

lemma tryConnectWhileAp_never:
  assumes "\<forall>n<100. \<not> link st (polls st + n)"
  shows "tryConnectWhileAp ssid pass maxRetries CONNECT_TIMEOUT_MS st =
         Some (False, coexist_attempt ssid pass 100 False st)"
proof -
  let ?st2 = "WiFi_begin ssid pass (WiFi_mode WIFI_AP_STA st)"
  have env: "link ?st2 = link st" "polls ?st2 = polls st"
    by (simp_all add: WiFi_begin_def WiFi_mode_def log_event_def)
  have "poll_status (millis ?st2) 10000 ?st2 = Some (False, polled (100 - 0) ?st2)"
    by (rule poll_status_never) (use assms in \<open>simp_all add: env millis_def\<close>)
  moreover have "polled 100 ?st2 = coexist_attempt ssid pass 100 False st"
    by (simp add: polled_def coexist_attempt_def WiFi_begin_def WiFi_mode_def log_event_def)
  ultimately show ?thesis
    by (simp add: tryConnectWhileAp_def Let_def CONNECT_TIMEOUT_MS_def)
qed

lemma portal_fields:
    "runState portal = AP_SETUP" "setupPhase portal = BLINK1_ON"
    "setupPhaseStartMs portal = 73260" "clock portal = 73260" "serverRunning portal"
    "dnsRunning portal"
    "lastHttpActivityMs portal = 73260" "factoryBtnHeld portal = False" "restarted portal = False"
    "prefs portal = Map.empty" "polls portal = 500" "apShutdownAt portal = 0"
    "link portal = (\<lambda>n. 500 \<le> n)" "localIP portal = ''192.168.1.23''"
    "led02 portal = False" "currentSsid portal = DUMMY_SSID" "currentPass portal = DUMMY_PASS"
    by (subst portal_explicit(2), simp add: fresh_def)+

lemma step_a: "loop_leds portal = portal\<lparr>led01 := True, led02 := False\<rparr>"
  by (simp add: loop_leds_def showSetupPattern_def portal_fields millis_def)

lemma step_b:
  "handleSave good_save (portal\<lparr>led01 := True, led02 := False\<rparr>) =
   Some (portal\<lparr>runState := CONNECTED, currentSsid := ''home'',
     currentPass := ''secret123'',
     lastHttpActivityMs := 73260, apShutdownAt := 113260,
     prefs := [''ssid'' \<mapsto> Str ''home'', ''pass'' \<mapsto> Str ''secret123'', ''prov'' \<mapsto> UChar 1],
     led01 := True, led02 := False, wifiMode := WIFI_AP_STA, polls := 501,
     trace := trace portal @ [PutString ''ssid'' ''home'', PutString ''pass'' ''secret123'',
        PutUChar ''prov'' 1, WifiMode WIFI_AP_STA, WifiBegin ''home'' ''secret123'',
        reply_connected ''home'' ''192.168.1.23'']\<rparr>)"
proof -
  have a: "server_arg good_save ''ssid'' = ''home''" "server_arg good_save ''pass'' = ''secret123''"
    by (simp_all add: server_arg_def good_save_def)
  let ?st3 = "(saveCredentialsToNVS ''home'' ''secret123'' (portal\<lparr>led01 := True, led02 := False\<rparr>))
                \<lparr>currentSsid := ''home'', currentPass := ''secret123''\<rparr>"
  have l: "link ?st3 (polls ?st3)"
    by (simp add: saveCredentialsToNVS_def putString_def putUChar_def log_event_def portal_fields)
  have t: "tryConnectWhileAp ''home'' ''secret123'' MAX_RETRIES CONNECT_TIMEOUT_MS ?st3 =
           Some (True, coexist_attempt ''home'' ''secret123'' 0 True ?st3)"
    by (rule tryConnectWhileAp_first [OF l])
  show ?thesis
    unfolding handleSave_def a Let_def
    by (simp add: t)
       (simp add: coexist_attempt_def saveCredentialsToNVS_def putString_def putUChar_def
          log_event_def server_send_def showConnected_def millis_def portal_fields
          reply_connected_def)
qed

lemma lingering_explicit:
  "loop save_tick portal = Some lingering"
  "lingering = portal\<lparr>runState := CONNECTED, currentSsid := ''home'', currentPass := ''secret123'',
     lastHttpActivityMs := 73260, apShutdownAt := 113260, clock := 73280,
     prefs := [''ssid'' \<mapsto> Str ''home'', ''pass'' \<mapsto> Str ''secret123'', ''prov'' \<mapsto> UChar 1],
     led01 := True, led02 := False, wifiMode := WIFI_AP_STA, polls := 501,
     trace := trace portal @ [PutString ''ssid'' ''home'', PutString ''pass'' ''secret123'',
        PutUChar ''prov'' 1, WifiMode WIFI_AP_STA, WifiBegin ''home'' ''secret123'',
        reply_connected ''home'' ''192.168.1.23'', Delay 20]\<rparr>"
proof -
  define B where "B = portal\<lparr>runState := CONNECTED, currentSsid := ''home'',
     currentPass := ''secret123'',
     lastHttpActivityMs := 73260, apShutdownAt := 113260,
     prefs := [''ssid'' \<mapsto> Str ''home'', ''pass'' \<mapsto> Str ''secret123'', ''prov'' \<mapsto> UChar 1],
     led01 := True, led02 := False, wifiMode := WIFI_AP_STA, polls := 501,
     trace := trace portal @ [PutString ''ssid'' ''home'', PutString ''pass'' ''secret123'',
        PutUChar ''prov'' 1, WifiMode WIFI_AP_STA, WifiBegin ''home'' ''secret123'',
        reply_connected ''home'' ''192.168.1.23'']\<rparr>"
  have b: "handleClient (Some good_save) (loop_leds portal) = Some B"
    by (simp add: handleClient_def step_a portal_fields dispatch_def step_b B_def)
       (simp add: good_save_def)
  have c: "idle_retry B = Some B"
    by (simp add: idle_retry_def B_def millis_def portal_fields AP_IDLE_TIMEOUT_MS_def)
  have d: "loop_rest False B = B\<lparr>clock := 73280, trace := trace B @ [Delay 20]\<rparr>"
    by (simp add: loop_rest_def loop_shutdown_def factoryResetCheck_def delay_def log_event_def
        B_def millis_def portal_fields Let_def)
  have "loop save_tick portal = Some (B\<lparr>clock := 73280, trace := trace B @ [Delay 20]\<rparr>)"
    by (simp add: loop_alt save_tick_def loop_ap_def loop_leds_runState portal_fields b c d)
  then have l: "lingering = B\<lparr>clock := 73280, trace := trace B @ [Delay 20]\<rparr>"
    and "loop save_tick portal = Some lingering"
    by (simp_all add: lingering_def)
  then show "loop save_tick portal = Some lingering" by simp
  show "lingering = portal\<lparr>runState := CONNECTED, currentSsid := ''home'', currentPass := ''secret123'',
     lastHttpActivityMs := 73260, apShutdownAt := 113260, clock := 73280,
     prefs := [''ssid'' \<mapsto> Str ''home'', ''pass'' \<mapsto> Str ''secret123'', ''prov'' \<mapsto> UChar 1],
     led01 := True, led02 := False, wifiMode := WIFI_AP_STA, polls := 501,
     trace := trace portal @ [PutString ''ssid'' ''home'', PutString ''pass'' ''secret123'',
        PutUChar ''prov'' 1, WifiMode WIFI_AP_STA, WifiBegin ''home'' ''secret123'',
        reply_connected ''home'' ''192.168.1.23'', Delay 20]\<rparr>"
    unfolding l by (simp add: B_def)
qed

lemma lingering_fields:
  "runState lingering = CONNECTED" "apShutdownAt lingering = 113260" "clock lingering = 73280"
  "restarted lingering = False" "serverRunning lingering" "dnsRunning lingering"
  "led02 lingering = False" "factoryBtnHeld lingering = False"
  by (simp_all add: lingering_explicit(2) portal_fields)

lemma reachable_portal: "reachable portal"
  by (rule reachable.start [OF portal_explicit(1)])

lemma reachable_lingering: "reachable lingering"
  by (rule reachable.tick [OF reachable_portal _ lingering_explicit(1)])
     (simp add: portal_fields)

lemma loop_total: "\<exists>s'. loop inp st = Some s'"
proof (cases "runState (loop_leds st) = AP_SETUP")
  case False
  then show ?thesis by (simp add: loop_alt loop_ap_def)
next
  case True
  from handleClient_effect [of "request inp" "loop_leds st"] obtain st1 where
    h: "handleClient (request inp) (loop_leds st) = Some st1" by blast
  from idle_retry_effect [of st1] obtain st2 where "idle_retry st1 = Some st2" by blast
  with h True show ?thesis by (simp add: loop_alt loop_ap_def)
qed

lemma loop_connected:
  assumes "runState st = CONNECTED"
  shows "loop inp st = Some (loop_rest (pressed inp) (showConnected st))"
  using assms by (simp add: loop_alt loop_ap_def loop_leds_def showConnected_def)

lemma loop_rest_services:
  "serverRunning (loop_rest v st) = serverRunning (loop_shutdown st)"
  "dnsRunning (loop_rest v st) = dnsRunning (loop_shutdown st)"
  "apShutdownAt (loop_rest v st) = apShutdownAt (loop_shutdown st)"
  "runState (loop_rest v st) = runState st"
  "lastHttpActivityMs (loop_rest v st) = lastHttpActivityMs st"
proof -
  from loop_rest_frame [of v st] obtain h ps pf l c t r where
    f: "loop_rest v st =
     (loop_shutdown st)\<lparr>factoryBtnHeld := h, factoryBtnPressStartMs := ps, prefs := pf,
        led01 := l, clock := c, trace := t, restarted := r\<rparr>"
    by blast
  show "serverRunning (loop_rest v st) = serverRunning (loop_shutdown st)"
    "dnsRunning (loop_rest v st) = dnsRunning (loop_shutdown st)"
    "apShutdownAt (loop_rest v st) = apShutdownAt (loop_shutdown st)"
    by (simp_all add: f)
  show "runState (loop_rest v st) = runState st"
    "lastHttpActivityMs (loop_rest v st) = lastHttpActivityMs st"
    by (simp_all add: f loop_shutdown_def stopCaptiveAP_def log_event_def)
qed

lemma loop_connected_shutdown:
  assumes "runState s = CONNECTED" "apShutdownAt s \<noteq> 0"
  shows "\<exists>s'. loop inp s = Some s' \<and> runState s' = CONNECTED \<and>
          (apShutdownAt s \<le> millis s \<longrightarrow>
             \<not> serverRunning s' \<and> \<not> dnsRunning s' \<and> apShutdownAt s' = 0) \<and>
          (millis s < apShutdownAt s \<longrightarrow>
             serverRunning s' = serverRunning s \<and> dnsRunning s' = dnsRunning s \<and>
             apShutdownAt s' = apShutdownAt s)"
  using assms
  by (intro exI [of _ "loop_rest (pressed inp) (showConnected s)"])
     (auto simp: loop_connected loop_rest_services loop_shutdown_def stopCaptiveAP_def
        log_event_def showConnected_def millis_def Let_def)

text \<open>
  Claim C9. In every state the controller can reach between two passes of \<^verbatim>\<open>loop()\<close>, a
  shutdown deadline that is set (\<^verbatim>\<open>apShutdownAt != 0\<close>) comes with
  \<^verbatim>\<open>runState == CONNECTED\<close>. The one variable holds at most one deadline, and the
  \<^verbatim>\<open>CONNECTED\<close> test of the shutdown branch never blocks it: once \<^verbatim>\<open>millis()\<close> has reached
  a set deadline, the next pass stops the HTTP and DNS services and clears the deadline.
\<close>

theorem shutdown_deadline_needs_connected:
  assumes "reachable s"
  shows "(apShutdownAt s \<noteq> 0 \<longrightarrow> runState s = CONNECTED) \<and>
         (apShutdownAt s \<noteq> 0 \<and> apShutdownAt s \<le> millis s \<longrightarrow>
            (\<exists>s'. loop inp s = Some s' \<and>
                  \<not> serverRunning s' \<and> \<not> dnsRunning s' \<and> apShutdownAt s' = 0))"
proof -
  from reachable_consistent [OF assms]
  have c: "apShutdownAt s \<noteq> 0 \<longrightarrow> runState s = CONNECTED"
    by (simp add: consistent_def)
  moreover have "\<exists>s'. loop inp s = Some s' \<and>
      \<not> serverRunning s' \<and> \<not> dnsRunning s' \<and> apShutdownAt s' = 0"
    if "apShutdownAt s \<noteq> 0" "apShutdownAt s \<le> millis s"
    using loop_connected_shutdown [of s inp] c that by blast
  ultimately show ?thesis by blast
qed

lemma expired_fields:
  "reachable expired" "apShutdownAt expired = 113260" "millis expired = 113280"
  "runState expired = CONNECTED"
  unfolding expired_def
  by (rule reachable.elapse [OF reachable_lingering])
     (simp_all add: lingering_fields millis_def)

theorem shutdown_deadline_needs_connected_witness:
  "reachable expired \<and> apShutdownAt expired = 113260 \<and> millis expired = 113280 \<and>
   runState expired = CONNECTED \<and>
   (\<exists>s'. loop idle_tick expired = Some s' \<and>
         \<not> serverRunning s' \<and> \<not> dnsRunning s' \<and> apShutdownAt s' = 0)"
  using shutdown_deadline_needs_connected [OF expired_fields(1), of idle_tick]
  by (simp add: expired_fields)

lemma persisted_env:
  "link (persisted ssid pass st) = link st" "polls (persisted ssid pass st) = polls st"
  "localIP (persisted ssid pass st) = localIP st" "clock (persisted ssid pass st) = clock st"
  "apShutdownAt (persisted ssid pass st) = apShutdownAt st"
  by (simp_all add: persisted_def saveCredentialsToNVS_def putString_def putUChar_def log_event_def)

lemma handleSave_alt:
  assumes "valid_save req"
  shows "handleSave req st =
     (case tryConnectWhileAp (server_arg req ''ssid'') (server_arg req ''pass'') MAX_RETRIES
             CONNECT_TIMEOUT_MS (persisted (server_arg req ''ssid'') (server_arg req ''pass'') st) of
        None \<Rightarrow> None
      | Some (True, st4) \<Rightarrow>
          Some (st4\<lparr>trace := trace st4 @ [reply_connected (server_arg req ''ssid'') (localIP st4)],
                   lastHttpActivityMs := clock st4, apShutdownAt := clock st4 + 40000,
                   runState := CONNECTED, led01 := True, led02 := False\<rparr>)
      | Some (False, st4) \<Rightarrow>
          Some (st4\<lparr>trace := trace st4 @ [reply_failed], lastHttpActivityMs := clock st4,
                   runState := AP_SETUP\<rparr>))"
  using assms
  by (simp add: handleSave_def valid_save_def Let_def persisted_def server_send_def
      log_event_def millis_def showConnected_def reply_connected_def reply_failed_def
      split: option.splits bool.splits)

lemma good_save_args:
  "server_arg good_save ''ssid'' = ''home''" "server_arg good_save ''pass'' = ''secret123''"
  "valid_save good_save"
  by (simp_all add: server_arg_def good_save_def valid_save_def)

lemma handleSave_portal:
  "tryConnectWhileAp ''home'' ''secret123'' MAX_RETRIES CONNECT_TIMEOUT_MS
     (persisted ''home'' ''secret123'' portal) =
   Some (True, coexist_attempt ''home'' ''secret123'' 0 True (persisted ''home'' ''secret123'' portal))"
  "handleSave good_save portal =
   Some ((coexist_attempt ''home'' ''secret123'' 0 True (persisted ''home'' ''secret123'' portal))
     \<lparr>trace := trace portal @ [PutString ''ssid'' ''home'', PutString ''pass'' ''secret123'',
        PutUChar ''prov'' 1, WifiMode WIFI_AP_STA, WifiBegin ''home'' ''secret123'',
        reply_connected ''home'' ''192.168.1.23''],
      lastHttpActivityMs := 73260, apShutdownAt := 113260,
      runState := CONNECTED, led01 := True, led02 := False\<rparr>)"
proof -
  have l: "link (persisted ''home'' ''secret123'' portal) (polls (persisted ''home'' ''secret123'' portal))"
    by (simp add: persisted_env portal_fields)
  show t: "tryConnectWhileAp ''home'' ''secret123'' MAX_RETRIES CONNECT_TIMEOUT_MS
     (persisted ''home'' ''secret123'' portal) =
   Some (True, coexist_attempt ''home'' ''secret123'' 0 True (persisted ''home'' ''secret123'' portal))"
    by (rule tryConnectWhileAp_first [OF l])
  show "handleSave good_save portal =
   Some ((coexist_attempt ''home'' ''secret123'' 0 True (persisted ''home'' ''secret123'' portal))
     \<lparr>trace := trace portal @ [PutString ''ssid'' ''home'', PutString ''pass'' ''secret123'',
        PutUChar ''prov'' 1, WifiMode WIFI_AP_STA, WifiBegin ''home'' ''secret123'',
        reply_connected ''home'' ''192.168.1.23''],
      lastHttpActivityMs := 73260, apShutdownAt := 113260,
      runState := CONNECTED, led01 := True, led02 := False\<rparr>)"
    by (simp add: handleSave_alt good_save_args t)
       (simp add: coexist_attempt_def persisted_env persisted_fields portal_fields)
qed

lemma handleSave_fresh:
  "tryConnectWhileAp ''home'' ''secret123'' MAX_RETRIES CONNECT_TIMEOUT_MS
     (persisted ''home'' ''secret123'' fresh) =
   Some (False, coexist_attempt ''home'' ''secret123'' 100 False (persisted ''home'' ''secret123'' fresh))"
proof -
  have l: "\<forall>n<100. \<not> link (persisted ''home'' ''secret123'' fresh)
             (polls (persisted ''home'' ''secret123'' fresh) + n)"
    by (simp add: persisted_env) (simp add: fresh_def)
  show ?thesis by (rule tryConnectWhileAp_never [OF l])
qed

lemma station_loop_connects:
  assumes "attempt < maxRetries" "link st (polls st)"
  shows "station_loop ssid pass maxRetries 10000 attempt st =
         Some (True, st\<lparr>clock := clock st + 50, wifiMode := WIFI_STA, polls := Suc (polls st),
                 trace := trace st @ [WifiDisconnect, Delay 50, WifiMode WIFI_STA,
                                      WifiBegin ssid pass]\<rparr>)"
proof -
  let ?st4 = "WiFi_begin ssid pass (WiFi_mode WIFI_STA (delay 50 (WiFi_disconnect st)))"
  have st4: "?st4 = st\<lparr>clock := clock st + 50, wifiMode := WIFI_STA,
        trace := trace st @ [WifiDisconnect, Delay 50, WifiMode WIFI_STA, WifiBegin ssid pass]\<rparr>"
    by (simp add: WiFi_begin_def WiFi_mode_def delay_def WiFi_disconnect_def log_event_def)
  have "poll_status (millis ?st4) 10000 ?st4 = Some (True, WiFi_polled ?st4)"
    using assms(2) unfolding st4
    by (subst poll_status.simps) (simp add: millis_def WiFi_connected_def)
  then show ?thesis
    using assms(1) unfolding st4
    by (subst station_loop.simps)
       (simp add: Let_def WiFi_polled_def WiFi_begin_def WiFi_mode_def delay_def
          WiFi_disconnect_def log_event_def)
qed

text \<open>
  Claim C2 on the code. The network comes up after 100 status polls, that is 10 s after the
  call. \<^verbatim>\<open>tryConnectStation\<close> with \<^verbatim>\<open>maxRetries = 5\<close> times out once, waits 1 s and
  connects on its second attempt. \<^verbatim>\<open>tryConnectWhileAp\<close> with the same arguments makes one
  attempt, never waits a backoff and returns \<open>False\<close>: it does not read \<^verbatim>\<open>maxRetries\<close>.
\<close>

theorem coexisting_connect_makes_one_attempt:
  "map_option fst (tryConnectStation ''home'' ''secret123'' 5 CONNECT_TIMEOUT_MS late) = Some True \<and>
   attempts (run_log (tryConnectStation ''home'' ''secret123'' 5 CONNECT_TIMEOUT_MS late)) = 2 \<and>
   backoffs (run_log (tryConnectStation ''home'' ''secret123'' 5 CONNECT_TIMEOUT_MS late)) =
     [Delay 1000] \<and>
   map_option fst (tryConnectWhileAp ''home'' ''secret123'' 5 CONNECT_TIMEOUT_MS late) = Some False \<and>
   attempts (run_log (tryConnectWhileAp ''home'' ''secret123'' 5 CONNECT_TIMEOUT_MS late)) = 1 \<and>
   backoffs (run_log (tryConnectWhileAp ''home'' ''secret123'' 5 CONNECT_TIMEOUT_MS late)) = [] \<and>
   blocking_ms (run_log (tryConnectWhileAp ''home'' ''secret123'' 5 CONNECT_TIMEOUT_MS late)) = 10000"
proof -
  have f: "polls late = 0" "link late = (\<lambda>n. 100 \<le> n)" "trace late = []"
    by (simp_all add: late_def fresh_def)
  have n: "\<forall>n<100. \<not> link late (polls late + n)" by (simp add: f)
  let ?st1 = "delay (backoff_ms 0) (timed_out_attempt ''home'' ''secret123'' late)"
  have l: "link ?st1 (polls ?st1)" by (simp add: timed_out_env f)
  have "station_loop ''home'' ''secret123'' 5 10000 0 late =
        Some (True, ?st1\<lparr>clock := clock ?st1 + 50, wifiMode := WIFI_STA, polls := Suc (polls ?st1),
                 trace := trace ?st1 @ [WifiDisconnect, Delay 50, WifiMode WIFI_STA,
                                      WifiBegin ''home'' ''secret123'']\<rparr>)"
    by (subst station_loop_timeout [OF n], simp)
       (subst station_loop_connects [OF _ l], simp_all)
  then have s: "tryConnectStation ''home'' ''secret123'' 5 CONNECT_TIMEOUT_MS late =
        Some (True, ?st1\<lparr>clock := clock ?st1 + 50, wifiMode := WIFI_STA, polls := Suc (polls ?st1),
                 trace := trace ?st1 @ [WifiDisconnect, Delay 50, WifiMode WIFI_STA,
                                      WifiBegin ''home'' ''secret123'']\<rparr>)"
    by (simp add: tryConnectStation_def CONNECT_TIMEOUT_MS_def)
  have a: "tryConnectWhileAp ''home'' ''secret123'' 5 CONNECT_TIMEOUT_MS late =
        Some (False, coexist_attempt ''home'' ''secret123'' 100 False late)"
    by (rule tryConnectWhileAp_never [OF n])
  have o: "attempts (replicate k (Delay 100)) = 0" "backoffs (replicate k (Delay 100)) = []"
    "blocking_ms (replicate k (Delay 100)) = 100 * k" for k
    by (simp_all add: attempts_def backoffs_def blocking_ms_def sum_list_replicate)
  have o': "attempts (WifiMode m # xs) = attempts xs" "backoffs (WifiMode m # xs) = backoffs xs"
    "blocking_ms (WifiMode m # xs) = blocking_ms xs"
    "attempts (WifiBegin u v # xs) = Suc (attempts xs)" "backoffs (WifiBegin u v # xs) = backoffs xs"
    "blocking_ms (WifiBegin u v # xs) = blocking_ms xs"
    "attempts (WifiDisconnect # xs) = attempts xs" "backoffs (WifiDisconnect # xs) = backoffs xs"
    for m u v xs
    by (simp_all add: attempts_def backoffs_def blocking_ms_def)
  show ?thesis
    unfolding s a
    by (simp add: run_log_def coexist_attempt_def f delay_def timed_out_attempt_def log_event_def
        backoff_values obs_append obs_delay attempt_events_obs o o')
qed

lemma next_startup_uses_saved:
  assumes "prefs st' = pf(''ssid'' \<mapsto> Str ssid, ''pass'' \<mapsto> Str pass, ''prov'' \<mapsto> UChar 1)"
  shows "\<exists>s'' tr. setup_main (boot st') = Some s'' \<and> trace s'' = trace st' @ [Delay 10] @ tr \<and>
           currentSsid s'' = ssid \<and> currentPass s'' = pass \<and> set (begun tr) = {(ssid, pass)}"
proof -
  have p: "getUChar ''prov'' 0 (boot st') = 1" "getString ''ssid'' [] (boot st') = ssid"
    "getString ''pass'' [] (boot st') = pass" "trace (boot st') = trace st'"
    using assms by (simp_all add: getUChar_def getString_def boot_def)
  from setup_main_credentials [of "boot st'"] show ?thesis
    by (simp add: setup_loaded_fields p)
qed

text \<open>
  Claim C10. A valid \<^verbatim>\<open>POST /save\<close> first writes \<^verbatim>\<open>ssid\<close>, \<^verbatim>\<open>pass\<close> and \<^verbatim>\<open>prov = 1\<close> to the
  store and copies the pair into \<^verbatim>\<open>currentSsid\<close> and \<^verbatim>\<open>currentPass\<close>; the connection attempt
  starts from that state, and the log shows the three store writes before \<^verbatim>\<open>WiFi.begin\<close>.
  When the attempt fails, the response is status 500 and the store and the working copy
  still hold the new pair; the next \<^verbatim>\<open>setup()\<close> loads it and connects with it.
\<close>

theorem save_keeps_untested_credentials:
  assumes "length (server_arg req ''ssid'') \<noteq> 0" "8 \<le> length (server_arg req ''pass'')"
  shows "\<exists>b st4 st' rest.
     prefs (persisted (server_arg req ''ssid'') (server_arg req ''pass'') st) =
       (prefs st)(''ssid'' \<mapsto> Str (server_arg req ''ssid''),
                  ''pass'' \<mapsto> Str (server_arg req ''pass''), ''prov'' \<mapsto> UChar 1) \<and>
     currentSsid (persisted (server_arg req ''ssid'') (server_arg req ''pass'') st) =
       server_arg req ''ssid'' \<and>
     currentPass (persisted (server_arg req ''ssid'') (server_arg req ''pass'') st) =
       server_arg req ''pass'' \<and>
     tryConnectWhileAp (server_arg req ''ssid'') (server_arg req ''pass'') MAX_RETRIES
       CONNECT_TIMEOUT_MS (persisted (server_arg req ''ssid'') (server_arg req ''pass'') st) =
       Some (b, st4) \<and>
     handleSave req st = Some st' \<and>
     trace st' = trace st @
       [PutString ''ssid'' (server_arg req ''ssid''), PutString ''pass'' (server_arg req ''pass''),
        PutUChar ''prov'' 1, WifiMode WIFI_AP_STA,
        WifiBegin (server_arg req ''ssid'') (server_arg req ''pass'')] @ rest \<and>
     (\<not> b \<longrightarrow>
        last (trace st') =
          ServerSend 500 ''text/plain''
            (Text ''Failed to connect, please check credentials and try again.'') \<and>
        prefs st' = (prefs st)(''ssid'' \<mapsto> Str (server_arg req ''ssid''),
                               ''pass'' \<mapsto> Str (server_arg req ''pass''), ''prov'' \<mapsto> UChar 1) \<and>
        currentSsid st' = server_arg req ''ssid'' \<and> currentPass st' = server_arg req ''pass'' \<and>
        (\<exists>s'' tr. setup_main (boot st') = Some s'' \<and>
           trace s'' = trace st' @ [Delay 10] @ tr \<and>
           currentSsid s'' = server_arg req ''ssid'' \<and> currentPass s'' = server_arg req ''pass'' \<and>
           set (begun tr) = {(server_arg req ''ssid'', server_arg req ''pass'')}))"
proof -
  let ?ssid = "server_arg req ''ssid''" and ?pass = "server_arg req ''pass''"
  from assms have v: "valid_save req" by (simp add: valid_save_def)
  from tryConnectWhileAp_result [of ?ssid ?pass MAX_RETRIES "persisted ?ssid ?pass st"]
  obtain b k where
    r: "tryConnectWhileAp ?ssid ?pass MAX_RETRIES CONNECT_TIMEOUT_MS (persisted ?ssid ?pass st) =
          Some (b, coexist_attempt ?ssid ?pass k b (persisted ?ssid ?pass st))"
    by blast
  let ?st4 = "coexist_attempt ?ssid ?pass k b (persisted ?ssid ?pass st)"
  obtain st' where st': "handleSave req st = Some st'"
    using r by (cases b) (simp_all add: handleSave_alt [OF v])
  let ?rest = "replicate k (Delay 100) @
                 [if b then reply_connected ?ssid (localIP st) else reply_failed]"
  have t: "trace st' = trace st @
       [PutString ''ssid'' ?ssid, PutString ''pass'' ?pass, PutUChar ''prov'' 1,
        WifiMode WIFI_AP_STA, WifiBegin ?ssid ?pass] @ ?rest"
    using st' r
    by (cases b)
       (auto simp: handleSave_alt [OF v] coexist_attempt_def persisted_fields persisted_env)
  have f: "last (trace st') =
          ServerSend 500 ''text/plain''
            (Text ''Failed to connect, please check credentials and try again.'') \<and>
        prefs st' = (prefs st)(''ssid'' \<mapsto> Str ?ssid, ''pass'' \<mapsto> Str ?pass, ''prov'' \<mapsto> UChar 1) \<and>
        currentSsid st' = ?ssid \<and> currentPass st' = ?pass" if "\<not> b"
    using st' r that
    by (auto simp: handleSave_alt [OF v] coexist_attempt_def persisted_fields reply_failed_def)
  have n: "\<exists>s'' tr. setup_main (boot st') = Some s'' \<and>
           trace s'' = trace st' @ [Delay 10] @ tr \<and>
           currentSsid s'' = ?ssid \<and> currentPass s'' = ?pass \<and>
           set (begun tr) = {(?ssid, ?pass)}" if "\<not> b"
    using f [OF that] by (intro next_startup_uses_saved [of st' "prefs st"]) simp
  show ?thesis
    using r st' t f n persisted_fields(1-3) [of ?ssid ?pass st]
    by (intro exI [of _ b] exI [of _ ?st4] exI [of _ st'] exI [of _ ?rest]) blast
qed

theorem save_keeps_untested_credentials_witness:
  "\<exists>st' rest.
     handleSave good_save fresh = Some st' \<and>
     trace st' = trace fresh @
       [PutString ''ssid'' ''home'', PutString ''pass'' ''secret123'',
        PutUChar ''prov'' 1, WifiMode WIFI_AP_STA, WifiBegin ''home'' ''secret123''] @ rest \<and>
     last (trace st') =
       ServerSend 500 ''text/plain''
         (Text ''Failed to connect, please check credentials and try again.'') \<and>
     prefs st' = (prefs fresh)(''ssid'' \<mapsto> Str ''home'', ''pass'' \<mapsto> Str ''secret123'',
                               ''prov'' \<mapsto> UChar 1) \<and>
     currentSsid st' = ''home'' \<and> currentPass st' = ''secret123'' \<and>
     (\<exists>s'' tr. setup_main (boot st') = Some s'' \<and>
        trace s'' = trace st' @ [Delay 10] @ tr \<and>
        currentSsid s'' = ''home'' \<and> currentPass s'' = ''secret123'' \<and>
        set (begun tr) = {(''home'', ''secret123'')})"
proof -
  have v: "length (server_arg good_save ''ssid'') \<noteq> 0" "8 \<le> length (server_arg good_save ''pass'')"
    by (simp_all add: good_save_args)
  from save_keeps_untested_credentials [OF v, of fresh]
  show ?thesis
    unfolding good_save_args(1,2) handleSave_fresh by auto
qed

lemma showSetupPattern_frame:
  "\<exists>l1 l2 ph ps. showSetupPattern st =
     st\<lparr>led01 := l1, led02 := l2, setupPhase := ph, setupPhaseStartMs := ps\<rparr>"
proof -
  have "showSetupPattern st =
     st\<lparr>led01 := led01 (showSetupPattern st), led02 := led02 (showSetupPattern st),
        setupPhase := setupPhase (showSetupPattern st),
        setupPhaseStartMs := setupPhaseStartMs (showSetupPattern st)\<rparr>"
    by (simp add: showSetupPattern_def Let_def split: SetupPhase.splits)
  then show ?thesis by blast
qed

lemma handled_resets_idle:
  assumes "handleClient r st = Some s2" "idle_elapsed s2"
  shows "s2 = st"
proof -
  from handleClient_effect [of r st] assms(1)
  have "s2 = st \<or> lastHttpActivityMs s2 = clock s2" by auto
  with assms(2) show ?thesis
    by (auto simp: idle_elapsed_def millis_def AP_IDLE_TIMEOUT_MS_def)
qed

lemma loop_rest_log:
  "\<exists>rest. trace (loop_rest v st) = trace st @ rest \<and> attempts rest = 0 \<and>
     (runState st \<noteq> CONNECTED \<longrightarrow> ServerStop \<notin> set rest \<and> DnsStop \<notin> set rest)"
proof -
  let ?sd = "loop_shutdown st"
  have 1: "\<exists>r1. trace ?sd = trace st @ r1 \<and> attempts r1 = 0 \<and>
            (runState st \<noteq> CONNECTED \<longrightarrow> r1 = [])"
  proof (cases "runState st = CONNECTED \<and> apShutdownAt st \<noteq> 0 \<and> apShutdownAt st \<le> millis st")
    case True
    then have "trace ?sd = trace st @ [ServerStop, DnsStop]"
      by (simp add: loop_shutdown_def stopCaptiveAP_def log_event_def Let_def)
    with True show ?thesis by (simp add: attempts_def)
  next
    case False
    then have "trace ?sd = trace st @ []" by (auto simp: loop_shutdown_def)
    then show ?thesis by (metis obs_delay(4))
  qed
  let ?fr = "factoryResetCheck v ?sd"
  have 2: "\<exists>r2. trace ?fr = trace ?sd @ r2 \<and> attempts r2 = 0 \<and>
            ServerStop \<notin> set r2 \<and> DnsStop \<notin> set r2"
  proof (cases "v \<and> factoryBtnHeld ?sd \<and> 10000 \<le> millis ?sd - factoryBtnPressStartMs ?sd")
    case True
    then have "trace ?fr = trace ?sd @ [PrefsClear, PutUChar ''prov'' 0] @ replicate 16 (Delay 100)
                   @ [Delay 200, Restart]"
      by (simp add: factoryResetCheck_def performFactoryReset_result)
    then show ?thesis by (simp add: attempts_def)
  next
    case False
    then have "trace ?fr = trace ?sd @ []"
      by (auto simp: factoryResetCheck_def Let_def)
    then show ?thesis by (metis obs_delay(4) empty_iff empty_set)
  qed
  have 3: "\<exists>r3. trace (loop_rest v st) = trace ?fr @ r3 \<and> attempts r3 = 0 \<and>
            ServerStop \<notin> set r3 \<and> DnsStop \<notin> set r3"
  proof (cases "restarted ?fr")
    case True
    then have "trace (loop_rest v st) = trace ?fr @ []" by (simp add: loop_rest_def Let_def)
    then show ?thesis by (metis obs_delay(4) empty_iff empty_set)
  next
    case False
    then have "trace (loop_rest v st) = trace ?fr @ [Delay 20]"
      by (simp add: loop_rest_def Let_def delay_def log_event_def)
    then show ?thesis by (simp add: attempts_def)
  qed
  from 1 obtain r1 where r1: "trace ?sd = trace st @ r1" "attempts r1 = 0"
    "runState st \<noteq> CONNECTED \<longrightarrow> r1 = []" by blast
  from 2 obtain r2 where r2: "trace ?fr = trace ?sd @ r2" "attempts r2 = 0"
    "ServerStop \<notin> set r2" "DnsStop \<notin> set r2" by blast
  from 3 obtain r3 where r3: "trace (loop_rest v st) = trace ?fr @ r3" "attempts r3 = 0"
    "ServerStop \<notin> set r3" "DnsStop \<notin> set r3" by blast
  have "trace (loop_rest v st) = trace st @ (r1 @ r2 @ r3)"
    by (simp add: r1(1) r2(1) r3(1))
  moreover have "attempts (r1 @ r2 @ r3) = 0"
    by (simp add: obs_append r1(2) r2(2) r3(2))
  moreover have "runState st \<noteq> CONNECTED \<longrightarrow>
      ServerStop \<notin> set (r1 @ r2 @ r3) \<and> DnsStop \<notin> set (r1 @ r2 @ r3)"
    using r1(3) r2(3,4) r3(3,4) by auto
  ultimately show ?thesis by blast
qed

text \<open>
  Claim C7. Take a pass of \<^verbatim>\<open>loop()\<close> that starts in \<^verbatim>\<open>AP_SETUP\<close> and finds the idle time
  exceeded when it tests it, after \<^verbatim>\<open>server.handleClient()\<close>. Then no request was served
  in this pass, and the pass makes exactly one connection attempt: the call
  \<^verbatim>\<open>tryConnectWhileAp(currentSsid, currentPass, 1, CONNECT_TIMEOUT_MS)\<close>, logged as one
  \<^verbatim>\<open>WiFi.mode(WIFI_AP_STA)\<close>, one \<^verbatim>\<open>WiFi.begin\<close> and its polls. When that attempt fails,
  \<^verbatim>\<open>runState\<close> is still \<^verbatim>\<open>AP_SETUP\<close>, the HTTP and DNS services are as before and neither
  \<^verbatim>\<open>stop\<close> is called, \<^verbatim>\<open>apShutdownAt\<close> is unchanged, and \<^verbatim>\<open>lastHttpActivityMs\<close> is the time
  at which the idle test was made.
\<close>

theorem idle_retry_keeps_portal:
  assumes "runState st = AP_SETUP"
    and "handleClient (request inp) (loop_leds st) = Some s2"
    and "AP_IDLE_TIMEOUT_MS < millis s2 - lastHttpActivityMs s2"
  shows "\<exists>b st3 s' k rest.
     s2 = loop_leds st \<and>
     tryConnectWhileAp (currentSsid st) (currentPass st) 1 CONNECT_TIMEOUT_MS
       (s2\<lparr>lastHttpActivityMs := millis s2\<rparr>) = Some (b, st3) \<and>
     loop inp st = Some s' \<and>
     trace s' = trace st @ [WifiMode WIFI_AP_STA, WifiBegin (currentSsid st) (currentPass st)]
                 @ replicate k (Delay 100) @ rest \<and>
     attempts rest = 0 \<and>
     (\<not> b \<longrightarrow>
        runState s' = AP_SETUP \<and>
        serverRunning s' = serverRunning st \<and> dnsRunning s' = dnsRunning st \<and>
        ServerStop \<notin> set rest \<and> DnsStop \<notin> set rest \<and>
        apShutdownAt s' = apShutdownAt st \<and>
        lastHttpActivityMs s' = millis st)"
proof -
  let ?L = "loop_leds st"
  from assms(3) have e: "idle_elapsed s2" by (simp add: idle_elapsed_def)
  from handled_resets_idle [OF assms(2) e] have s2: "s2 = ?L" .
  from assms(1) showSetupPattern_frame [of st] obtain l1 l2 ph ps where
    L: "?L = st\<lparr>led01 := l1, led02 := l2, setupPhase := ph, setupPhaseStartMs := ps\<rparr>"
    by (auto simp: loop_leds_def)
  let ?st1 = "?L\<lparr>lastHttpActivityMs := millis ?L\<rparr>"
  from tryConnectWhileAp_result [of "currentSsid st" "currentPass st" 1 ?st1] obtain b k where
    r: "tryConnectWhileAp (currentSsid st) (currentPass st) 1 CONNECT_TIMEOUT_MS ?st1 =
          Some (b, coexist_attempt (currentSsid st) (currentPass st) k b ?st1)"
    by blast
  let ?st3 = "coexist_attempt (currentSsid st) (currentPass st) k b ?st1"
  define st2 where "st2 = (if b then (showConnected (?st3\<lparr>runState := CONNECTED\<rparr>))
      \<lparr>apShutdownAt := millis (showConnected (?st3\<lparr>runState := CONNECTED\<rparr>)) + 40000\<rparr>
    else ?st3)"
  have cs: "currentSsid ?L = currentSsid st" "currentPass ?L = currentPass st"
    "runState ?L = AP_SETUP"
    using assms(1) by (simp_all add: L)
  have i: "idle_retry ?L = Some st2"
    using e r unfolding s2
    by (cases b) (simp_all add: idle_retry_def idle_elapsed_def Let_def cs st2_def)
  have lp: "loop inp st = Some (loop_rest (pressed inp) st2)"
    using assms(2) i unfolding s2 by (simp add: loop_alt loop_ap_def cs)
  from loop_rest_log [of "pressed inp" st2] obtain rest where
    rest: "trace (loop_rest (pressed inp) st2) = trace st2 @ rest" "attempts rest = 0"
      "runState st2 \<noteq> CONNECTED \<longrightarrow> ServerStop \<notin> set rest \<and> DnsStop \<notin> set rest"
    by blast
  have t2: "trace st2 = trace st @ [WifiMode WIFI_AP_STA, WifiBegin (currentSsid st) (currentPass st)]
                 @ replicate k (Delay 100)"
    by (simp add: st2_def coexist_attempt_def showConnected_def L)
  have f: "runState (loop_rest (pressed inp) st2) = AP_SETUP \<and>
        serverRunning (loop_rest (pressed inp) st2) = serverRunning st \<and>
        dnsRunning (loop_rest (pressed inp) st2) = dnsRunning st \<and>
        ServerStop \<notin> set rest \<and> DnsStop \<notin> set rest \<and>
        apShutdownAt (loop_rest (pressed inp) st2) = apShutdownAt st \<and>
        lastHttpActivityMs (loop_rest (pressed inp) st2) = millis st" if "\<not> b"
  proof -
    from that have st2: "st2 = ?st3" by (simp add: st2_def)
    have rs: "runState st2 = AP_SETUP"
      using assms(1) by (simp add: st2 coexist_attempt_def L)
    then have sd: "loop_shutdown st2 = st2" by (simp add: loop_shutdown_def)
    from rs rest(3) have "ServerStop \<notin> set rest \<and> DnsStop \<notin> set rest" by simp
    then show ?thesis
      using rs by (simp add: loop_rest_services sd) (simp add: st2 coexist_attempt_def L millis_def)
  qed
  show ?thesis
    using s2 r [folded s2] lp rest(1,2) t2 f
    by (intro exI [of _ b] exI [of _ ?st3] exI [of _ "loop_rest (pressed inp) st2"]
          exI [of _ k] exI [of _ rest])
       (simp add: s2)
qed

lemma idle_portal_fields:
  "runState idle_portal = AP_SETUP" "clock idle_portal = 10674261"
  "lastHttpActivityMs idle_portal = 73260" "serverRunning idle_portal" "dnsRunning idle_portal"
  "apShutdownAt idle_portal = 0" "polls idle_portal = 500" "link idle_portal = (\<lambda>n. False)"
  "currentSsid idle_portal = DUMMY_SSID" "currentPass idle_portal = DUMMY_PASS"
  "trace idle_portal = trace portal"
  by (simp_all add: idle_portal_def portal_fields)

theorem idle_retry_keeps_portal_witness:
  "\<exists>s' k rest.
     loop idle_tick idle_portal = Some s' \<and>
     trace s' = trace idle_portal @ [WifiMode WIFI_AP_STA, WifiBegin ''DummY'' ''dummy001'']
                 @ replicate k (Delay 100) @ rest \<and>
     attempts rest = 0 \<and>
     runState s' = AP_SETUP \<and> serverRunning s' \<and> dnsRunning s' \<and>
     ServerStop \<notin> set rest \<and> DnsStop \<notin> set rest \<and>
     apShutdownAt s' = 0 \<and> lastHttpActivityMs s' = 10674261"
proof -
  let ?L = "loop_leds idle_portal"
  from showSetupPattern_frame [of idle_portal] obtain l1 l2 ph ps where
    L: "?L = idle_portal\<lparr>led01 := l1, led02 := l2, setupPhase := ph, setupPhaseStartMs := ps\<rparr>"
    by (auto simp: loop_leds_def idle_portal_fields)
  have 1: "runState idle_portal = AP_SETUP" by (simp add: idle_portal_fields)
  have 2: "handleClient (request idle_tick) ?L = Some ?L"
    by (simp add: handleClient_def idle_tick_def)
  have 3: "AP_IDLE_TIMEOUT_MS < millis ?L - lastHttpActivityMs ?L"
    by (simp add: L millis_def idle_portal_fields AP_IDLE_TIMEOUT_MS_def)
  have n: "\<forall>n<100. \<not> link (?L\<lparr>lastHttpActivityMs := millis ?L\<rparr>)
             (polls (?L\<lparr>lastHttpActivityMs := millis ?L\<rparr>) + n)"
    by (simp add: L idle_portal_fields)
  from idle_retry_keeps_portal [OF 1 2 3]
  show ?thesis
    unfolding tryConnectWhileAp_never [OF n]
    by (auto simp: idle_portal_fields millis_def DUMMY_SSID_def DUMMY_PASS_def)
qed

lemma showSetupPattern_table:
  "setupPhase (showSetupPattern st) =
     (if phase_ms (setupPhase st) \<le> millis st - setupPhaseStartMs st
      then next_phase (setupPhase st) else setupPhase st)"
  "setupPhaseStartMs (showSetupPattern st) =
     (if phase_ms (setupPhase st) \<le> millis st - setupPhaseStartMs st
      then millis st else setupPhaseStartMs st)"
  by (cases "setupPhase st"; simp add: showSetupPattern_def Let_def)+

lemma startCaptiveAP_fields:
  "setupPhase (startCaptiveAP st) = BLINK1_ON"
  "setupPhaseStartMs (startCaptiveAP st) = millis st"
  "runState (startCaptiveAP st) = AP_SETUP"
  "clock (startCaptiveAP st) = clock st"
  by (simp_all add: startCaptiveAP_def WiFi_mode_def log_event_def millis_def Let_def)

lemma setup_main_entry:
  assumes "setup_main st = Some s'" "runState s' = AP_SETUP"
  shows "setupPhase s' = BLINK1_ON \<and> setupPhaseStartMs s' = millis s'"
proof -
  from setup_main_result [of st] assms(1) obtain b c p tr w where
    "s' = (let st7 = (setup_loaded st)\<lparr>clock := c, polls := p,
                          trace := trace (setup_loaded st) @ tr, wifiMode := w\<rparr>
             in if b then showConnected (st7\<lparr>runState := CONNECTED\<rparr>)
                else (startCaptiveAP st7)\<lparr>runState := AP_SETUP\<rparr>)"
    by auto
  with assms(2) show ?thesis
    by (cases b) (simp_all add: Let_def showConnected_def startCaptiveAP_fields millis_def)
qed

lemma loop_no_entry:
  assumes "loop inp st = Some s'" "runState s' = AP_SETUP"
  shows "runState st = AP_SETUP"
proof (rule ccontr)
  assume n: "runState st \<noteq> AP_SETUP"
  then have "loop_ap (request inp) (loop_leds st) = Some (loop_leds st)"
    by (simp add: loop_ap_def loop_leds_runState)
  with assms(1) have "s' = loop_rest (pressed inp) (loop_leds st)" by (simp add: loop_alt)
  then have "runState s' = runState st" by (simp add: loop_rest_services loop_leds_runState)
  with assms(2) n show False by simp
qed

lemma idle_pass:
  assumes "runState st = AP_SETUP" "\<not> idle_elapsed st" "\<not> restarted st"
  shows "loop idle_tick st =
         Some (delay 20 ((showSetupPattern st)\<lparr>factoryBtnHeld := False\<rparr>))"
proof -
  from showSetupPattern_frame [of st] obtain l1 l2 ph ps where
    L: "showSetupPattern st =
          st\<lparr>led01 := l1, led02 := l2, setupPhase := ph, setupPhaseStartMs := ps\<rparr>"
    by blast
  have "idle_retry (showSetupPattern st) = Some (showSetupPattern st)"
    using assms(2) by (simp add: idle_retry_def idle_elapsed_def L millis_def)
  then show ?thesis
    using assms(1,3)
    by (simp add: loop_alt loop_leds_def loop_ap_def handleClient_def idle_tick_def)
       (simp add: L loop_rest_def loop_shutdown_def factoryResetCheck_def Let_def)
qed

lemma first_blink_explicit:
  "loop idle_tick (portal\<lparr>clock := clock portal + 200\<rparr>) = Some first_blink"
  "first_blink = portal\<lparr>setupPhase := BLINK1_OFF, setupPhaseStartMs := 73460, led01 := False,
     led02 := False, clock := 73480, factoryBtnHeld := False, trace := trace portal @ [Delay 20]\<rparr>"
proof -
  let ?p = "portal\<lparr>clock := clock portal + 200\<rparr>"
  have "loop idle_tick ?p = Some (delay 20 ((showSetupPattern ?p)\<lparr>factoryBtnHeld := False\<rparr>))"
    by (rule idle_pass)
       (simp_all add: portal_fields idle_elapsed_def millis_def AP_IDLE_TIMEOUT_MS_def)
  moreover have "delay 20 ((showSetupPattern ?p)\<lparr>factoryBtnHeld := False\<rparr>) =
     portal\<lparr>setupPhase := BLINK1_OFF, setupPhaseStartMs := 73460, led01 := False,
     led02 := False, clock := 73480, factoryBtnHeld := False, trace := trace portal @ [Delay 20]\<rparr>"
    by (simp add: showSetupPattern_def portal_fields millis_def delay_def log_event_def Let_def)
  ultimately show "loop idle_tick ?p = Some first_blink"
    "first_blink = portal\<lparr>setupPhase := BLINK1_OFF, setupPhaseStartMs := 73460, led01 := False,
     led02 := False, clock := 73480, factoryBtnHeld := False, trace := trace portal @ [Delay 20]\<rparr>"
    by (simp_all add: first_blink_def)
qed

lemma second_blink_explicit:
  "loop idle_tick (first_blink\<lparr>clock := clock first_blink + 200\<rparr>) = Some second_blink"
  "second_blink = portal\<lparr>setupPhase := BLINK2_ON, setupPhaseStartMs := 73680, led01 := True,
     led02 := True, clock := 73700, factoryBtnHeld := False,
     trace := trace portal @ [Delay 20, Delay 20]\<rparr>"
proof -
  let ?p = "first_blink\<lparr>clock := clock first_blink + 200\<rparr>"
  have "loop idle_tick ?p = Some (delay 20 ((showSetupPattern ?p)\<lparr>factoryBtnHeld := False\<rparr>))"
    by (rule idle_pass)
       (simp_all add: first_blink_explicit(2) portal_fields idle_elapsed_def millis_def
          AP_IDLE_TIMEOUT_MS_def)
  moreover have "delay 20 ((showSetupPattern ?p)\<lparr>factoryBtnHeld := False\<rparr>) =
     portal\<lparr>setupPhase := BLINK2_ON, setupPhaseStartMs := 73680, led01 := True,
     led02 := True, clock := 73700, factoryBtnHeld := False,
     trace := trace portal @ [Delay 20, Delay 20]\<rparr>"
    by (simp add: showSetupPattern_def first_blink_explicit(2) portal_fields millis_def delay_def
        log_event_def Let_def)
  ultimately show "loop idle_tick ?p = Some second_blink"
    "second_blink = portal\<lparr>setupPhase := BLINK2_ON, setupPhaseStartMs := 73680, led01 := True,
     led02 := True, clock := 73700, factoryBtnHeld := False,
     trace := trace portal @ [Delay 20, Delay 20]\<rparr>"
    by (simp_all add: second_blink_def)
qed

lemma reachable_second_blink: "reachable second_blink"
proof -
  have "reachable (portal\<lparr>clock := clock portal + 200\<rparr>)"
    by (rule reachable.elapse [OF reachable_portal])
  then have "reachable first_blink"
    by (rule reachable.tick [OF _ _ first_blink_explicit(1)]) (simp add: portal_fields)
  then have "reachable (first_blink\<lparr>clock := clock first_blink + 200\<rparr>)"
    by (rule reachable.elapse)
  then show ?thesis
    by (rule reachable.tick [OF _ _ second_blink_explicit(1)])
       (simp add: first_blink_explicit(2) portal_fields)
qed

lemma button_samples_restarted: "restarted st \<Longrightarrow> button_samples xs st = st"
  by (cases xs) auto

lemma unat_add_small:
  assumes "unat (a :: u32) + unat b < 2 ^ 32"
  shows "unat (a + b) = unat a + unat b"
proof -
  from assms have "unat a + unat b < 2 ^ LENGTH(32)" by simp
  then show ?thesis by (rule iffD1 [OF unat_add_lem])
qed

lemma held_long:
  assumes "\<not> restarted st" "factoryBtnHeld st"
    and "unat (clock st - factoryBtnPressStartMs st) = e" "e < 10000"
    and "\<forall>x\<in>set xs. snd x \<and> unat (fst x) < 2 ^ 32 - 10000"
    and "10000 \<le> e + held_ms xs"
  shows "restarted (button_samples xs st) \<and> prefs (button_samples xs st) = [''prov'' \<mapsto> UChar 0]"
  using assms
proof (induction xs arbitrary: st e)
  case Nil
  then show ?case by (simp add: held_ms_def)
next
  case (Cons x xs)
  obtain d v where x: "x = (d, v)" by (cases x)
  with Cons.prems(5) have v: "v" and d: "unat d < 2 ^ 32 - 10000" by auto
  let ?st1 = "st\<lparr>clock := clock st + d\<rparr>"
  have eq: "millis ?st1 - factoryBtnPressStartMs ?st1 =
            (clock st - factoryBtnPressStartMs st) + d"
    by (simp add: millis_def)
  have el: "unat (millis ?st1 - factoryBtnPressStartMs ?st1) = e + unat d"
    unfolding eq using Cons.prems(3,4) d by (subst unat_add_small) simp_all
  show ?case
  proof (cases "10000 \<le> e + unat d")
    case True
    then have "10000 \<le> millis ?st1 - factoryBtnPressStartMs ?st1"
      using el by (simp add: word_le_nat_alt)
    then have "factoryResetCheck v ?st1 = performFactoryReset ?st1"
      using v Cons.prems(2) by (simp add: factoryResetCheck_def)
    then show ?thesis
      using Cons.prems(1) x
      by (simp add: button_samples_restarted performFactoryReset_result)
  next
    case False
    then have "\<not> 10000 \<le> millis ?st1 - factoryBtnPressStartMs ?st1"
      using el by (simp add: word_le_nat_alt)
    then have f: "factoryResetCheck v ?st1 = ?st1"
      using v Cons.prems(2) by (simp add: factoryResetCheck_def)
    have "restarted (button_samples xs ?st1) \<and>
          prefs (button_samples xs ?st1) = [''prov'' \<mapsto> UChar 0]"
    proof (rule Cons.IH [of ?st1 "e + unat d"])
      show "\<not> restarted ?st1" using Cons.prems(1) by simp
      show "factoryBtnHeld ?st1" using Cons.prems(2) by simp
      show "unat (clock ?st1 - factoryBtnPressStartMs ?st1) = e + unat d"
        using el by (simp add: millis_def)
      show "e + unat d < 10000" using False by simp
      show "\<forall>x\<in>set xs. snd x \<and> unat (fst x) < 2 ^ 32 - 10000" using Cons.prems(5) by simp
      show "10000 \<le> e + unat d + held_ms xs"
        using Cons.prems(6) x by (simp add: held_ms_def)
    qed
    then show ?thesis using Cons.prems(1) x f by simp
  qed
qed

lemma held_short:
  assumes "\<not> restarted st" "factoryBtnHeld st"
    and "unat (clock st - factoryBtnPressStartMs st) = e"
    and "\<forall>x\<in>set xs. snd x"
    and "e + held_ms xs < 10000"
  shows "\<exists>c. button_samples xs st = st\<lparr>clock := c\<rparr>"
  using assms
proof (induction xs arbitrary: st e)
  case Nil
  have "st = st\<lparr>clock := clock st\<rparr>" by simp
  then show ?case by (metis button_samples.simps(1))
next
  case (Cons x xs)
  obtain d v where x: "x = (d, v)" by (cases x)
  with Cons.prems(4) have v: "v" by auto
  from Cons.prems(5) x have s: "e + unat d + held_ms xs < 10000" by (simp add: held_ms_def)
  let ?st1 = "st\<lparr>clock := clock st + d\<rparr>"
  have eq: "millis ?st1 - factoryBtnPressStartMs ?st1 =
            (clock st - factoryBtnPressStartMs st) + d"
    by (simp add: millis_def)
  have el: "unat (millis ?st1 - factoryBtnPressStartMs ?st1) = e + unat d"
    unfolding eq using Cons.prems(3) s by (subst unat_add_small) simp_all
  then have "\<not> 10000 \<le> millis ?st1 - factoryBtnPressStartMs ?st1"
    using s by (simp add: word_le_nat_alt)
  then have f: "factoryResetCheck v ?st1 = ?st1"
    using v Cons.prems(2) by (simp add: factoryResetCheck_def)
  have "\<exists>c. button_samples xs ?st1 = ?st1\<lparr>clock := c\<rparr>"
  proof (rule Cons.IH [of ?st1 "e + unat d"])
    show "\<not> restarted ?st1" using Cons.prems(1) by simp
    show "factoryBtnHeld ?st1" using Cons.prems(2) by simp
    show "unat (clock ?st1 - factoryBtnPressStartMs ?st1) = e + unat d"
      using el by (simp add: millis_def)
    show "\<forall>x\<in>set xs. snd x" using Cons.prems(4) by simp
    show "e + unat d + held_ms xs < 10000" by (rule s)
  qed
  then obtain c where "button_samples xs ?st1 = ?st1\<lparr>clock := c\<rparr>" by blast
  then have "button_samples (x # xs) st = st\<lparr>clock := c\<rparr>"
    using Cons.prems(1) x f by simp
  then show ?case by blast
qed

lemma button_samples_append:
  "button_samples (xs @ ys) st = button_samples ys (button_samples xs st)"
proof (induction xs arbitrary: st)
  case Nil
  show ?case by simp
next
  case (Cons x xs)
  obtain d v where x: "x = (d, v)" by (cases x)
  show ?case
    by (cases "restarted st") (simp_all add: x Cons button_samples_restarted)
qed

lemma first_press:
  assumes "\<not> restarted st" "\<not> factoryBtnHeld st"
  shows "button_samples ((d0, True) # xs) st =
         button_samples xs (st\<lparr>clock := clock st + d0, factoryBtnHeld := True,
                               factoryBtnPressStartMs := clock st + d0\<rparr>)"
  using assms by (simp add: factoryResetCheck_def millis_def Let_def)

lemma loop_leds_monitor:
  "factoryBtnHeld (loop_leds st) = factoryBtnHeld st"
  "factoryBtnPressStartMs (loop_leds st) = factoryBtnPressStartMs st"
  "restarted (loop_leds st) = restarted st"
  by (auto simp: loop_leds_def showSetupPattern_def showConnectingPattern_def
      showConnected_def Let_def split: SetupPhase.splits)

lemma loop_ap_monitor:
  assumes "loop_ap r st = Some st2"
  shows "factoryBtnHeld st2 = factoryBtnHeld st \<and>
         factoryBtnPressStartMs st2 = factoryBtnPressStartMs st \<and> restarted st2 = restarted st"
proof (cases "runState st = AP_SETUP")
  case False
  with assms show ?thesis by (simp add: loop_ap_def)
next
  case True
  from handleClient_effect [of r st] obtain st1 where
    h: "handleClient r st = Some st1"
    and c: "st1 = st \<or>
      (\<exists>t. st1 = st\<lparr>trace := t, lastHttpActivityMs := clock st\<rparr>) \<or>
      (\<exists>t c p pf cs cp. st1 =
         st\<lparr>trace := t, clock := c, polls := p, prefs := pf, currentSsid := cs, currentPass := cp,
            wifiMode := WIFI_AP_STA, lastHttpActivityMs := c, runState := AP_SETUP\<rparr>) \<or>
      (\<exists>t c p pf cs cp. st1 =
         st\<lparr>trace := t, clock := c, polls := p, prefs := pf, currentSsid := cs, currentPass := cp,
            wifiMode := WIFI_AP_STA, lastHttpActivityMs := c, apShutdownAt := c + 40000,
            runState := CONNECTED, led01 := True, led02 := False\<rparr>)"
    by blast
  from c have c1: "factoryBtnHeld st1 = factoryBtnHeld st \<and>
         factoryBtnPressStartMs st1 = factoryBtnPressStartMs st \<and> restarted st1 = restarted st"
    by auto
  from True h assms have i: "idle_retry st1 = Some st2" by (simp add: loop_ap_def)
  from idle_retry_effect [of st1] i c1 show ?thesis
    by (auto simp: coexist_attempt_def)
qed

lemma loop_samples_button:
  assumes "loop inp st = Some s'"
  shows "\<exists>st2. s' = (let st3 = factoryResetCheck (pressed inp) st2
                      in if restarted st3 then st3 else delay 20 st3) \<and>
           factoryBtnHeld st2 = factoryBtnHeld st \<and>
           factoryBtnPressStartMs st2 = factoryBtnPressStartMs st \<and>
           restarted st2 = restarted st"
proof -
  from assms obtain st1 where
    a: "loop_ap (request inp) (loop_leds st) = Some st1" and s': "s' = loop_rest (pressed inp) st1"
    by (auto simp: loop_alt split: option.splits)
  from loop_ap_monitor [OF a]
  have "factoryBtnHeld (loop_shutdown st1) = factoryBtnHeld st \<and>
        factoryBtnPressStartMs (loop_shutdown st1) = factoryBtnPressStartMs st \<and>
        restarted (loop_shutdown st1) = restarted st"
    by (simp add: loop_leds_monitor loop_shutdown_def stopCaptiveAP_def log_event_def Let_def)
  with s' show ?thesis
    by (intro exI [of _ "loop_shutdown st1"]) (simp add: loop_rest_def Let_def)
qed

text \<open>
  Claim C6. Each pass of \<^verbatim>\<open>loop()\<close> calls \<^verbatim>\<open>factoryResetCheck()\<close> once, and nothing else in
  the pass writes the monitor's two variables. Start with the button not held and consider
  the samples from the first one that reads pressed. If every later sample reads pressed,
  successive samples are less than 2^32 - 10000 ms apart, and 10 s or more pass between the
  first and the last sample, then the store has been cleared, \<^verbatim>\<open>prov\<close> has been written as
  0 and the device has restarted; the next \<^verbatim>\<open>loadCredentialsFromNVS\<close> yields the
  placeholder pair. If the samples read pressed for less than 10 s and the next sample reads
  released, then nothing was wiped and nothing restarted: store and log are as before and
  the button counts as not held. A sample that reads released always clears the held flag.
\<close>

theorem factory_reset_long_press:
  "(loop inp st = Some s' \<longrightarrow>
      (\<exists>st2. s' = (let st3 = factoryResetCheck (pressed inp) st2
                     in if restarted st3 then st3 else delay 20 st3) \<and>
             factoryBtnHeld st2 = factoryBtnHeld st \<and>
             factoryBtnPressStartMs st2 = factoryBtnPressStartMs st \<and>
             restarted st2 = restarted st)) \<and>
   (\<not> restarted st \<and> \<not> factoryBtnHeld st \<and>
    (\<forall>x\<in>set xs. snd x \<and> unat (fst x) < 2 ^ 32 - 10000) \<and> 10000 \<le> held_ms xs \<longrightarrow>
      restarted (button_samples ((d0, True) # xs) st) \<and>
      prefs (button_samples ((d0, True) # xs) st) = [''prov'' \<mapsto> UChar 0] \<and>
      currentSsid (loadCredentialsFromNVS (boot (button_samples ((d0, True) # xs) st))) = DUMMY_SSID \<and>
      currentPass (loadCredentialsFromNVS (boot (button_samples ((d0, True) # xs) st))) = DUMMY_PASS) \<and>
   (\<not> restarted st \<and> \<not> factoryBtnHeld st \<and> (\<forall>x\<in>set xs. snd x) \<and> held_ms xs < 10000 \<longrightarrow>
      \<not> restarted (button_samples ((d0, True) # xs @ [(d1, False)]) st) \<and>
      \<not> factoryBtnHeld (button_samples ((d0, True) # xs @ [(d1, False)]) st) \<and>
      prefs (button_samples ((d0, True) # xs @ [(d1, False)]) st) = prefs st \<and>
      trace (button_samples ((d0, True) # xs @ [(d1, False)]) st) = trace st) \<and>
   factoryResetCheck False st = st\<lparr>factoryBtnHeld := False\<rparr>"
proof (intro conjI impI)
  assume "loop inp st = Some s'"
  then show "\<exists>st2. s' = (let st3 = factoryResetCheck (pressed inp) st2
                     in if restarted st3 then st3 else delay 20 st3) \<and>
             factoryBtnHeld st2 = factoryBtnHeld st \<and>
             factoryBtnPressStartMs st2 = factoryBtnPressStartMs st \<and>
             restarted st2 = restarted st"
    by (rule loop_samples_button)
next
  let ?st1 = "st\<lparr>clock := clock st + d0, factoryBtnHeld := True,
                 factoryBtnPressStartMs := clock st + d0\<rparr>"
  assume a: "\<not> restarted st \<and> \<not> factoryBtnHeld st \<and>
    (\<forall>x\<in>set xs. snd x \<and> unat (fst x) < 2 ^ 32 - 10000) \<and> 10000 \<le> held_ms xs"
  then have f: "button_samples ((d0, True) # xs) st = button_samples xs ?st1"
    by (intro first_press) simp_all
  have r: "restarted (button_samples xs ?st1) \<and>
        prefs (button_samples xs ?st1) = [''prov'' \<mapsto> UChar 0]"
    by (rule held_long [of ?st1 0]) (use a in simp_all)
  then show "restarted (button_samples ((d0, True) # xs) st)"
    "prefs (button_samples ((d0, True) # xs) st) = [''prov'' \<mapsto> UChar 0]"
    "currentSsid (loadCredentialsFromNVS (boot (button_samples ((d0, True) # xs) st))) = DUMMY_SSID"
    "currentPass (loadCredentialsFromNVS (boot (button_samples ((d0, True) # xs) st))) = DUMMY_PASS"
    unfolding f by (simp_all add: loadCredentialsFromNVS_def getUChar_def boot_def)
next
  let ?st1 = "st\<lparr>clock := clock st + d0, factoryBtnHeld := True,
                 factoryBtnPressStartMs := clock st + d0\<rparr>"
  assume a: "\<not> restarted st \<and> \<not> factoryBtnHeld st \<and> (\<forall>x\<in>set xs. snd x) \<and> held_ms xs < 10000"
  then have "button_samples ((d0, True) # xs @ [(d1, False)]) st =
                button_samples (xs @ [(d1, False)]) ?st1"
    by (intro first_press) simp_all
  then have f: "button_samples ((d0, True) # xs @ [(d1, False)]) st =
                button_samples [(d1, False)] (button_samples xs ?st1)"
    by (simp only: button_samples_append)
  have "\<exists>c. button_samples xs ?st1 = ?st1\<lparr>clock := c\<rparr>"
    by (rule held_short [of ?st1 0]) (use a in simp_all)
  then obtain c where c: "button_samples xs ?st1 = ?st1\<lparr>clock := c\<rparr>" by blast
  from a show "\<not> restarted (button_samples ((d0, True) # xs @ [(d1, False)]) st)"
    "\<not> factoryBtnHeld (button_samples ((d0, True) # xs @ [(d1, False)]) st)"
    "prefs (button_samples ((d0, True) # xs @ [(d1, False)]) st) = prefs st"
    "trace (button_samples ((d0, True) # xs @ [(d1, False)]) st) = trace st"
    unfolding f c by (simp_all add: factoryResetCheck_def)
next
  show "factoryResetCheck False st = st\<lparr>factoryBtnHeld := False\<rparr>"
    by (simp add: factoryResetCheck_def)
qed

theorem factory_reset_long_press_witness:
  "restarted (button_samples [(20, True), (5000, True), (5000, True)] portal) \<and>
   prefs (button_samples [(20, True), (5000, True), (5000, True)] portal) = [''prov'' \<mapsto> UChar 0] \<and>
   currentSsid (loadCredentialsFromNVS
     (boot (button_samples [(20, True), (5000, True), (5000, True)] portal))) = ''DummY'' \<and>
   \<not> restarted (button_samples [(20, True), (9900, True), (20, False)] lingering) \<and>
   \<not> factoryBtnHeld (button_samples [(20, True), (9900, True), (20, False)] lingering) \<and>
   prefs (button_samples [(20, True), (9900, True), (20, False)] lingering) = prefs lingering \<and>
   (\<exists>st2. lingering = (let st3 = factoryResetCheck (pressed save_tick) st2
                     in if restarted st3 then st3 else delay 20 st3) \<and>
          factoryBtnHeld st2 = factoryBtnHeld portal)"
proof -
  have 1: "restarted (button_samples [(20, True), (5000, True), (5000, True)] portal) \<and>
   prefs (button_samples [(20, True), (5000, True), (5000, True)] portal) = [''prov'' \<mapsto> UChar 0] \<and>
   currentSsid (loadCredentialsFromNVS
     (boot (button_samples [(20, True), (5000, True), (5000, True)] portal))) = ''DummY''"
    using factory_reset_long_press [of idle_tick portal portal "[(5000, True), (5000, True)]" 20]
    by (simp add: portal_fields held_ms_def DUMMY_SSID_def)
  have 2: "\<not> restarted (button_samples [(20, True), (9900, True), (20, False)] lingering) \<and>
   \<not> factoryBtnHeld (button_samples [(20, True), (9900, True), (20, False)] lingering) \<and>
   prefs (button_samples [(20, True), (9900, True), (20, False)] lingering) = prefs lingering"
    using factory_reset_long_press [of idle_tick lingering lingering "[(9900, True)]" 20 20]
    by (simp add: lingering_fields held_ms_def)
  have 3: "\<exists>st2. lingering = (let st3 = factoryResetCheck (pressed save_tick) st2
                     in if restarted st3 then st3 else delay 20 st3) \<and>
          factoryBtnHeld st2 = factoryBtnHeld portal"
    using factory_reset_long_press [of save_tick portal lingering "[]" 0 0] lingering_explicit(1)
    by blast
  from 1 2 3 show ?thesis by blast
qed

lemma loop_ap_pattern:
  assumes "runState st = AP_SETUP" "loop_ap r st = Some st2"
  shows "setupPhase st2 = setupPhase st \<and> setupPhaseStartMs st2 = setupPhaseStartMs st \<and>
         led02 st2 = (led02 st \<and> runState st2 = AP_SETUP)"
proof -
  from handleClient_effect [of r st] obtain st1 where
    h: "handleClient r st = Some st1"
    and c: "st1 = st \<or>
      (\<exists>t. st1 = st\<lparr>trace := t, lastHttpActivityMs := clock st\<rparr>) \<or>
      (\<exists>t c p pf cs cp. st1 =
         st\<lparr>trace := t, clock := c, polls := p, prefs := pf, currentSsid := cs, currentPass := cp,
            wifiMode := WIFI_AP_STA, lastHttpActivityMs := c, runState := AP_SETUP\<rparr>) \<or>
      (\<exists>t c p pf cs cp. st1 =
         st\<lparr>trace := t, clock := c, polls := p, prefs := pf, currentSsid := cs, currentPass := cp,
            wifiMode := WIFI_AP_STA, lastHttpActivityMs := c, apShutdownAt := c + 40000,
            runState := CONNECTED, led01 := True, led02 := False\<rparr>)"
    by blast
  from c assms(1) have c1: "setupPhase st1 = setupPhase st \<and>
      setupPhaseStartMs st1 = setupPhaseStartMs st \<and>
      led02 st1 = (led02 st \<and> runState st1 = AP_SETUP) \<and>
      (runState st1 = AP_SETUP \<or> runState st1 = CONNECTED)"
    by auto
  from assms h have i: "idle_retry st1 = Some st2" by (simp add: loop_ap_def)
  from idle_retry_effect [of st1] i c1 show ?thesis
    by (auto simp: coexist_attempt_def)
qed

lemma loop_rest_pattern:
  "setupPhase (loop_rest v st) = setupPhase st"
  "setupPhaseStartMs (loop_rest v st) = setupPhaseStartMs st"
  "led02 (loop_rest v st) = led02 st"
proof -
  from loop_rest_frame [of v st] obtain h ps pf l c t r where
    f: "loop_rest v st =
     (loop_shutdown st)\<lparr>factoryBtnHeld := h, factoryBtnPressStartMs := ps, prefs := pf,
        led01 := l, clock := c, trace := t, restarted := r\<rparr>"
    by blast
  show "setupPhase (loop_rest v st) = setupPhase st"
    "setupPhaseStartMs (loop_rest v st) = setupPhaseStartMs st"
    "led02 (loop_rest v st) = led02 st"
    by (simp_all add: f loop_shutdown_def stopCaptiveAP_def log_event_def)
qed

lemma loop_setup_pass:
  assumes "runState st = AP_SETUP"
  shows "\<exists>s'. loop inp st = Some s' \<and>
           setupPhase s' = setupPhase (showSetupPattern st) \<and>
           setupPhaseStartMs s' = setupPhaseStartMs (showSetupPattern st) \<and>
           led02 s' = (led02 (showSetupPattern st) \<and> runState s' = AP_SETUP)"
proof -
  from loop_total [of inp st] obtain s' where l: "loop inp st = Some s'" by blast
  then obtain st1 where
    a: "loop_ap (request inp) (loop_leds st) = Some st1" and s': "s' = loop_rest (pressed inp) st1"
    by (auto simp: loop_alt split: option.splits)
  have ll: "loop_leds st = showSetupPattern st" using assms by (simp add: loop_leds_def)
  have r: "runState (showSetupPattern st) = AP_SETUP"
    using loop_leds_runState [of st] assms by (simp add: ll)
  from loop_ap_pattern [OF r] a
  have "setupPhase st1 = setupPhase (showSetupPattern st) \<and>
        setupPhaseStartMs st1 = setupPhaseStartMs (showSetupPattern st) \<and>
        led02 st1 = (led02 (showSetupPattern st) \<and> runState st1 = AP_SETUP)"
    by (simp add: ll)
  with l s' show ?thesis
    by (simp add: loop_rest_pattern loop_rest_services)
qed

lemma showSetupPattern_led02:
  "led02 (showSetupPattern st) =
     (if setupPhase st = BLINK1_ON then False
      else if setupPhase st = BLINK1_OFF \<and> 200 \<le> millis st - setupPhaseStartMs st then True
      else if setupPhase st = BLINK2_ON \<and> 200 \<le> millis st - setupPhaseStartMs st then False
      else led02 st)"
  by (cases "setupPhase st"; simp add: showSetupPattern_def Let_def)

lemma boot_offline: "boot offline = offline"
  by (simp add: boot_def offline_def fresh_def)

lemma offline_portal_explicit:
  "setup_main (boot offline) = Some offline_portal"
  "offline_portal = offline\<lparr>runState := AP_SETUP, currentSsid := DUMMY_SSID,
     currentPass := DUMMY_PASS,
     lastHttpActivityMs := 73260, setupPhase := BLINK1_ON, setupPhaseStartMs := 73260,
     clock := 73260, wifiMode := WIFI_AP, serverRunning := True, dnsRunning := True,
     polls := 500, trace := trace offline_portal\<rparr>"
proof -
  let ?st6 = "setup_loaded offline"
  have st6: "?st6 = offline\<lparr>clock := 10, trace := [Delay 10], currentSsid := DUMMY_SSID,
     currentPass := DUMMY_PASS\<rparr>"
    by (simp add: setup_loaded_def showConnectingPattern_def loadCredentialsFromNVS_def
        getUChar_def delay_def log_event_def millis_def Let_def offline_def fresh_def)
  have cs: "currentSsid ?st6 = DUMMY_SSID" "currentPass ?st6 = DUMMY_PASS"
    by (simp_all add: st6)
  have never: "\<forall>n<500. \<not> link ?st6 (polls ?st6 + n)"
    by (simp add: st6) (simp add: offline_def)
  define X where "X = (startCaptiveAP
         (delay 8000 (timed_out_attempt DUMMY_SSID DUMMY_PASS
         (delay 8000 (timed_out_attempt DUMMY_SSID DUMMY_PASS
         (delay 4000 (timed_out_attempt DUMMY_SSID DUMMY_PASS
         (delay 2000 (timed_out_attempt DUMMY_SSID DUMMY_PASS
         (delay 1000 (timed_out_attempt DUMMY_SSID DUMMY_PASS ?st6)))))))))))
         \<lparr>runState := AP_SETUP\<rparr>"
  have r: "setup_main offline = Some X"
    unfolding X_def
    using station_five_timeouts [OF never, of DUMMY_SSID DUMMY_PASS] cs
    by (simp add: setup_main_alt tryConnectStation_def MAX_RETRIES_def CONNECT_TIMEOUT_MS_def)
  then show "setup_main (boot offline) = Some offline_portal"
    by (simp add: offline_portal_def boot_offline)
  from r have p: "offline_portal = X"
    by (simp add: offline_portal_def boot_offline)
  have f: "polls offline = 0" by (simp add: offline_def fresh_def)
  have "X = offline\<lparr>runState := AP_SETUP, currentSsid := DUMMY_SSID, currentPass := DUMMY_PASS,
     lastHttpActivityMs := 73260, setupPhase := BLINK1_ON, setupPhaseStartMs := 73260,
     clock := 73260, wifiMode := WIFI_AP, serverRunning := True, dnsRunning := True,
     polls := 500, trace := trace X\<rparr>"
    unfolding X_def
    by (simp add: st6 startCaptiveAP_def WiFi_mode_def delay_def timed_out_attempt_def
        log_event_def millis_def Let_def f)
  then show "offline_portal = offline\<lparr>runState := AP_SETUP, currentSsid := DUMMY_SSID,
     currentPass := DUMMY_PASS,
     lastHttpActivityMs := 73260, setupPhase := BLINK1_ON, setupPhaseStartMs := 73260,
     clock := 73260, wifiMode := WIFI_AP, serverRunning := True, dnsRunning := True,
     polls := 500, trace := trace offline_portal\<rparr>"
    unfolding p .
qed

lemma offline_portal_fields:
    "runState offline_portal = AP_SETUP" "setupPhase offline_portal = BLINK1_ON"
    "setupPhaseStartMs offline_portal = 73260" "clock offline_portal = 73260"
    "serverRunning offline_portal" "dnsRunning offline_portal"
    "lastHttpActivityMs offline_portal = 73260" "factoryBtnHeld offline_portal = False"
    "restarted offline_portal = False" "polls offline_portal = 500"
    "apShutdownAt offline_portal = 0" "link offline_portal = (\<lambda>n. False)"
    "led02 offline_portal = False"
    by (subst offline_portal_explicit(2), simp add: offline_def fresh_def)+

lemma offline_first_explicit:
  "loop idle_tick (offline_portal\<lparr>clock := clock offline_portal + 200\<rparr>) = Some offline_first"
  "offline_first = offline_portal\<lparr>setupPhase := BLINK1_OFF, setupPhaseStartMs := 73460,
     led01 := False, led02 := False, clock := 73480, factoryBtnHeld := False,
     trace := trace offline_portal @ [Delay 20]\<rparr>"
proof -
  let ?p = "offline_portal\<lparr>clock := clock offline_portal + 200\<rparr>"
  have "loop idle_tick ?p = Some (delay 20 ((showSetupPattern ?p)\<lparr>factoryBtnHeld := False\<rparr>))"
    by (rule idle_pass)
       (simp_all add: offline_portal_fields idle_elapsed_def millis_def AP_IDLE_TIMEOUT_MS_def)
  moreover have "delay 20 ((showSetupPattern ?p)\<lparr>factoryBtnHeld := False\<rparr>) =
     offline_portal\<lparr>setupPhase := BLINK1_OFF, setupPhaseStartMs := 73460, led01 := False,
     led02 := False, clock := 73480, factoryBtnHeld := False,
     trace := trace offline_portal @ [Delay 20]\<rparr>"
    by (simp add: showSetupPattern_def offline_portal_fields millis_def delay_def log_event_def
        Let_def)
  ultimately show "loop idle_tick ?p = Some offline_first"
    "offline_first = offline_portal\<lparr>setupPhase := BLINK1_OFF, setupPhaseStartMs := 73460,
     led01 := False, led02 := False, clock := 73480, factoryBtnHeld := False,
     trace := trace offline_portal @ [Delay 20]\<rparr>"
    by (simp_all add: offline_first_def)
qed

lemma offline_second_explicit:
  "loop idle_tick (offline_first\<lparr>clock := clock offline_first + 200\<rparr>) = Some offline_second"
  "offline_second = offline_portal\<lparr>setupPhase := BLINK2_ON, setupPhaseStartMs := 73680,
     led01 := True, led02 := True, clock := 73700, factoryBtnHeld := False,
     trace := trace offline_portal @ [Delay 20, Delay 20]\<rparr>"
proof -
  let ?p = "offline_first\<lparr>clock := clock offline_first + 200\<rparr>"
  have "loop idle_tick ?p = Some (delay 20 ((showSetupPattern ?p)\<lparr>factoryBtnHeld := False\<rparr>))"
    by (rule idle_pass)
       (simp_all add: offline_first_explicit(2) offline_portal_fields idle_elapsed_def millis_def
          AP_IDLE_TIMEOUT_MS_def)
  moreover have "delay 20 ((showSetupPattern ?p)\<lparr>factoryBtnHeld := False\<rparr>) =
     offline_portal\<lparr>setupPhase := BLINK2_ON, setupPhaseStartMs := 73680, led01 := True,
     led02 := True, clock := 73700, factoryBtnHeld := False,
     trace := trace offline_portal @ [Delay 20, Delay 20]\<rparr>"
    by (simp add: showSetupPattern_def offline_first_explicit(2) offline_portal_fields millis_def
        delay_def log_event_def Let_def)
  ultimately show "loop idle_tick ?p = Some offline_second"
    "offline_second = offline_portal\<lparr>setupPhase := BLINK2_ON, setupPhaseStartMs := 73680,
     led01 := True, led02 := True, clock := 73700, factoryBtnHeld := False,
     trace := trace offline_portal @ [Delay 20, Delay 20]\<rparr>"
    by (simp_all add: offline_second_def)
qed

lemma offline_second_fields:
  "runState offline_second = AP_SETUP" "setupPhase offline_second = BLINK2_ON"
  "setupPhaseStartMs offline_second = 73680" "clock offline_second = 73700"
  "led02 offline_second" "serverRunning offline_second" "restarted offline_second = False"
  "link offline_second = (\<lambda>n. False)" "lastHttpActivityMs offline_second = 73260"
  "apShutdownAt offline_second = 0" "factoryBtnHeld offline_second = False"
  by (simp_all add: offline_second_explicit(2) offline_portal_fields)

lemma reachable_offline_second: "reachable offline_second"
proof -
  have "reachable offline_portal"
    by (rule reachable.start [OF offline_portal_explicit(1)])
  then have "reachable (offline_portal\<lparr>clock := clock offline_portal + 200\<rparr>)"
    by (rule reachable.elapse)
  then have "reachable offline_first"
    by (rule reachable.tick [OF _ _ offline_first_explicit(1)]) (simp add: offline_portal_fields)
  then have "reachable (offline_first\<lparr>clock := clock offline_first + 200\<rparr>)"
    by (rule reachable.elapse)
  then show ?thesis
    by (rule reachable.tick [OF _ _ offline_second_explicit(1)])
       (simp add: offline_first_explicit(2) offline_portal_fields)
qed

lemma blocked_explicit:
  "loop save_tick offline_second = Some blocked"
  "runState blocked = AP_SETUP" "setupPhase blocked = BLINK2_ON"
  "setupPhaseStartMs blocked = 73680" "clock blocked = 83720" "led02 blocked"
  "restarted blocked = False"
proof -
  let ?s = offline_second
  let ?st4 = "coexist_attempt ''home'' ''secret123'' 100 False (persisted ''home'' ''secret123'' ?s)"
  define B where "B = ?st4\<lparr>trace := trace ?st4 @ [reply_failed], lastHttpActivityMs := clock ?st4,
                   runState := AP_SETUP\<rparr>"
  have a: "loop_leds ?s = ?s"
    by (simp add: loop_leds_def showSetupPattern_def offline_second_fields millis_def)
  have n: "\<forall>n<100. \<not> link (persisted ''home'' ''secret123'' ?s)
             (polls (persisted ''home'' ''secret123'' ?s) + n)"
    by (simp add: persisted_env offline_second_fields)
  have t: "tryConnectWhileAp ''home'' ''secret123'' MAX_RETRIES CONNECT_TIMEOUT_MS
             (persisted ''home'' ''secret123'' ?s) = Some (False, ?st4)"
    by (rule tryConnectWhileAp_never [OF n])
  have h: "handleSave good_save ?s = Some B"
    by (simp add: handleSave_alt good_save_args t B_def)
  have b: "handleClient (Some good_save) (loop_leds ?s) = Some B"
    by (simp add: a handleClient_def offline_second_fields dispatch_def h)
       (simp add: good_save_def)
  have B: "runState B = AP_SETUP" "setupPhase B = BLINK2_ON" "setupPhaseStartMs B = 73680"
    "clock B = 83700" "led02 B" "restarted B = False" "lastHttpActivityMs B = 83700"
    "factoryBtnHeld B = False" "apShutdownAt B = 0"
    by (simp_all add: B_def coexist_attempt_def persisted_def saveCredentialsToNVS_def
        putString_def putUChar_def log_event_def offline_second_fields)
  have c: "idle_retry B = Some B"
    by (simp add: idle_retry_def millis_def B AP_IDLE_TIMEOUT_MS_def)
  have d: "loop_rest False B = delay 20 (B\<lparr>factoryBtnHeld := False\<rparr>)"
    by (simp add: loop_rest_def loop_shutdown_def factoryResetCheck_def B Let_def)
  have "loop save_tick ?s = Some (delay 20 (B\<lparr>factoryBtnHeld := False\<rparr>))"
    by (simp add: loop_alt save_tick_def loop_ap_def loop_leds_runState offline_second_fields b c d)
  then have l: "blocked = delay 20 (B\<lparr>factoryBtnHeld := False\<rparr>)"
    and "loop save_tick ?s = Some blocked"
    by (simp_all add: blocked_def)
  then show "loop save_tick ?s = Some blocked" by simp
  show "runState blocked = AP_SETUP" "setupPhase blocked = BLINK2_ON"
    "setupPhaseStartMs blocked = 73680" "clock blocked = 83720" "led02 blocked"
    "restarted blocked = False"
    unfolding l by (simp_all add: delay_def log_event_def B)
qed

lemma reachable_blocked: "reachable blocked"
  by (rule reachable.tick [OF reachable_offline_second _ blocked_explicit(1)])
     (simp add: offline_second_fields)

text \<open>
  Claim C8, as the code has it. In every state the controller can reach between two passes
  of \<^verbatim>\<open>loop()\<close>, \<^verbatim>\<open>LED_02\<close> is high in \<^verbatim>\<open>AP_SETUP\<close> only if the phase is \<^verbatim>\<open>BLINK2_ON\<close>. The
  phases have the lengths 200, 200, 200, 200 and 1200 ms (2000 ms in all) and follow in the
  order \<^verbatim>\<open>BLINK1_ON\<close>, \<^verbatim>\<open>BLINK1_OFF\<close>, \<^verbatim>\<open>BLINK2_ON\<close>, \<^verbatim>\<open>BLINK2_OFF\<close>, \<^verbatim>\<open>PAUSE\<close>. A phase lasts
  at least its length: every pass of \<^verbatim>\<open>loop()\<close> in \<^verbatim>\<open>AP_SETUP\<close> returns, and it leaves the
  phase exactly when, at the beginning of the pass, the time since the phase began has
  reached that length; it then moves to the next phase and restarts the phase clock. So
  \<^verbatim>\<open>LED_02\<close> goes high with the pass that enters \<^verbatim>\<open>BLINK2_ON\<close>, stays as it is over every
  pass that begins less than 200 ms into \<^verbatim>\<open>BLINK2_ON\<close> and ends in \<^verbatim>\<open>AP_SETUP\<close>, and is low
  after the first pass that begins 200 ms or more into it. \<^verbatim>\<open>startCaptiveAP\<close> sets the phase
  to \<^verbatim>\<open>BLINK1_ON\<close> and the phase start to now, and \<^verbatim>\<open>AP_SETUP\<close> is entered in no other way:
  \<^verbatim>\<open>setup()\<close> ends in \<^verbatim>\<open>AP_SETUP\<close> only through \<^verbatim>\<open>startCaptiveAP\<close>, and a pass of \<^verbatim>\<open>loop()\<close>
  that ends in \<^verbatim>\<open>AP_SETUP\<close> began in it.
\<close>

theorem setup_pattern_led02:
  "(reachable s \<and> runState s = AP_SETUP \<and> led02 s \<longrightarrow> setupPhase s = BLINK2_ON) \<and>
   (runState st = AP_SETUP \<longrightarrow>
      (\<exists>s'. loop inp st = Some s' \<and>
         setupPhase s' =
           (if phase_ms (setupPhase st) \<le> millis st - setupPhaseStartMs st
            then next_phase (setupPhase st) else setupPhase st) \<and>
         setupPhaseStartMs s' =
           (if phase_ms (setupPhase st) \<le> millis st - setupPhaseStartMs st
            then millis st else setupPhaseStartMs st) \<and>
         (setupPhase st = BLINK1_OFF \<and> 200 \<le> millis st - setupPhaseStartMs st \<and>
            runState s' = AP_SETUP \<longrightarrow> led02 s') \<and>
         (setupPhase st = BLINK2_ON \<and> millis st - setupPhaseStartMs st < 200 \<and>
            runState s' = AP_SETUP \<longrightarrow> led02 s' = led02 st) \<and>
         (setupPhase st = BLINK2_ON \<and> 200 \<le> millis st - setupPhaseStartMs st \<longrightarrow>
            \<not> led02 s'))) \<and>
   map phase_ms [BLINK1_ON, BLINK1_OFF, BLINK2_ON, BLINK2_OFF, PAUSE] = [200, 200, 200, 200, 1200] \<and>
   map next_phase [BLINK1_ON, BLINK1_OFF, BLINK2_ON, BLINK2_OFF, PAUSE] =
     [BLINK1_OFF, BLINK2_ON, BLINK2_OFF, PAUSE, BLINK1_ON] \<and>
   sum_list (map (\<lambda>p. unat (phase_ms p)) [BLINK1_ON, BLINK1_OFF, BLINK2_ON, BLINK2_OFF, PAUSE]) = 2000 \<and>
   setupPhase (startCaptiveAP st) = BLINK1_ON \<and>
   setupPhaseStartMs (startCaptiveAP st) = millis st \<and>
   runState (startCaptiveAP st) = AP_SETUP \<and>
   (setup_main st = Some s2 \<and> runState s2 = AP_SETUP \<longrightarrow>
      setupPhase s2 = BLINK1_ON \<and> setupPhaseStartMs s2 = millis s2) \<and>
   (loop inp st = Some s2 \<and> runState s2 = AP_SETUP \<longrightarrow> runState st = AP_SETUP)"
proof -
  have 1: "setupPhase s = BLINK2_ON" if "reachable s" "runState s = AP_SETUP" "led02 s"
    using reachable_consistent [OF that(1)] that(3) by (simp add: consistent_def)
  have 2: "\<exists>s'. loop inp st = Some s' \<and>
         setupPhase s' =
           (if phase_ms (setupPhase st) \<le> millis st - setupPhaseStartMs st
            then next_phase (setupPhase st) else setupPhase st) \<and>
         setupPhaseStartMs s' =
           (if phase_ms (setupPhase st) \<le> millis st - setupPhaseStartMs st
            then millis st else setupPhaseStartMs st) \<and>
         (setupPhase st = BLINK1_OFF \<and> 200 \<le> millis st - setupPhaseStartMs st \<and>
            runState s' = AP_SETUP \<longrightarrow> led02 s') \<and>
         (setupPhase st = BLINK2_ON \<and> millis st - setupPhaseStartMs st < 200 \<and>
            runState s' = AP_SETUP \<longrightarrow> led02 s' = led02 st) \<and>
         (setupPhase st = BLINK2_ON \<and> 200 \<le> millis st - setupPhaseStartMs st \<longrightarrow>
            \<not> led02 s')"
    if a: "runState st = AP_SETUP"
  proof -
    from loop_setup_pass [OF a, of inp] obtain s' where
      l: "loop inp st = Some s'"
      and p: "setupPhase s' = setupPhase (showSetupPattern st)"
        "setupPhaseStartMs s' = setupPhaseStartMs (showSetupPattern st)"
      and d: "led02 s' = (led02 (showSetupPattern st) \<and> runState s' = AP_SETUP)"
      by blast
    have "(setupPhase st = BLINK1_OFF \<and> 200 \<le> millis st - setupPhaseStartMs st \<and>
            runState s' = AP_SETUP \<longrightarrow> led02 s') \<and>
         (setupPhase st = BLINK2_ON \<and> millis st - setupPhaseStartMs st < 200 \<and>
            runState s' = AP_SETUP \<longrightarrow> led02 s' = led02 st) \<and>
         (setupPhase st = BLINK2_ON \<and> 200 \<le> millis st - setupPhaseStartMs st \<longrightarrow>
            \<not> led02 s')"
      unfolding d showSetupPattern_led02 by auto
    moreover from p have "setupPhase s' =
           (if phase_ms (setupPhase st) \<le> millis st - setupPhaseStartMs st
            then next_phase (setupPhase st) else setupPhase st)"
      "setupPhaseStartMs s' =
           (if phase_ms (setupPhase st) \<le> millis st - setupPhaseStartMs st
            then millis st else setupPhaseStartMs st)"
      by (simp_all only: showSetupPattern_table)
    ultimately show ?thesis using l by blast
  qed
  have 3: "map phase_ms [BLINK1_ON, BLINK1_OFF, BLINK2_ON, BLINK2_OFF, PAUSE] =
             [200, 200, 200, 200, 1200]"
    "map next_phase [BLINK1_ON, BLINK1_OFF, BLINK2_ON, BLINK2_OFF, PAUSE] =
       [BLINK1_OFF, BLINK2_ON, BLINK2_OFF, PAUSE, BLINK1_ON]"
    "sum_list (map (\<lambda>p. unat (phase_ms p)) [BLINK1_ON, BLINK1_OFF, BLINK2_ON, BLINK2_OFF, PAUSE]) =
       2000"
    by simp_all
  have 4: "setupPhase s2 = BLINK1_ON" "setupPhaseStartMs s2 = millis s2"
    if "setup_main st = Some s2 \<and> runState s2 = AP_SETUP"
    using that setup_main_entry [of st s2] by blast+
  have 5: "runState st = AP_SETUP" if "loop inp st = Some s2 \<and> runState s2 = AP_SETUP"
    using that loop_no_entry [of inp st s2] by blast
  have 6: "setupPhase s = BLINK2_ON" if "reachable s \<and> runState s = AP_SETUP \<and> led02 s"
    using that 1 by blast
  show ?thesis
    by (intro conjI impI; (rule 2 3 4 5 6 startCaptiveAP_fields)?; assumption?)
qed

text \<open>
  A device that sees no network has reached \<^verbatim>\<open>BLINK2_ON\<close> with \<^verbatim>\<open>LED_02\<close> high, 20 ms into
  the phase. The next pass serves a \<^verbatim>\<open>/save\<close> request whose connection attempt times out.
  When the pass ends the device is still in \<^verbatim>\<open>AP_SETUP\<close> and in \<^verbatim>\<open>BLINK2_ON\<close>, the phase
  began 10040 ms ago and \<^verbatim>\<open>LED_02\<close> is still high.
\<close>

theorem setup_phase_outlasts_length:
  "reachable offline_second \<and> runState offline_second = AP_SETUP \<and>
   setupPhase offline_second = BLINK2_ON \<and> led02 offline_second \<and>
   setupPhaseStartMs offline_second = 73680 \<and> millis offline_second = 73700 \<and>
   loop save_tick offline_second = Some blocked \<and>
   reachable blocked \<and> runState blocked = AP_SETUP \<and> setupPhase blocked = BLINK2_ON \<and>
   led02 blocked \<and> setupPhaseStartMs blocked = 73680 \<and> millis blocked = 83720 \<and>
   unat (millis blocked - setupPhaseStartMs blocked) = 10040"
  by (simp add: reachable_offline_second reachable_blocked offline_second_fields blocked_explicit
      millis_def)

theorem setup_pattern_led02_witness:
  "reachable second_blink \<and> runState second_blink = AP_SETUP \<and> led02 second_blink \<and>
   setupPhase second_blink = BLINK2_ON \<and>
   (\<exists>s'. loop idle_tick (first_blink\<lparr>clock := clock first_blink + 200\<rparr>) = Some s' \<and>
      setupPhase s' = BLINK2_ON \<and> setupPhaseStartMs s' = 73680 \<and> led02 s') \<and>
   (\<exists>s'. loop save_tick offline_second = Some s' \<and>
      setupPhase s' = BLINK2_ON \<and> setupPhaseStartMs s' = 73680 \<and> led02 s') \<and>
   (\<exists>s'. loop idle_tick (second_blink\<lparr>clock := clock second_blink + 180\<rparr>) = Some s' \<and>
      setupPhase s' = BLINK2_OFF \<and> setupPhaseStartMs s' = 73880 \<and> \<not> led02 s') \<and>
   setupPhase portal = BLINK1_ON \<and> setupPhaseStartMs portal = millis portal \<and>
   runState (portal\<lparr>clock := clock portal + 200\<rparr>) = AP_SETUP"
proof -
  note A = setup_pattern_led02 [THEN conjunct1]
  note B = setup_pattern_led02 [THEN conjunct2, THEN conjunct1]
  note E = setup_pattern_led02 [THEN conjunct2, THEN conjunct2, THEN conjunct2, THEN conjunct2,
      THEN conjunct2, THEN conjunct2, THEN conjunct2, THEN conjunct2]
  have f: "runState second_blink = AP_SETUP" "led02 second_blink"
    "clock second_blink = 73700" "setupPhaseStartMs second_blink = 73680"
    by (simp_all add: second_blink_explicit(2) portal_fields)
  have g: "runState first_blink = AP_SETUP" "setupPhase first_blink = BLINK1_OFF"
    "clock first_blink = 73480" "setupPhaseStartMs first_blink = 73460"
    by (simp_all add: first_blink_explicit(2) portal_fields)
  have b: "setupPhase second_blink = BLINK2_ON"
    using A [of second_blink] reachable_second_blink f
    by blast
  have l1: "loop idle_tick (first_blink\<lparr>clock := 73680\<rparr>) = Some second_blink"
    using second_blink_explicit(1) by (simp add: g)
  have c1: "\<exists>s'. loop idle_tick (first_blink\<lparr>clock := clock first_blink + 200\<rparr>) = Some s' \<and>
      setupPhase s' = BLINK2_ON \<and> setupPhaseStartMs s' = 73680 \<and> led02 s'"
    using B [of "first_blink\<lparr>clock := clock first_blink + 200\<rparr>" idle_tick]
    by (simp add: g millis_def l1 f)
  have c2: "\<exists>s'. loop save_tick offline_second = Some s' \<and>
      setupPhase s' = BLINK2_ON \<and> setupPhaseStartMs s' = 73680 \<and> led02 s'"
    using B [of offline_second save_tick]
    by (simp add: offline_second_fields millis_def blocked_explicit)
  have c3: "\<exists>s'. loop idle_tick (second_blink\<lparr>clock := clock second_blink + 180\<rparr>) = Some s' \<and>
      setupPhase s' = BLINK2_OFF \<and> setupPhaseStartMs s' = 73880 \<and> \<not> led02 s'"
    using B [of "second_blink\<lparr>clock := clock second_blink + 180\<rparr>" idle_tick]
    by (simp add: f b millis_def)
  have d: "setupPhase portal = BLINK1_ON \<and> setupPhaseStartMs portal = millis portal"
    using E [THEN conjunct1, of "boot fresh" portal] portal_explicit(1)
    by (simp add: portal_fields)
  have e: "runState (portal\<lparr>clock := clock portal + 200\<rparr>) = AP_SETUP"
    using E [THEN conjunct2, of idle_tick "portal\<lparr>clock := clock portal + 200\<rparr>" first_blink]
      first_blink_explicit
    by (simp add: portal_fields)
  from reachable_second_blink f b c1 c2 c3 d e show ?thesis by blast
qed

lemma passes_restarted: "restarted st \<Longrightarrow> passes xs st = Some st"
  by (cases xs) auto

lemma loop_connected_clock:
  assumes "runState s = CONNECTED" "loop inp s = Some s'" "\<not> restarted s'"
  shows "clock s' = clock s + 20"
proof -
  from assms(1,2) have s': "s' = loop_rest (pressed inp) (showConnected s)"
    by (simp add: loop_connected)
  let ?st2 = "loop_shutdown (showConnected s)"
  have c: "clock ?st2 = clock s"
    by (simp add: loop_shutdown_def stopCaptiveAP_def log_event_def showConnected_def)
  have "clock (loop_rest (pressed inp) (showConnected s)) = clock ?st2 + 20"
    using assms(3) unfolding s'
    by (simp add: loop_rest_def factoryResetCheck_def performFactoryReset_result delay_def
        log_event_def Let_def split: if_splits)
  then show ?thesis by (simp add: s' c)
qed

lemma linger_keeps:
  assumes "runState s = CONNECTED" "apShutdownAt s \<noteq> 0"
    and "unat (millis s) + last_begin_ms xs < unat (apShutdownAt s)"
  shows "\<exists>s1. passes xs s = Some s1 \<and> runState s1 = CONNECTED \<and>
           serverRunning s1 = serverRunning s \<and> dnsRunning s1 = dnsRunning s \<and>
           apShutdownAt s1 = apShutdownAt s"
  using assms
proof (induction xs arbitrary: s)
  case Nil
  then show ?case by simp
next
  case (Cons x xs)
  obtain d inp where x: "x = (d, inp)" by (cases x)
  show ?case
  proof (cases "restarted s")
    case True
    with Cons.prems show ?thesis by (simp add: passes_restarted)
  next
    case False
    let ?p = "s\<lparr>clock := clock s + d\<rparr>"
    let ?S = "sum_list (map (\<lambda>x. unat (fst x) + 20) xs)"
    from Cons.prems(3) have b: "unat (clock s) + unat d + ?S < unat (apShutdownAt s)"
      by (simp add: last_begin_ms_def x millis_def)
    have "unat (apShutdownAt s) < 2 ^ LENGTH(32)" by (rule unsigned_less)
    then have lim: "unat (apShutdownAt s) < 2 ^ 32" by simp
    from b lim have cp: "unat (clock ?p) = unat (clock s) + unat d"
      by (simp add: unat_add_small)
    with b have before: "millis ?p < apShutdownAt ?p"
      by (simp add: millis_def word_less_nat_alt)
    from loop_connected_shutdown [of ?p inp] Cons.prems(1,2) before obtain s' where
      l: "loop inp ?p = Some s'" and r: "runState s' = CONNECTED"
      and k: "serverRunning s' = serverRunning s" "dnsRunning s' = dnsRunning s"
        "apShutdownAt s' = apShutdownAt s"
      by auto
    have p: "passes (x # xs) s = passes xs s'" using False l by (simp add: x)
    show ?thesis
    proof (cases "restarted s' \<or> xs = []")
      case True
      then have "passes xs s' = Some s'" by (auto simp: passes_restarted)
      with p r k show ?thesis by simp
    next
      case n: False
      then obtain y ys where xs: "xs = y # ys" by (cases xs) auto
      from n have "clock s' = clock ?p + 20"
        using loop_connected_clock [of ?p inp s'] l Cons.prems(1) by simp
      moreover have "20 \<le> ?S" by (simp add: xs)
      ultimately have "unat (millis s') + last_begin_ms xs < unat (apShutdownAt s')"
        using b lim cp by (simp add: millis_def last_begin_ms_def k unat_add_small)
      from Cons.IH [OF r _ this] k Cons.prems(2) obtain s1 where
        "passes xs s' = Some s1" "runState s1 = CONNECTED"
        "serverRunning s1 = serverRunning s'" "dnsRunning s1 = dnsRunning s'"
        "apShutdownAt s1 = apShutdownAt s'"
        by auto
      with p k show ?thesis by simp
    qed
  qed
qed

lemma stopped_stays:
  assumes "runState s = CONNECTED" "apShutdownAt s = 0" "\<not> serverRunning s" "\<not> dnsRunning s"
  shows "\<exists>s'. passes ys s = Some s' \<and> runState s' = CONNECTED \<and>
           \<not> serverRunning s' \<and> \<not> dnsRunning s' \<and> apShutdownAt s' = 0"
  using assms
proof (induction ys arbitrary: s)
  case Nil
  then show ?case by simp
next
  case (Cons x ys)
  obtain d inp where x: "x = (d, inp)" by (cases x)
  show ?case
  proof (cases "restarted s")
    case True
    with Cons.prems show ?thesis by (simp add: passes_restarted)
  next
    case False
    let ?p = "s\<lparr>clock := clock s + d\<rparr>"
    let ?s' = "loop_rest (pressed inp) (showConnected ?p)"
    have l: "loop inp ?p = Some ?s'" using Cons.prems(1) by (simp add: loop_connected)
    have k: "runState ?s' = CONNECTED" "apShutdownAt ?s' = 0" "\<not> serverRunning ?s'"
        "\<not> dnsRunning ?s'"
      using Cons.prems
      by (simp_all add: loop_rest_services loop_shutdown_def showConnected_def)
    from Cons.IH [OF k] l False show ?thesis by (simp add: x)
  qed
qed

lemma deadline_pass:
  assumes "runState s = CONNECTED" "apShutdownAt s \<noteq> 0" "\<not> restarted s"
    and "unat (apShutdownAt s) \<le> unat (millis s) + unat d"
    and "unat (millis s) + unat d < 2 ^ 32"
  shows "\<exists>s2. passes ((d, inp) # ys) s = Some s2 \<and> runState s2 = CONNECTED \<and>
           \<not> serverRunning s2 \<and> \<not> dnsRunning s2 \<and> apShutdownAt s2 = 0"
proof -
  let ?p = "s\<lparr>clock := clock s + d\<rparr>"
  from assms(5) have cp: "unat (clock ?p) = unat (clock s) + unat d"
    by (simp add: unat_add_small millis_def)
  with assms(4) have reached: "apShutdownAt ?p \<le> millis ?p"
    by (simp add: millis_def word_le_nat_alt)
  from loop_connected_shutdown [of ?p inp] assms(1,2) reached obtain s' where
    l: "loop inp ?p = Some s'" and k: "runState s' = CONNECTED" "apShutdownAt s' = 0"
      "\<not> serverRunning s'" "\<not> dnsRunning s'"
    by auto
  from stopped_stays [OF k, of ys] l assms(3) show ?thesis by simp
qed

lemma loop_leds_serving: "serving st \<Longrightarrow> serving (loop_leds st)"
  by (auto simp: serving_def loop_leds_def showSetupPattern_def showConnectingPattern_def
      showConnected_def Let_def split: SetupPhase.splits)

lemma loop_ap_serving:
  assumes "serving st" "loop_ap r st = Some st2"
  shows "serving st2"
proof (cases "runState st = AP_SETUP")
  case False
  with assms show ?thesis by (simp add: loop_ap_def)
next
  case True
  from handleClient_effect [of r st] obtain st1 where
    h: "handleClient r st = Some st1"
    and c: "st1 = st \<or>
      (\<exists>t. st1 = st\<lparr>trace := t, lastHttpActivityMs := clock st\<rparr>) \<or>
      (\<exists>t c p pf cs cp. st1 =
         st\<lparr>trace := t, clock := c, polls := p, prefs := pf, currentSsid := cs, currentPass := cp,
            wifiMode := WIFI_AP_STA, lastHttpActivityMs := c, runState := AP_SETUP\<rparr>) \<or>
      (\<exists>t c p pf cs cp. st1 =
         st\<lparr>trace := t, clock := c, polls := p, prefs := pf, currentSsid := cs, currentPass := cp,
            wifiMode := WIFI_AP_STA, lastHttpActivityMs := c, apShutdownAt := c + 40000,
            runState := CONNECTED, led01 := True, led02 := False\<rparr>)"
    by blast
  from c assms(1) True have c1: "serverRunning st1 \<and> dnsRunning st1"
    by (auto simp: serving_def)
  from True h assms(2) have i: "idle_retry st1 = Some st2" by (simp add: loop_ap_def)
  from idle_retry_effect [of st1] i c1 show ?thesis
    by (auto simp: serving_def coexist_attempt_def)
qed

lemma loop_rest_serving:
  assumes "serving st"
  shows "serving (loop_rest v st)"
proof -
  have a: "serving (loop_shutdown st)"
    using assms
    by (auto simp: serving_def loop_shutdown_def stopCaptiveAP_def log_event_def Let_def)
  from loop_rest_frame [of v st] obtain h ps pf l c t r where
    "loop_rest v st =
     (loop_shutdown st)\<lparr>factoryBtnHeld := h, factoryBtnPressStartMs := ps, prefs := pf,
        led01 := l, clock := c, trace := t, restarted := r\<rparr>"
    by blast
  with a show ?thesis by (simp add: serving_def)
qed

lemma loop_serving:
  assumes "serving st" "loop inp st = Some s'"
  shows "serving s'"
proof -
  from assms(2) obtain st1 where
    a: "loop_ap (request inp) (loop_leds st) = Some st1" and s': "s' = loop_rest (pressed inp) st1"
    by (auto simp: loop_alt split: option.splits)
  from loop_ap_serving [OF loop_leds_serving [OF assms(1)] a] s'
  show ?thesis by (simp add: loop_rest_serving)
qed

lemma setup_main_serving:
  assumes "setup_main (boot e) = Some s"
  shows "serving s"
proof -
  from setup_main_result [of "boot e"] assms obtain b c p tr w where
    "s = (let st7 = (setup_loaded (boot e))\<lparr>clock := c, polls := p,
                          trace := trace (setup_loaded (boot e)) @ tr, wifiMode := w\<rparr>
             in if b then showConnected (st7\<lparr>runState := CONNECTED\<rparr>)
                else (startCaptiveAP st7)\<lparr>runState := AP_SETUP\<rparr>)"
    by auto
  then show ?thesis
    by (cases b)
       (simp_all add: serving_def Let_def showConnected_def startCaptiveAP_def WiFi_mode_def
          log_event_def setup_loaded_boot)
qed

lemma reachable_serving: "reachable s \<Longrightarrow> serving s"
proof (induction rule: reachable.induct)
  case (start e s)
  then show ?case by (rule setup_main_serving)
next
  case (tick s inp s')
  then show ?case using loop_serving by blast
next
  case (elapse s d)
  then show ?case by (simp add: serving_def)
qed

lemma save_pass_connects:
  assumes "runState st = AP_SETUP" "serverRunning st" "link st (polls st)"
  shows "\<exists>s'. loop save_tick st = Some s' \<and> runState s' = CONNECTED \<and>
     (if clock st + 40000 \<noteq> 0 \<and> clock st + 40000 \<le> clock st
      then \<not> serverRunning s' \<and> \<not> dnsRunning s' \<and> apShutdownAt s' = 0
      else serverRunning s' \<and> dnsRunning s' = dnsRunning st \<and>
           apShutdownAt s' = clock st + 40000)"
proof -
  from showSetupPattern_frame [of st] assms(1) obtain l1 l2 ph ps where
    L: "loop_leds st = st\<lparr>led01 := l1, led02 := l2, setupPhase := ph, setupPhaseStartMs := ps\<rparr>"
    by (auto simp: loop_leds_def)
  let ?L = "loop_leds st"
  let ?st4 = "coexist_attempt ''home'' ''secret123'' 0 True (persisted ''home'' ''secret123'' ?L)"
  define X where "X = ?st4\<lparr>trace := trace ?st4 @ [reply_connected ''home'' (localIP ?st4)],
                   lastHttpActivityMs := clock ?st4, apShutdownAt := clock ?st4 + 40000,
                   runState := CONNECTED, led01 := True, led02 := False\<rparr>"
  have up: "link (persisted ''home'' ''secret123'' ?L) (polls (persisted ''home'' ''secret123'' ?L))"
    using assms(3) by (simp add: persisted_env L)
  have t: "tryConnectWhileAp ''home'' ''secret123'' MAX_RETRIES CONNECT_TIMEOUT_MS
             (persisted ''home'' ''secret123'' ?L) = Some (True, ?st4)"
    by (rule tryConnectWhileAp_first [OF up])
  have h: "handleSave good_save ?L = Some X"
    by (simp add: handleSave_alt good_save_args t X_def)
  have b: "handleClient (Some good_save) ?L = Some X"
    using assms(2) by (simp add: handleClient_def L dispatch_def h [unfolded L])
       (simp add: good_save_def)
  have X: "runState X = CONNECTED" "clock X = clock st" "lastHttpActivityMs X = clock st"
    "apShutdownAt X = clock st + 40000" "serverRunning X" "dnsRunning X = dnsRunning st"
    using assms(2)
    by (simp_all add: X_def coexist_attempt_def persisted_def saveCredentialsToNVS_def
        putString_def putUChar_def log_event_def L)
  have c: "idle_retry X = Some X"
    by (simp add: idle_retry_def millis_def X AP_IDLE_TIMEOUT_MS_def)
  have l: "loop save_tick st = Some (loop_rest False X)"
    using assms(1) by (simp add: loop_alt save_tick_def loop_ap_def loop_leds_runState b c)
  have "runState (loop_rest False X) = CONNECTED \<and>
     (if clock st + 40000 \<noteq> 0 \<and> clock st + 40000 \<le> clock st
      then \<not> serverRunning (loop_rest False X) \<and> \<not> dnsRunning (loop_rest False X) \<and>
           apShutdownAt (loop_rest False X) = 0
      else serverRunning (loop_rest False X) \<and> dnsRunning (loop_rest False X) = dnsRunning st \<and>
           apShutdownAt (loop_rest False X) = clock st + 40000)"
    by (simp add: loop_rest_services loop_shutdown_def stopCaptiveAP_def log_event_def
        millis_def X)
  with l show ?thesis by blast
qed

lemma reachable_portal_at: "reachable (portal\<lparr>clock := c\<rparr>)"
proof -
  have "reachable (portal\<lparr>clock := clock portal + (c - clock portal)\<rparr>)"
    by (rule reachable.elapse [OF reachable_portal])
  then show ?thesis by simp
qed

lemma lingering_ignores_request:
  "loop status_tick lingering = loop idle_tick lingering"
  "loop idle_tick lingering =
     Some (lingering\<lparr>clock := 73300, trace := trace lingering @ [Delay 20]\<rparr>)"
proof -
  show "loop status_tick lingering = loop idle_tick lingering"
    by (simp add: loop_connected lingering_fields status_tick_def idle_tick_def)
  have "loop_rest False (showConnected lingering) =
          lingering\<lparr>clock := 73300, trace := trace lingering @ [Delay 20]\<rparr>"
    by (simp add: loop_rest_def loop_shutdown_def factoryResetCheck_def delay_def log_event_def
        showConnected_def millis_def Let_def lingering_explicit(2) portal_fields)
  then show "loop idle_tick lingering =
     Some (lingering\<lparr>clock := 73300, trace := trace lingering @ [Delay 20]\<rparr>)"
    by (simp add: loop_connected lingering_fields idle_tick_def)
qed

text \<open>
  Claim C4, as the code has it. For a valid \<^verbatim>\<open>POST /save\<close> the handler returns. When its
  connection attempt succeeds, the response is status 200 with the body
  \<open>Connected to <ssid> IP: <ip>\<close> followed by a line feed, \<^verbatim>\<open>runState\<close> is \<^verbatim>\<open>CONNECTED\<close>
  and, unless the 32-bit clock wraps within the next 40 s, \<^verbatim>\<open>apShutdownAt\<close> is 40000 ms
  after \<^verbatim>\<open>millis()\<close>. When the attempt fails, the response is status 500, \<^verbatim>\<open>runState\<close> is
  \<^verbatim>\<open>AP_SETUP\<close> and no deadline is written. In every state the controller can reach, a
  deadline that is set comes with \<^verbatim>\<open>CONNECTED\<close> and with the HTTP and DNS servers started.
  From a \<^verbatim>\<open>CONNECTED\<close> state with a deadline set, any passes of \<^verbatim>\<open>loop()\<close> that all begin
  before the deadline leave both servers and the deadline as they are; a pass that begins
  at or after the deadline, before the clock wraps, stops both servers and clears the
  deadline, and whatever passes follow leave them stopped and no deadline set. Whether a
  request is answered before the deadline is not part of the statement.
\<close>

theorem save_connects_and_schedules_shutdown:
  "(length (server_arg req ''ssid'') \<noteq> 0 \<and> 8 \<le> length (server_arg req ''pass'') \<longrightarrow>
      (\<exists>b st4 st'.
         tryConnectWhileAp (server_arg req ''ssid'') (server_arg req ''pass'') MAX_RETRIES
           CONNECT_TIMEOUT_MS
           (persisted (server_arg req ''ssid'') (server_arg req ''pass'') st) = Some (b, st4) \<and>
         handleSave req st = Some st' \<and>
         (b \<longrightarrow>
            trace st' = trace st4 @
              [ServerSend 200 ''text/html''
                 (Text (''Connected to '' @ server_arg req ''ssid'' @ '' IP: '' @ localIP st
                         @ [CHR 0x0A]))] \<and>
            runState st' = CONNECTED \<and>
            (unat (millis st') + 40000 < 2 ^ 32 \<longrightarrow>
               unat (apShutdownAt st') = unat (millis st') + 40000)) \<and>
         (\<not> b \<longrightarrow>
            trace st' = trace st4 @
              [ServerSend 500 ''text/plain''
                 (Text ''Failed to connect, please check credentials and try again.'')] \<and>
            runState st' = AP_SETUP \<and> apShutdownAt st' = apShutdownAt st))) \<and>
   (reachable s \<and> apShutdownAt s \<noteq> 0 \<longrightarrow>
      runState s = CONNECTED \<and> serverRunning s \<and> dnsRunning s) \<and>
   (runState s = CONNECTED \<and> apShutdownAt s \<noteq> 0 \<and>
    unat (millis s) + last_begin_ms xs < unat (apShutdownAt s) \<longrightarrow>
      (\<exists>s1. passes xs s = Some s1 \<and> runState s1 = CONNECTED \<and>
         serverRunning s1 = serverRunning s \<and> dnsRunning s1 = dnsRunning s \<and>
         apShutdownAt s1 = apShutdownAt s)) \<and>
   (runState s = CONNECTED \<and> apShutdownAt s \<noteq> 0 \<and> \<not> restarted s \<and>
    unat (apShutdownAt s) \<le> unat (millis s) + unat d \<and> unat (millis s) + unat d < 2 ^ 32 \<longrightarrow>
      (\<exists>s2. passes ((d, inp) # ys) s = Some s2 \<and> runState s2 = CONNECTED \<and>
         \<not> serverRunning s2 \<and> \<not> dnsRunning s2 \<and> apShutdownAt s2 = 0))"
proof (intro conjI impI)
  let ?ssid = "server_arg req ''ssid''" and ?pass = "server_arg req ''pass''"
  assume "length ?ssid \<noteq> 0 \<and> 8 \<le> length ?pass"
  then have v: "valid_save req" by (simp add: valid_save_def)
  from tryConnectWhileAp_result [of ?ssid ?pass MAX_RETRIES "persisted ?ssid ?pass st"]
  obtain b k where
    t: "tryConnectWhileAp ?ssid ?pass MAX_RETRIES CONNECT_TIMEOUT_MS (persisted ?ssid ?pass st) =
          Some (b, coexist_attempt ?ssid ?pass k b (persisted ?ssid ?pass st))"
    by blast
  let ?st4 = "coexist_attempt ?ssid ?pass k b (persisted ?ssid ?pass st)"
  have ip: "localIP ?st4 = localIP st" "apShutdownAt ?st4 = apShutdownAt st"
    by (simp_all add: coexist_attempt_def persisted_env)
  show "\<exists>b st4 st'.
         tryConnectWhileAp ?ssid ?pass MAX_RETRIES CONNECT_TIMEOUT_MS
           (persisted ?ssid ?pass st) = Some (b, st4) \<and>
         handleSave req st = Some st' \<and>
         (b \<longrightarrow>
            trace st' = trace st4 @
              [ServerSend 200 ''text/html''
                 (Text (''Connected to '' @ ?ssid @ '' IP: '' @ localIP st @ [CHR 0x0A]))] \<and>
            runState st' = CONNECTED \<and>
            (unat (millis st') + 40000 < 2 ^ 32 \<longrightarrow>
               unat (apShutdownAt st') = unat (millis st') + 40000)) \<and>
         (\<not> b \<longrightarrow>
            trace st' = trace st4 @
              [ServerSend 500 ''text/plain''
                 (Text ''Failed to connect, please check credentials and try again.'')] \<and>
            runState st' = AP_SETUP \<and> apShutdownAt st' = apShutdownAt st)"
  proof (cases b)
    case True
    let ?st' = "?st4\<lparr>trace := trace ?st4 @ [reply_connected ?ssid (localIP ?st4)],
                   lastHttpActivityMs := clock ?st4, apShutdownAt := clock ?st4 + 40000,
                   runState := CONNECTED, led01 := True, led02 := False\<rparr>"
    from True t have h: "handleSave req st = Some ?st'"
      by (simp add: handleSave_alt [OF v])
    have w: "unat (apShutdownAt ?st') = unat (millis ?st') + 40000"
      if "unat (millis ?st') + 40000 < 2 ^ 32"
    proof -
      have "unat (clock ?st4 + 40000) = unat (clock ?st4) + unat (40000 :: u32)"
        by (rule unat_add_small) (use that in \<open>simp add: millis_def\<close>)
      then show ?thesis by (simp add: millis_def)
    qed
    have "trace ?st' = trace ?st4 @
              [ServerSend 200 ''text/html''
                 (Text (''Connected to '' @ ?ssid @ '' IP: '' @ localIP st @ [CHR 0x0A]))]"
      "runState ?st' = CONNECTED"
      by (simp_all add: reply_connected_def ip)
    with True t h w show ?thesis by blast
  next
    case False
    let ?st' = "?st4\<lparr>trace := trace ?st4 @ [reply_failed], lastHttpActivityMs := clock ?st4,
                   runState := AP_SETUP\<rparr>"
    from False t have h: "handleSave req st = Some ?st'"
      by (simp add: handleSave_alt [OF v])
    have "trace ?st' = trace ?st4 @
              [ServerSend 500 ''text/plain''
                 (Text ''Failed to connect, please check credentials and try again.'')]"
      "runState ?st' = AP_SETUP" "apShutdownAt ?st' = apShutdownAt st"
      by (simp_all add: reply_failed_def ip)
    with False t h show ?thesis by blast
  qed
next
  assume a: "reachable s \<and> apShutdownAt s \<noteq> 0"
  with reachable_consistent [of s] show "runState s = CONNECTED"
    by (simp add: consistent_def)
  from a reachable_serving [of s] show "serverRunning s" "dnsRunning s"
    by (simp_all add: serving_def)
next
  assume "runState s = CONNECTED \<and> apShutdownAt s \<noteq> 0 \<and>
    unat (millis s) + last_begin_ms xs < unat (apShutdownAt s)"
  then show "\<exists>s1. passes xs s = Some s1 \<and> runState s1 = CONNECTED \<and>
         serverRunning s1 = serverRunning s \<and> dnsRunning s1 = dnsRunning s \<and>
         apShutdownAt s1 = apShutdownAt s"
    using linger_keeps [of s xs] by blast
next
  assume "runState s = CONNECTED \<and> apShutdownAt s \<noteq> 0 \<and> \<not> restarted s \<and>
    unat (apShutdownAt s) \<le> unat (millis s) + unat d \<and> unat (millis s) + unat d < 2 ^ 32"
  then show "\<exists>s2. passes ((d, inp) # ys) s = Some s2 \<and> runState s2 = CONNECTED \<and>
         \<not> serverRunning s2 \<and> \<not> dnsRunning s2 \<and> apShutdownAt s2 = 0"
    using deadline_pass [of s d inp ys] by blast
qed

text \<open>
  Three runs on the device whose network answers. The body sent for the saved pair \<open>home\<close>
  ends with a line feed: it is not \<open>Connected to home IP: 192.168.1.23\<close>. After that reply
  the servers are started and the deadline is 39980 ms away, yet a pass with a
  \<^verbatim>\<open>GET /status\<close> waiting does what a pass with no request does and sends nothing. When the
  save arrives 30 s before the 32-bit clock wraps, the pass that answers it also stops both
  servers; when it arrives 40 s before the wrap, no deadline is set at all.
\<close>

theorem save_reply_and_linger_differ:
  "last_logged (handleSave good_save portal) =
     Some (ServerSend 200 ''text/html'' (Text (''Connected to home IP: 192.168.1.23'' @ [CHR 0x0A]))) \<and>
   last_logged (handleSave good_save portal) \<noteq>
     Some (ServerSend 200 ''text/html'' (Text ''Connected to home IP: 192.168.1.23'')) \<and>
   reachable lingering \<and> runState lingering = CONNECTED \<and> serverRunning lingering \<and>
   dnsRunning lingering \<and> millis lingering = 73280 \<and> apShutdownAt lingering = 113260 \<and>
   loop status_tick lingering = loop idle_tick lingering \<and>
   map_option trace (loop status_tick lingering) = Some (trace lingering @ [Delay 20]) \<and>
   reachable (portal\<lparr>clock := 4294937296\<rparr>) \<and>
   map_option runState (loop save_tick (portal\<lparr>clock := 4294937296\<rparr>)) = Some CONNECTED \<and>
   map_option serverRunning (loop save_tick (portal\<lparr>clock := 4294937296\<rparr>)) = Some False \<and>
   map_option dnsRunning (loop save_tick (portal\<lparr>clock := 4294937296\<rparr>)) = Some False \<and>
   map_option apShutdownAt (loop save_tick (portal\<lparr>clock := 4294937296\<rparr>)) = Some 0 \<and>
   reachable (portal\<lparr>clock := 4294927296\<rparr>) \<and>
   map_option runState (loop save_tick (portal\<lparr>clock := 4294927296\<rparr>)) = Some CONNECTED \<and>
   map_option serverRunning (loop save_tick (portal\<lparr>clock := 4294927296\<rparr>)) = Some True \<and>
   map_option apShutdownAt (loop save_tick (portal\<lparr>clock := 4294927296\<rparr>)) = Some 0"
proof -
  have 1: "last_logged (handleSave good_save portal) =
     Some (ServerSend 200 ''text/html'' (Text (''Connected to home IP: 192.168.1.23'' @ [CHR 0x0A])))"
    "last_logged (handleSave good_save portal) \<noteq>
     Some (ServerSend 200 ''text/html'' (Text ''Connected to home IP: 192.168.1.23''))"
    by (simp_all add: handleSave_portal last_logged_def reply_connected_def)
  have 2: "runState lingering = CONNECTED" "serverRunning lingering" "dnsRunning lingering"
    "millis lingering = 73280" "apShutdownAt lingering = 113260"
    by (simp_all add: lingering_fields millis_def)
  have 3: "loop status_tick lingering = loop idle_tick lingering"
    "map_option trace (loop status_tick lingering) = Some (trace lingering @ [Delay 20])"
    by (simp_all add: lingering_ignores_request)
  let ?p = "portal\<lparr>clock := 4294937296\<rparr>"
  from save_pass_connects [of ?p] obtain s' where
    "loop save_tick ?p = Some s'" "runState s' = CONNECTED"
    "\<not> serverRunning s'" "\<not> dnsRunning s'" "apShutdownAt s' = 0"
    by (auto simp: portal_fields)
  then have 4: "map_option runState (loop save_tick ?p) = Some CONNECTED"
    "map_option serverRunning (loop save_tick ?p) = Some False"
    "map_option dnsRunning (loop save_tick ?p) = Some False"
    "map_option apShutdownAt (loop save_tick ?p) = Some 0"
    by simp_all
  let ?q = "portal\<lparr>clock := 4294927296\<rparr>"
  from save_pass_connects [of ?q] obtain s'' where
    "loop save_tick ?q = Some s''" "runState s'' = CONNECTED"
    "serverRunning s''" "apShutdownAt s'' = 0"
    by (auto simp: portal_fields)
  then have 5: "map_option runState (loop save_tick ?q) = Some CONNECTED"
    "map_option serverRunning (loop save_tick ?q) = Some True"
    "map_option apShutdownAt (loop save_tick ?q) = Some 0"
    by simp_all
  from 1 2 3 4 5 reachable_lingering reachable_portal_at [of 4294937296]
    reachable_portal_at [of 4294927296]
  show ?thesis by simp
qed

theorem save_connects_and_schedules_shutdown_witness:
  "(\<exists>st'. handleSave good_save portal = Some st' \<and>
      last (trace st') =
        ServerSend 200 ''text/html'' (Text (''Connected to home IP: 192.168.1.23'' @ [CHR 0x0A])) \<and>
      runState st' = CONNECTED \<and> unat (millis st') = 73260 \<and> unat (apShutdownAt st') = 113260) \<and>
   (\<exists>st'. handleSave good_save fresh = Some st' \<and>
      last (trace st') =
        ServerSend 500 ''text/plain''
          (Text ''Failed to connect, please check credentials and try again.'') \<and>
      runState st' = AP_SETUP \<and> apShutdownAt st' = 0) \<and>
   reachable lingering \<and> apShutdownAt lingering = 113260 \<and> millis lingering = 73280 \<and>
   runState lingering = CONNECTED \<and> serverRunning lingering \<and> dnsRunning lingering \<and>
   (\<exists>s1. passes [(1000, status_tick), (38000, idle_tick)] lingering = Some s1 \<and>
      runState s1 = CONNECTED \<and> serverRunning s1 \<and> dnsRunning s1 \<and> apShutdownAt s1 = 113260) \<and>
   (\<exists>s2. passes [(40000, idle_tick), (1000, status_tick)] lingering = Some s2 \<and>
      runState s2 = CONNECTED \<and> \<not> serverRunning s2 \<and> \<not> dnsRunning s2 \<and> apShutdownAt s2 = 0)"
proof -
  note T = save_connects_and_schedules_shutdown
  have ip: "localIP portal = ''192.168.1.23''" by (simp add: portal_fields)
  have a0: "apShutdownAt fresh = 0" by (simp add: fresh_def)
  have f: "apShutdownAt lingering = 113260" "millis lingering = 73280"
    "runState lingering = CONNECTED" "\<not> restarted lingering"
    by (simp_all add: lingering_fields millis_def)
  have pre: "length ''home'' \<noteq> 0 \<and> 8 \<le> length ''secret123''" by simp
  have 1: "\<exists>st'. handleSave good_save portal = Some st' \<and>
      last (trace st') =
        ServerSend 200 ''text/html'' (Text (''Connected to home IP: 192.168.1.23'' @ [CHR 0x0A])) \<and>
      runState st' = CONNECTED \<and> unat (millis st') = 73260 \<and> unat (apShutdownAt st') = 113260"
  proof -
    from T [of good_save portal lingering "[]" 0 idle_tick "[]", THEN conjunct1,
        unfolded good_save_args(1,2), THEN mp, OF pre]
    obtain b st4 st' where
      t: "tryConnectWhileAp ''home'' ''secret123'' MAX_RETRIES CONNECT_TIMEOUT_MS
            (persisted ''home'' ''secret123'' portal) = Some (b, st4)"
      and h: "handleSave good_save portal = Some st'"
      and ok: "b \<longrightarrow>
            trace st' = trace st4 @
              [ServerSend 200 ''text/html''
                 (Text (''Connected to '' @ ''home'' @ '' IP: '' @ localIP portal @ [CHR 0x0A]))] \<and>
            runState st' = CONNECTED \<and>
            (unat (millis st') + 40000 < 2 ^ 32 \<longrightarrow>
               unat (apShutdownAt st') = unat (millis st') + 40000)"
      by blast
    from t have b by (simp add: handleSave_portal(1))
    from h have m: "unat (millis st') = 73260"
      by (auto simp: handleSave_portal(2) millis_def coexist_attempt_def persisted_env
          portal_fields)
    from ok \<open>b\<close> m have "last (trace st') =
        ServerSend 200 ''text/html'' (Text (''Connected to home IP: 192.168.1.23'' @ [CHR 0x0A]))"
      "runState st' = CONNECTED" "unat (apShutdownAt st') = 113260"
      by (simp_all add: ip)
    with h m show ?thesis by blast
  qed
  from T [of good_save fresh lingering "[]" 0 idle_tick "[]"]
  have 2: "\<exists>st'. handleSave good_save fresh = Some st' \<and>
      last (trace st') =
        ServerSend 500 ''text/plain''
          (Text ''Failed to connect, please check credentials and try again.'') \<and>
      runState st' = AP_SETUP \<and> apShutdownAt st' = 0"
    unfolding good_save_args(1,2) handleSave_fresh a0 by auto
  from T [of good_save portal lingering "[]" 0 idle_tick "[]"] reachable_lingering
  have 3: "serverRunning lingering \<and> dnsRunning lingering"
    by (simp add: f)
  from T [of good_save portal lingering "[(1000, status_tick), (38000, idle_tick)]" 0 idle_tick "[]"]
  have 4: "\<exists>s1. passes [(1000, status_tick), (38000, idle_tick)] lingering = Some s1 \<and>
      runState s1 = CONNECTED \<and> serverRunning s1 \<and> dnsRunning s1 \<and> apShutdownAt s1 = 113260"
    using 3 by (simp add: f last_begin_ms_def)
  from T [of good_save portal lingering "[]" 40000 idle_tick "[(1000, status_tick)]"]
  have 5: "\<exists>s2. passes [(40000, idle_tick), (1000, status_tick)] lingering = Some s2 \<and>
      runState s2 = CONNECTED \<and> \<not> serverRunning s2 \<and> \<not> dnsRunning s2 \<and> apShutdownAt s2 = 0"
    by (simp add: f)
  from 1 2 3 4 5 f reachable_lingering show ?thesis by blast
qed

end
